(* ===== verification/Prelude.thy ===== *)
theory Prelude
  imports Main "HOL-Library.Sublist"
begin

text \<open>
  Shared vocabulary of the development: the collections the component theories feed their
  automation from, the composition of fallible computations, and the text operations of
  Python's \<^verbatim>\<open>str\<close> and of PostgreSQL's \<^verbatim>\<open>text\<close> that the backend uses.

  Text is \<^typ>\<open>string\<close>: a character stands for the Unicode code point of its number, so the
  model covers texts of the first 256 code points (ASCII and Latin-1).  Case conversion and
  white space follow Python's tables on that range.
\<close>

named_theorems text_simps \<open>equations of the text operations\<close>
named_theorems sql_defs \<open>definitions of the SQL functions and statements\<close>
named_theorems row_intros \<open>well-formedness of rows and tables\<close>

section \<open>Fallible computations\<close>

text \<open>
  An operation that may raise returns \<open>Inl\<close> of the error or \<open>Inr\<close> of its result.
  \<open>and_then\<close> is the sequencing of two such operations: the first error ends the sequence.
\<close>

primrec and_then :: "'e + 'a \<Rightarrow> ('a \<Rightarrow> 'e + 'b) \<Rightarrow> 'e + 'b" where
  "and_then (Inl e) f = Inl e"
| "and_then (Inr x) f = f x"

lemma and_then_Inr_iff [simp]:
  "and_then m f = Inr y \<longleftrightarrow> (\<exists>x. m = Inr x \<and> f x = Inr y)"
  by (cases m) auto

lemma and_then_Inl_iff [simp]:
  "and_then m f = Inl e \<longleftrightarrow> m = Inl e \<or> (\<exists>x. m = Inr x \<and> f x = Inl e)"
  by (cases m) auto

lemma and_then_cong [fundef_cong]:
  assumes "m = m'" and "\<And>x. m' = Inr x \<Longrightarrow> f x = g x"
  shows "and_then m f = and_then m' g"
  using assms by (cases m') auto

definition guard :: "bool \<Rightarrow> 'e \<Rightarrow> 'e + unit" where
  "guard b e = (if b then Inr () else Inl e)"

lemma guard_Inr_iff [simp]: "guard b e = Inr u \<longleftrightarrow> b"
  by (simp add: guard_def)

lemma guard_Inl_iff [simp]: "guard b e = Inl e' \<longleftrightarrow> \<not> b \<and> e' = e"
  by (auto simp: guard_def)

section \<open>Operations on a state\<close>

text \<open>An operation that reads and writes a state and may raise; in sequence, the first exception
  ends the operations and the state keeps what they did so far.\<close>

definition bind_state :: "('s \<Rightarrow> ('e + 'a) \<times> 's) \<Rightarrow> ('a \<Rightarrow> 's \<Rightarrow> ('e + 'b) \<times> 's) \<Rightarrow> 's \<Rightarrow> ('e + 'b) \<times> 's" where
  "bind_state m k s = (case m s of (Inl e, s1) \<Rightarrow> (Inl e, s1) | (Inr x, s1) \<Rightarrow> k x s1)"

definition return_state :: "'a \<Rightarrow> 's \<Rightarrow> ('e + 'a) \<times> 's" where
  "return_state x s = (Inr x, s)"

definition raise_state :: "'e \<Rightarrow> 's \<Rightarrow> ('e + 'a) \<times> 's" where
  "raise_state e s = (Inl e, s)"

section \<open>Lists: trimming, first match, single rows\<close>

text \<open>\<open>trim P xs\<close> drops the longest prefix and suffix of elements that satisfy \<open>P\<close>.\<close>

definition trim :: "('a \<Rightarrow> bool) \<Rightarrow> 'a list \<Rightarrow> 'a list" where
  "trim P xs = rev (dropWhile P (rev (dropWhile P xs)))"

lemma trim_Nil [simp]: "trim P [] = []"
  by (simp add: trim_def)

lemma hd_dropWhile_not: "dropWhile P xs \<noteq> [] \<Longrightarrow> \<not> P (hd (dropWhile P xs))"
  by (induction xs) auto

lemma dropWhile_id_iff: "dropWhile P xs = xs \<longleftrightarrow> xs = [] \<or> \<not> P (hd xs)"
proof (cases xs)
  case (Cons a ys)
  then show ?thesis
    using length_dropWhile_le [of P ys] by auto
qed simp

lemma length_trim_le: "length (trim P xs) \<le> length (dropWhile P xs)"
  unfolding trim_def using length_dropWhile_le [of P "rev (dropWhile P xs)"] by simp

lemma trim_id_iff:
  "trim P xs = xs \<longleftrightarrow> xs = [] \<or> (\<not> P (hd xs) \<and> \<not> P (last xs))"
proof (cases "dropWhile P xs = xs")
  case True
  then have "trim P xs = xs \<longleftrightarrow> dropWhile P (rev xs) = rev xs"
    by (auto simp: trim_def rev_swap)
  with True show ?thesis
    by (auto simp: dropWhile_id_iff hd_rev)
next
  case False
  then have "length (dropWhile P xs) < length xs"
    by (cases xs) (auto split: if_splits simp: le_imp_less_Suc length_dropWhile_le)
  with length_trim_le [of P xs] have "trim P xs \<noteq> xs" by auto
  with False show ?thesis by (auto simp: dropWhile_id_iff)
qed

lemma trim_eq_Nil_iff: "trim P xs = [] \<longleftrightarrow> (\<forall>x\<in>set xs. P x)"
proof -
  have "set xs = set (takeWhile P xs) \<union> set (dropWhile P xs)"
    by (metis set_append takeWhile_dropWhile_id)
  then have "(\<forall>x\<in>set (dropWhile P xs). P x) \<longleftrightarrow> (\<forall>x\<in>set xs. P x)"
    by (auto dest: set_takeWhileD)
  then show ?thesis by (simp add: trim_def dropWhile_eq_Nil_conv)
qed

lemma dropWhile_trim: "dropWhile P (trim P xs) = trim P xs"
proof (cases "trim P xs = []")
  case False
  let ?d = "dropWhile P xs"
  have d: "?d \<noteq> []" using False by (simp add: trim_eq_Nil_iff dropWhile_eq_Nil_conv)
  then have n: "\<not> P (hd ?d)" by (rule hd_dropWhile_not)
  obtain zs where zs: "?d = trim P xs @ zs"
    unfolding trim_def by (metis rev_append rev_rev_ident takeWhile_dropWhile_id)
  then have "hd ?d = hd (trim P xs)" using False by simp
  with n show ?thesis by (simp add: dropWhile_id_iff)
qed simp

lemma trim_idem [simp, text_simps]: "trim P (trim P xs) = trim P xs"
  by (subst trim_def) (simp add: dropWhile_trim, simp add: trim_def)

lemma trim_map: "(\<And>x. P (f x) = P x) \<Longrightarrow> trim P (map f xs) = map f (trim P xs)"
  by (simp add: trim_def dropWhile_map rev_map comp_def)

lemma trim_weaker_id:
  assumes "trim P xs = xs" and "\<And>x. Q x \<Longrightarrow> P x"
  shows "trim Q xs = xs"
  using assms by (auto simp: trim_id_iff)

lemma trim_trim_absorb:
  assumes "\<And>x. Q x \<Longrightarrow> P x"
  shows "trim Q (trim P xs) = trim P xs"
  by (rule trim_weaker_id [where P = P]) (simp_all add: assms)

lemma trim_infix:
  obtains ps ss where "xs = ps @ trim P xs @ ss" and "\<forall>x\<in>set ps. P x" and "\<forall>x\<in>set ss. P x"
proof
  let ?d = "dropWhile P xs"
  have "?d = rev (dropWhile P (rev ?d)) @ rev (takeWhile P (rev ?d))"
    by (metis rev_append rev_rev_ident takeWhile_dropWhile_id)
  then show "xs = takeWhile P xs @ trim P xs @ rev (takeWhile P (rev ?d))"
    unfolding trim_def by (metis takeWhile_dropWhile_id)
qed (auto dest: set_takeWhileD)

lemma trim_drop_outer:
  assumes "\<forall>x\<in>set ps. P x" and "\<forall>x\<in>set ss. P x"
  shows "trim P (ps @ xs @ ss) = trim P xs"
proof (cases "\<forall>x\<in>set xs. P x")
  case True
  with assms have "\<forall>x\<in>set (ps @ xs @ ss). P x" by auto
  with True show ?thesis using trim_eq_Nil_iff by metis
next
  case False
  then have "dropWhile P (ps @ xs @ ss) = dropWhile P xs @ ss"
    using assms(1) by (auto simp: dropWhile_append)
  moreover have "dropWhile P (rev ss @ ys) = dropWhile P ys" for ys
    by (rule dropWhile_append2) (use assms(2) in simp)
  ultimately show ?thesis by (simp add: trim_def)
qed

lemma trim_trim_stronger:
  assumes "\<And>x. Q x \<Longrightarrow> P x"
  shows "trim P (trim Q xs) = trim P xs"
proof (rule trim_infix [of xs Q])
  fix ps ss
  assume x: "xs = ps @ trim Q xs @ ss" "\<forall>x\<in>set ps. Q x" "\<forall>x\<in>set ss. Q x"
  then have "trim P (ps @ trim Q xs @ ss) = trim P (trim Q xs)"
    by (intro trim_drop_outer) (auto intro: assms)
  with x(1) show ?thesis by simp
qed

lemma length_trim_trim:
  assumes "\<And>x. Q x \<Longrightarrow> P x" and "length (trim P xs) = length (trim Q xs)"
  shows "trim P xs = trim Q xs"
proof (rule trim_infix [of "trim Q xs" P])
  fix ps ss assume "trim Q xs = ps @ trim P (trim Q xs) @ ss"
  then have q: "trim Q xs = ps @ trim P xs @ ss" by (simp only: trim_trim_stronger assms(1))
  then have "length (trim Q xs) = length ps + (length (trim P xs) + length ss)"
    by (metis length_append)
  with assms(2) have "ps = []" "ss = []" by simp_all
  with q show ?thesis by simp
qed

section \<open>Lookup by a unique key\<close>

lemma distinct_map_eq:
  "distinct (map f xs) \<Longrightarrow> x \<in> set xs \<Longrightarrow> y \<in> set xs \<Longrightarrow> f x = f y \<Longrightarrow> x = y"
  by (simp add: distinct_map inj_on_def)

lemma filter_unique_key:
  "distinct (map f xs) \<Longrightarrow> x \<in> set xs \<Longrightarrow> filter (\<lambda>y. f y = f x) xs = [x]"
proof (induction xs)
  case (Cons a xs)
  show ?case
  proof (cases "x = a")
    case True
    with Cons.prems have "\<forall>y\<in>set xs. f y \<noteq> f x" by (auto simp: image_iff)
    with True show ?thesis by (simp add: filter_empty_conv)
  next
    case False
    with Cons show ?thesis by auto
  qed
qed simp

lemma filter_eq_single:
  assumes "distinct xs" and "x \<in> set xs" and "P x" and "\<And>y. y \<in> set xs \<Longrightarrow> P y \<Longrightarrow> y = x"
  shows "filter P xs = [x]"
proof -
  have "filter P xs = filter (\<lambda>y. y = x) xs"
    by (rule filter_cong) (use assms(3,4) in auto)
  also have "\<dots> = [x]"
    using filter_unique_key [of "\<lambda>y. y" xs x] assms(1,2) by simp
  finally show ?thesis .
qed

lemma find_Some_D: "find P xs = Some x \<Longrightarrow> x \<in> set xs \<and> P x"
  by (induction xs) (auto split: if_splits)

lemma find_None_D: "find P xs = None \<Longrightarrow> x \<in> set xs \<Longrightarrow> \<not> P x"
  by (auto simp: find_None_iff)

lemma find_unique:
  assumes "x \<in> set xs" and "P x" and "\<And>y. y \<in> set xs \<Longrightarrow> P y \<Longrightarrow> y = x"
  shows "find P xs = Some x"
proof (cases "find P xs")
  case None
  with assms(1,2) show ?thesis by (auto dest: find_None_D)
next
  case (Some y)
  with assms(3) show ?thesis by (auto dest: find_Some_D)
qed

lemma find_append:
  "find P (xs @ ys) = (case find P xs of None \<Rightarrow> find P ys | Some x \<Rightarrow> Some x)"
  by (induction xs) auto

lemma length_filter_weaken:
  "(\<And>x. P x \<Longrightarrow> Q x) \<Longrightarrow> length (filter P xs) \<le> length (filter Q xs)"
  by (induction xs) auto

lemma filter_stronger: "(\<And>x. Q x \<Longrightarrow> P x) \<Longrightarrow> filter Q (filter P xs) = filter Q xs"
  by (induction xs) auto

lemma foldl_max_le: "foldl max m xs \<le> b \<longleftrightarrow> m \<le> b \<and> (\<forall>x\<in>set xs. x \<le> (b :: 'a::linorder))"
  by (induction xs arbitrary: m) auto

lemma sorted_le_last: "sorted xs \<Longrightarrow> x \<in> set xs \<Longrightarrow> x \<le> last xs"
  by (induction xs) auto

lemma concat_map_singletons: "(\<And>x. x \<in> set xs \<Longrightarrow> f x = [g x]) \<Longrightarrow> concat (map f xs) = map g xs"
  by (induction xs) auto

lemma prefix_map_filter_distinct: "distinct (map f xs) \<Longrightarrow> distinct (map f (filter P xs))"
  by (simp add: distinct_map inj_on_def)

text \<open>A nested loop whose inner loop yields at most one row per outer row.\<close>

lemma concat_map_at_most_one:
  assumes "\<And>x. length (f x) \<le> 1"
  shows "map fst (concat (map (\<lambda>x. map (\<lambda>y. (x, y)) (f x)) xs)) = filter (\<lambda>x. f x \<noteq> []) xs"
proof (induction xs)
  case (Cons x xs)
  show ?case
  proof (cases "f x")
    case Nil
    with Cons.IH show ?thesis by simp
  next
    case (Cons y ys)
    with assms [of x] have "f x = [y]" by simp
    with Cons.IH show ?thesis by simp
  qed
qed simp

lemma filter_key_at_most_one:
  "distinct (map f xs) \<Longrightarrow> length (filter (\<lambda>x. f x = k) xs) \<le> 1"
proof (cases "\<exists>x\<in>set xs. f x = k")
  case True
  assume d: "distinct (map f xs)"
  from True obtain x where "x \<in> set xs" "k = f x" by blast
  with filter_unique_key [OF d] show ?thesis by simp
next
  case False
  then have "filter (\<lambda>x. f x = k) xs = []" by (auto simp: filter_empty_conv)
  then show ?thesis by simp
qed

section \<open>Dicts\<close>

text \<open>A dict in insertion order: \<^verbatim>\<open>d[k] = v\<close>, \<^verbatim>\<open>d.setdefault(k, v)\<close> and
  \<^verbatim>\<open>d.update(e)\<close>\<close>

primrec put :: "string \<Rightarrow> 'v \<Rightarrow> (string \<times> 'v) list \<Rightarrow> (string \<times> 'v) list" where
  "put k v [] = [(k, v)]"
| "put k v (p # d) = (if fst p = k then (k, v) # d else p # put k v d)"

definition setdefault :: "string \<Rightarrow> 'v \<Rightarrow> (string \<times> 'v) list \<Rightarrow> (string \<times> 'v) list" where
  "setdefault k v d = (if map_of d k = None then put k v d else d)"

definition update_dict :: "(string \<times> 'v) list \<Rightarrow> (string \<times> 'v) list \<Rightarrow> (string \<times> 'v) list" where
  "update_dict d e = foldl (\<lambda>d (k, v). put k v d) d e"

lemma map_of_put [simp]: "map_of (put k v d) = (map_of d)(k \<mapsto> v)"
  by (induction d) (auto simp: fun_eq_iff)

lemma set_keys_put: "fst ` set (put k v d) = insert k (fst ` set d)"
  by (induction d) auto

lemma map_of_update_dict: "map_of (update_dict d e) k = (case map_of (rev e) k of Some v \<Rightarrow> Some v | None \<Rightarrow> map_of d k)"
proof (induction e arbitrary: d)
  case (Cons p e)
  then show ?case
    by (cases p) (simp add: update_dict_def map_add_def split: option.splits)
qed (simp add: update_dict_def)

lemma map_of_rev_distinct: "distinct (map fst e) \<Longrightarrow> map_of (rev e) = map_of e"
  by (metis distinct_rev map_of_eqI rev_map set_map set_rev map_of_inject_set rev_rev_ident)

lemma map_of_setdefault [simp]:
  "map_of (setdefault k v d) j = (if j = k \<and> map_of d k = None then Some v else map_of d j)"
  by (simp add: setdefault_def)

end
