(* ===== verification/PyText.thy ===== *)
theory PyText
  imports Prelude
begin

text \<open>
  The \<^verbatim>\<open>str\<close> methods of Python and the \<^verbatim>\<open>text\<close> functions of PostgreSQL that the
  backend calls, on texts of the first 256 code points.  The one difference that matters to
  identities is white space: \<^verbatim>\<open>str.strip\<close> removes every character Python counts as space,
  SQL's one-argument \<^verbatim>\<open>btrim\<close> removes the blank (U+0020) only.
\<close>

section \<open>Characters\<close>

definition code :: "char \<Rightarrow> nat" where
  "code c = of_char c"

lemma code_less [simp]: "code c < 256"
  by (simp add: code_def)

lemma code_char_of [simp]: "code (char_of n) = n mod 256" for n :: nat
  by (simp add: code_def)

lemma code_inject [simp]: "code a = code b \<longleftrightarrow> a = b"
  by (simp add: code_def)

text \<open>\<^verbatim>\<open>str.isspace\<close> of one character: tab to carriage return, the four separators, blank,
  next line and no-break space.\<close>

definition py_space :: "char \<Rightarrow> bool" where
  "py_space c = (let n = code c in
     (9 \<le> n \<and> n \<le> 13) \<or> (28 \<le> n \<and> n \<le> 32) \<or> n = 133 \<or> n = 160)"

definition blank :: "char \<Rightarrow> bool" where
  "blank c = (code c = 32)"

definition upper_letter :: "nat \<Rightarrow> bool" where
  "upper_letter n = ((65 \<le> n \<and> n \<le> 90) \<or> (192 \<le> n \<and> n \<le> 222 \<and> n \<noteq> 215))"

definition lower_letter :: "nat \<Rightarrow> bool" where
  "lower_letter n = ((97 \<le> n \<and> n \<le> 122) \<or> (224 \<le> n \<and> n \<le> 254 \<and> n \<noteq> 247))"

definition lower_char :: "char \<Rightarrow> char" where
  "lower_char c = (if upper_letter (code c) then char_of (code c + 32) else c)"

text \<open>\<^verbatim>\<open>str.upper\<close> of one character: the sharp s becomes two letters.  The capitals of the
  micro sign and of y with diaeresis lie beyond the first 256 code points; they are left as
  they are, which no prefix the code tests for can see.\<close>

definition upper_char :: "char \<Rightarrow> string" where
  "upper_char c = (if code c = 223 then ''SS''
     else if lower_letter (code c) then [char_of (code c - 32)] else [c])"

lemma blank_py_space: "blank c \<Longrightarrow> py_space c"
  by (simp add: blank_def py_space_def)

lemma code_lower_char:
  "code (lower_char c) = (if upper_letter (code c) then code c + 32 else code c)"
  by (auto simp: lower_char_def upper_letter_def)

lemma py_space_lower [simp]: "py_space (lower_char c) = py_space c"
  by (auto simp: py_space_def code_lower_char upper_letter_def Let_def)

lemma blank_lower [simp]: "blank (lower_char c) = blank c"
  by (auto simp: blank_def code_lower_char upper_letter_def)

lemma lower_char_idem [simp]: "lower_char (lower_char c) = lower_char c"
  by (subst lower_char_def) (auto simp: code_lower_char upper_letter_def)

section \<open>Python strings\<close>

definition strip :: "string \<Rightarrow> string" where
  "strip s = trim py_space s"

definition lower :: "string \<Rightarrow> string" where
  "lower s = map lower_char s"

definition upper :: "string \<Rightarrow> string" where
  "upper s = concat (map upper_char s)"

definition startswith :: "string \<Rightarrow> string \<Rightarrow> bool" where
  "startswith s p = prefix p s"

definition endswith :: "string \<Rightarrow> string \<Rightarrow> bool" where
  "endswith s p = suffix p s"

text \<open>\<^verbatim>\<open>s.rstrip("/")\<close>\<close>

definition rstrip_slash :: "string \<Rightarrow> string" where
  "rstrip_slash s = rev (dropWhile (\<lambda>c. c = CHR ''/'') (rev s))"

text \<open>\<^verbatim>\<open>p in s\<close> for two strings\<close>

primrec py_in :: "string \<Rightarrow> string \<Rightarrow> bool" where
  "py_in p [] = (p = [])"
| "py_in p (c # s) = (prefix p (c # s) \<or> py_in p s)"

text \<open>\<^verbatim>\<open>s.replace(old, new, 1)\<close> for a non-empty \<^verbatim>\<open>old\<close>\<close>

fun replace_first :: "string \<Rightarrow> string \<Rightarrow> string \<Rightarrow> string" where
  "replace_first p r [] = []"
| "replace_first p r (c # s) =
     (if prefix p (c # s) then r @ drop (length p) (c # s) else c # replace_first p r s)"

section \<open>SQL text\<close>

definition btrim :: "string \<Rightarrow> string" where
  "btrim s = trim blank s"

text \<open>\<^verbatim>\<open>nullif(btrim(x), '')\<close> of a nullable text\<close>

definition nullif_blank :: "string option \<Rightarrow> string option" where
  "nullif_blank x = (case x of None \<Rightarrow> None
     | Some s \<Rightarrow> if btrim s = [] then None else Some (btrim s))"

section \<open>Laws\<close>

lemma strip_idem [simp, text_simps]: "strip (strip s) = strip s"
  by (simp add: strip_def)

lemma btrim_idem [simp, text_simps]: "btrim (btrim s) = btrim s"
  by (simp add: btrim_def)

lemma lower_idem [simp, text_simps]: "lower (lower s) = lower s"
  by (simp add: lower_def comp_def)

lemma lower_Nil_iff [simp]: "lower s = [] \<longleftrightarrow> s = []"
  by (simp add: lower_def)

lemma length_lower [simp]: "length (lower s) = length s"
  by (simp add: lower_def)

lemma strip_lower [text_simps]: "strip (lower s) = lower (strip s)"
  by (simp add: strip_def lower_def trim_map)

lemma btrim_lower [text_simps]: "btrim (lower s) = lower (btrim s)"
  by (simp add: btrim_def lower_def trim_map)

lemma btrim_strip [simp, text_simps]: "btrim (strip s) = strip s"
  by (simp add: btrim_def strip_def trim_trim_absorb blank_py_space)

lemma btrim_id_if_stripped: "strip s = s \<Longrightarrow> btrim s = s"
  by (metis btrim_strip)

lemma nullif_blank_None [simp]: "nullif_blank None = None"
  by (simp add: nullif_blank_def)

lemma nullif_blank_Some_iff:
  "nullif_blank x = Some v \<longleftrightarrow> (\<exists>s. x = Some s \<and> v = btrim s \<and> v \<noteq> [])"
  by (auto simp: nullif_blank_def split: option.splits)

lemma nullif_blank_None_iff:
  "nullif_blank x = None \<longleftrightarrow> (\<forall>s. x = Some s \<longrightarrow> btrim s = [])"
  by (auto simp: nullif_blank_def split: option.splits)

lemma nullif_blank_stripped [simp]: "s \<noteq> [] \<Longrightarrow> strip s = s \<Longrightarrow> nullif_blank (Some s) = Some s"
  by (simp add: nullif_blank_def btrim_id_if_stripped)

lemma last_rstrip_slash: "rstrip_slash s \<noteq> [] \<Longrightarrow> last (rstrip_slash s) \<noteq> CHR ''/''"
  using hd_dropWhile_not [of "\<lambda>c. c = CHR ''/''" "rev s"]
  by (simp add: rstrip_slash_def last_rev)

lemma endswith_char: "endswith s [c] \<longleftrightarrow> s \<noteq> [] \<and> last s = c"
  by (auto simp: endswith_def suffix_def) (metis append_butlast_last_id)

lemma rstrip_slash_no_slash: "\<not> endswith (rstrip_slash s) ''/''"
  using last_rstrip_slash by (auto simp: endswith_char)

lemma rstrip_slash_idem [simp]: "rstrip_slash (rstrip_slash s) = rstrip_slash s"
  by (simp add: rstrip_slash_def dropWhile_idem)

lemma rstrip_slash_snoc [simp]: "rstrip_slash (s @ ''/'') = rstrip_slash s"
  by (simp add: rstrip_slash_def)

lemma rstrip_slash_prefix: "prefix (rstrip_slash s) s"
  unfolding rstrip_slash_def using suffix_dropWhile [of _ "rev s"]
  by (simp add: suffix_to_prefix)

lemma py_in_append: "py_in p (p @ ss)"
proof (cases "p @ ss")
  case (Cons c s)
  have "prefix p (p @ ss)" by simp
  with Cons show ?thesis by simp
qed simp

lemma py_inI: "py_in p (ps @ p @ ss)"
  by (induction ps) (simp_all add: py_in_append)

lemma py_inD: "py_in p s \<Longrightarrow> \<exists>ps ss. s = ps @ p @ ss"
proof (induction s)
  case (Cons c s)
  show ?case
  proof (cases "prefix p (c # s)")
    case True
    then have "c # s = [] @ p @ drop (length p) (c # s)" by (auto simp: prefix_def)
    then show ?thesis by blast
  next
    case False
    with Cons obtain ps ss where "s = ps @ p @ ss" by auto
    then have "c # s = (c # ps) @ p @ ss" by simp
    then show ?thesis by blast
  qed
qed simp

end
