(* ===== verification/Schema.thy ===== *)
theory Schema
  imports PyText "HOL-Library.Word"
begin

text \<open>
  The application database: the four tables of \<^verbatim>\<open>backend/storage/models.py\<close> as migration
  0002 creates them, their constraints, and the data-modifying statements the bootstrap
  functions issue.  A table is the list of its rows, a statement that breaks a constraint is the
  error PostgreSQL raises.  \<open>schema_ok\<close> is the conjunction of all constraints, and every
  statement keeps it.
\<close>

type_synonym uuid = "128 word"

text \<open>Transaction time, \<^verbatim>\<open>now()\<close>.\<close>

type_synonym timestamp = int

section \<open>Rows and tables\<close>

definition ACTIVE :: string where "ACTIVE = ''active''"
definition DISABLED :: string where "DISABLED = ''disabled''"
definition STATUSES :: "string list" where "STATUSES = [ACTIVE, DISABLED]"
definition ROLE_OWNER :: string where "ROLE_OWNER = ''owner''"
definition ROLE_MEMBER :: string where "ROLE_MEMBER = ''member''"
definition ROLES :: "string list" where "ROLES = [ROLE_OWNER, ROLE_MEMBER]"
definition KIND_PERSONAL :: string where "KIND_PERSONAL = ''personal''"
definition KIND_TEAM :: string where "KIND_TEAM = ''team''"
definition KINDS :: "string list" where "KINDS = [KIND_PERSONAL, KIND_TEAM]"

lemmas constants [simp] = ACTIVE_def DISABLED_def STATUSES_def ROLE_OWNER_def ROLE_MEMBER_def
  ROLES_def KIND_PERSONAL_def KIND_TEAM_def KINDS_def

record SignupAllowlist =
  alw_id :: uuid
  alw_email :: string
  alw_note :: "string option"
  alw_created_at :: timestamp
  alw_updated_at :: timestamp

record User =
  usr_id :: uuid
  usr_email :: string
  usr_external_id :: "string option"
  usr_status :: string
  usr_created_at :: timestamp
  usr_updated_at :: timestamp

record Tenant =
  tnt_id :: uuid
  tnt_name :: string
  tnt_kind :: string
  tnt_owner_user_id :: uuid
  tnt_status :: string
  tnt_created_at :: timestamp
  tnt_updated_at :: timestamp

record Membership =
  mbr_id :: uuid
  mbr_user_id :: uuid
  mbr_tenant_id :: uuid
  mbr_role :: string
  mbr_status :: string
  mbr_created_at :: timestamp
  mbr_updated_at :: timestamp

record database =
  signup_allowlist :: "SignupAllowlist list"
  users :: "User list"
  tenants :: "Tenant list"
  memberships :: "Membership list"

text \<open>The generated column \<^verbatim>\<open>email_normalized\<close>: \<^verbatim>\<open>lower(btrim(email))\<close>.\<close>

definition EMAIL_NORMALIZATION_SQL :: "string \<Rightarrow> string" where
  "EMAIL_NORMALIZATION_SQL email = lower (btrim email)"

definition email_normalized :: "User \<Rightarrow> string" where
  "email_normalized u = EMAIL_NORMALIZATION_SQL (usr_email u)"

definition alw_email_normalized :: "SignupAllowlist \<Rightarrow> string" where
  "alw_email_normalized a = EMAIL_NORMALIZATION_SQL (alw_email a)"

definition is_personal :: "Tenant \<Rightarrow> bool" where
  "is_personal t = (tnt_kind t = KIND_PERSONAL)"

section \<open>Constraints\<close>

definition status_check :: "string \<Rightarrow> bool" where
  "status_check s = (s \<in> set STATUSES)"

definition kind_check :: "string \<Rightarrow> bool" where
  "kind_check k = (k \<in> set KINDS)"

definition role_check :: "string \<Rightarrow> bool" where
  "role_check r = (r \<in> set ROLES)"

text \<open>The non-null values of a nullable unique column.\<close>

definition bound_subjects :: "User list \<Rightarrow> string list" where
  "bound_subjects us = map (\<lambda>u. the (usr_external_id u)) (filter (\<lambda>u. usr_external_id u \<noteq> None) us)"

definition allowlist_ok :: "SignupAllowlist list \<Rightarrow> bool" where
  "allowlist_ok rows = (distinct (map alw_id rows) \<and> distinct (map alw_email_normalized rows))"

definition users_ok :: "User list \<Rightarrow> bool" where
  "users_ok us = (distinct (map usr_id us) \<and> distinct (map email_normalized us)
     \<and> distinct (bound_subjects us) \<and> list_all (\<lambda>u. status_check (usr_status u)) us)"

definition tenants_ok :: "User list \<Rightarrow> Tenant list \<Rightarrow> bool" where
  "tenants_ok us ts = (distinct (map tnt_id ts)
     \<and> distinct (map tnt_owner_user_id (filter is_personal ts))
     \<and> list_all (\<lambda>t. status_check (tnt_status t) \<and> kind_check (tnt_kind t)
         \<and> tnt_owner_user_id t \<in> set (map usr_id us)) ts)"

definition memberships_ok :: "User list \<Rightarrow> Tenant list \<Rightarrow> Membership list \<Rightarrow> bool" where
  "memberships_ok us ts ms = (distinct (map mbr_id ms)
     \<and> distinct (map (\<lambda>m. (mbr_user_id m, mbr_tenant_id m)) ms)
     \<and> list_all (\<lambda>m. status_check (mbr_status m) \<and> role_check (mbr_role m)
         \<and> mbr_user_id m \<in> set (map usr_id us) \<and> mbr_tenant_id m \<in> set (map tnt_id ts)) ms)"

definition schema_ok :: "database \<Rightarrow> bool" where
  "schema_ok db = (allowlist_ok (signup_allowlist db) \<and> users_ok (users db)
     \<and> tenants_ok (users db) (tenants db)
     \<and> memberships_ok (users db) (tenants db) (memberships db))"

section \<open>Errors the database raises\<close>

text \<open>What the driver reports: the SQLSTATE when the server sent one, and the message.\<close>

datatype db_error = DBError (sqlstate: "string option") (message: string)

definition unique_violation :: "string \<Rightarrow> db_error" where
  "unique_violation c =
     DBError (Some ''23505'') (''duplicate key value violates unique constraint '' @ c)"

definition foreign_key_violation :: "string \<Rightarrow> db_error" where
  "foreign_key_violation c = DBError (Some ''23503'') (''violates foreign key constraint '' @ c)"

definition check_violation :: "string \<Rightarrow> db_error" where
  "check_violation c = DBError (Some ''23514'') (''violates check constraint '' @ c)"

section \<open>Statements\<close>

text \<open>Column defaults of a new row: \<^verbatim>\<open>server_default\<close> of \<^verbatim>\<open>models.py\<close> and of the
  migration.  The identifier is the value \<^verbatim>\<open>gen_random_uuid()\<close> yields, an argument.\<close>

definition new_user :: "uuid \<Rightarrow> timestamp \<Rightarrow> string \<Rightarrow> string option \<Rightarrow> User" where
  "new_user i now email external_id = \<lparr>usr_id = i, usr_email = email,
     usr_external_id = external_id, usr_status = ACTIVE,
     usr_created_at = now, usr_updated_at = now\<rparr>"

definition new_tenant :: "uuid \<Rightarrow> timestamp \<Rightarrow> string \<Rightarrow> string \<Rightarrow> uuid \<Rightarrow> Tenant" where
  "new_tenant i now name kind owner = \<lparr>tnt_id = i, tnt_name = name, tnt_kind = kind,
     tnt_owner_user_id = owner, tnt_status = ACTIVE,
     tnt_created_at = now, tnt_updated_at = now\<rparr>"

definition new_membership :: "uuid \<Rightarrow> timestamp \<Rightarrow> uuid \<Rightarrow> uuid \<Rightarrow> string \<Rightarrow> Membership" where
  "new_membership i now user tenant role = \<lparr>mbr_id = i, mbr_user_id = user,
     mbr_tenant_id = tenant, mbr_role = role, mbr_status = ACTIVE,
     mbr_created_at = now, mbr_updated_at = now\<rparr>"

definition insert_user :: "User \<Rightarrow> database \<Rightarrow> db_error + database" where
  "insert_user u db =
     (if \<not> status_check (usr_status u) then Inl (check_violation ''ck_users_status'')
      else if usr_id u \<in> set (map usr_id (users db)) then Inl (unique_violation ''pk_users'')
      else if email_normalized u \<in> set (map email_normalized (users db))
        then Inl (unique_violation ''uq_users_email_normalized'')
      else if usr_external_id u \<noteq> None
          \<and> usr_external_id u \<in> set (map usr_external_id (users db))
        then Inl (unique_violation ''uq_users_external_id'')
      else Inr (db\<lparr>users := users db @ [u]\<rparr>))"

definition insert_tenant :: "Tenant \<Rightarrow> database \<Rightarrow> db_error + database" where
  "insert_tenant t db =
     (if \<not> status_check (tnt_status t) then Inl (check_violation ''ck_tenants_status'')
      else if \<not> kind_check (tnt_kind t) then Inl (check_violation ''ck_tenants_kind'')
      else if tnt_id t \<in> set (map tnt_id (tenants db)) then Inl (unique_violation ''pk_tenants'')
      else if is_personal t
          \<and> tnt_owner_user_id t \<in> set (map tnt_owner_user_id (filter is_personal (tenants db)))
        then Inl (unique_violation ''uq_tenants_personal_owner'')
      else if tnt_owner_user_id t \<notin> set (map usr_id (users db))
        then Inl (foreign_key_violation ''fk_tenants_owner_user_id'')
      else Inr (db\<lparr>tenants := tenants db @ [t]\<rparr>))"

definition insert_membership :: "Membership \<Rightarrow> database \<Rightarrow> db_error + database" where
  "insert_membership m db =
     (if \<not> status_check (mbr_status m) then Inl (check_violation ''ck_memberships_status'')
      else if \<not> role_check (mbr_role m) then Inl (check_violation ''ck_memberships_role'')
      else if mbr_id m \<in> set (map mbr_id (memberships db))
        then Inl (unique_violation ''pk_memberships'')
      else if (mbr_user_id m, mbr_tenant_id m)
          \<in> set (map (\<lambda>m. (mbr_user_id m, mbr_tenant_id m)) (memberships db))
        then Inl (unique_violation ''uq_memberships_user_id_tenant_id'')
      else if mbr_user_id m \<notin> set (map usr_id (users db))
        then Inl (foreign_key_violation ''fk_memberships_user_id'')
      else if mbr_tenant_id m \<notin> set (map tnt_id (tenants db))
        then Inl (foreign_key_violation ''fk_memberships_tenant_id'')
      else Inr (db\<lparr>memberships := memberships db @ [m]\<rparr>))"

text \<open>\<^verbatim>\<open>UPDATE public.users SET email = e, updated_at = now() WHERE id = i\<close>\<close>

definition update_user_email ::
    "uuid \<Rightarrow> string \<Rightarrow> timestamp \<Rightarrow> database \<Rightarrow> db_error + database" where
  "update_user_email i e now db =
     (let us = map (\<lambda>u. if usr_id u = i then u\<lparr>usr_email := e, usr_updated_at := now\<rparr> else u)
                 (users db)
      in if distinct (map email_normalized us) then Inr (db\<lparr>users := us\<rparr>)
         else Inl (unique_violation ''uq_users_email_normalized''))"

text \<open>\<^verbatim>\<open>UPDATE public.users SET external_id = s, updated_at = now() WHERE id = i\<close>\<close>

definition update_user_external_id ::
    "uuid \<Rightarrow> string option \<Rightarrow> timestamp \<Rightarrow> database \<Rightarrow> db_error + database" where
  "update_user_external_id i s now db =
     (let us = map (\<lambda>u. if usr_id u = i
                         then u\<lparr>usr_external_id := s, usr_updated_at := now\<rparr> else u) (users db)
      in if distinct (bound_subjects us) then Inr (db\<lparr>users := us\<rparr>)
         else Inl (unique_violation ''uq_users_external_id''))"

section \<open>Statements keep the constraints\<close>

lemma bound_subjects_simps [simp]:
  "bound_subjects [] = []"
  "bound_subjects (us @ vs) = bound_subjects us @ bound_subjects vs"
  "bound_subjects (u # us) = (case usr_external_id u of None \<Rightarrow> bound_subjects us
     | Some s \<Rightarrow> s # bound_subjects us)"
  by (auto simp: bound_subjects_def split: option.splits)

lemma set_bound_subjects: "s \<in> set (bound_subjects us) \<longleftrightarrow> Some s \<in> usr_external_id ` set us"
  by (induction us) (auto split: option.splits)

lemma email_normalized_update [simp]:
  "email_normalized (u\<lparr>usr_external_id := s\<rparr>) = email_normalized u"
  "email_normalized (u\<lparr>usr_updated_at := n\<rparr>) = email_normalized u"
  "email_normalized (u\<lparr>usr_email := e\<rparr>) = EMAIL_NORMALIZATION_SQL e"
  by (simp_all add: email_normalized_def)

lemma tenants_ok_more_users: "tenants_ok us ts \<Longrightarrow> tenants_ok (us @ vs) ts"
  by (auto simp: tenants_ok_def list_all_iff)

lemma memberships_ok_more:
  "memberships_ok us ts ms \<Longrightarrow> memberships_ok (us @ vs) (ts @ ws) ms"
  by (auto simp: memberships_ok_def list_all_iff)

lemma tenants_ok_same_ids:
  "map usr_id us = map usr_id vs \<Longrightarrow> tenants_ok us ts = tenants_ok vs ts"
  by (simp add: tenants_ok_def flip: set_map)

lemma memberships_ok_same_ids:
  "map usr_id us = map usr_id vs \<Longrightarrow> memberships_ok us ts ms = memberships_ok vs ts ms"
  by (simp add: memberships_ok_def flip: set_map)

lemma insert_user_ok [row_intros]:
  assumes "schema_ok db" and "insert_user u db = Inr db'"
  shows "schema_ok db'"
proof -
  from assms have db': "db' = db\<lparr>users := users db @ [u]\<rparr>"
    and "users_ok (users db @ [u])"
    by (auto simp: insert_user_def users_ok_def schema_ok_def set_bound_subjects
        split: if_splits option.splits)
  with assms(1) show ?thesis
    using memberships_ok_more [of "users db" "tenants db" "memberships db" "[u]" "[]"]
    by (auto simp: schema_ok_def intro: tenants_ok_more_users)
qed

lemma insert_tenant_ok [row_intros]:
  assumes "schema_ok db" and "insert_tenant t db = Inr db'"
  shows "schema_ok db'"
proof -
  from assms have db': "db' = db\<lparr>tenants := tenants db @ [t]\<rparr>"
    and "tenants_ok (users db) (tenants db @ [t])"
    by (auto simp: insert_tenant_def tenants_ok_def schema_ok_def split: if_splits)
  with assms(1) show ?thesis
    using memberships_ok_more [of "users db" "tenants db" "memberships db" "[]" "[t]"]
    by (auto simp: schema_ok_def)
qed

lemma insert_membership_ok [row_intros]:
  "schema_ok db \<Longrightarrow> insert_membership m db = Inr db' \<Longrightarrow> schema_ok db'"
  by (auto simp: insert_membership_def memberships_ok_def schema_ok_def split: if_splits)

text \<open>An update that rewrites one user row but neither its key nor its status.\<close>

lemma users_ok_map:
  assumes "users_ok us" and "\<And>u. usr_id (f u) = usr_id u" and "\<And>u. usr_status (f u) = usr_status u"
    and "distinct (map email_normalized (map f us))" and "distinct (bound_subjects (map f us))"
  shows "users_ok (map f us)"
  using assms by (auto simp: users_ok_def list_all_iff comp_def)

lemma schema_ok_map_users:
  assumes "schema_ok db" and "\<And>u. usr_id (f u) = usr_id u" and "users_ok (map f (users db))"
  shows "schema_ok (db\<lparr>users := map f (users db)\<rparr>)"
proof -
  have "map usr_id (map f (users db)) = map usr_id (users db)"
    by (simp add: comp_def assms(2))
  from tenants_ok_same_ids [OF this] memberships_ok_same_ids [OF this] assms show ?thesis
    by (simp add: schema_ok_def)
qed

lemma bound_subjects_map:
  "(\<And>u. usr_external_id (f u) = usr_external_id u) \<Longrightarrow> bound_subjects (map f us) = bound_subjects us"
  by (simp add: bound_subjects_def filter_map comp_def)

lemma update_user_email_ok [row_intros]:
  assumes "schema_ok db" and "update_user_email i e now db = Inr db'"
  shows "schema_ok db'"
proof -
  let ?f = "\<lambda>u. if usr_id u = i then u\<lparr>usr_email := e, usr_updated_at := now\<rparr> else u"
  have db': "db' = db\<lparr>users := map ?f (users db)\<rparr>"
    and d: "distinct (map email_normalized (map ?f (users db)))"
    using assms(2) by (auto simp: update_user_email_def Let_def split: if_splits)
  have "bound_subjects (map ?f (users db)) = bound_subjects (users db)"
    by (rule bound_subjects_map) simp
  with assms(1) d have "users_ok (map ?f (users db))"
    by (intro users_ok_map) (auto simp: schema_ok_def users_ok_def)
  with assms(1) show ?thesis unfolding db' by (intro schema_ok_map_users) auto
qed

lemma update_user_external_id_ok [row_intros]:
  assumes "schema_ok db" and "update_user_external_id i s now db = Inr db'"
  shows "schema_ok db'"
proof -
  let ?f = "\<lambda>u. if usr_id u = i then u\<lparr>usr_external_id := s, usr_updated_at := now\<rparr> else u"
  have db': "db' = db\<lparr>users := map ?f (users db)\<rparr>"
    and d: "distinct (bound_subjects (map ?f (users db)))"
    using assms(2) by (auto simp: update_user_external_id_def Let_def split: if_splits)
  have same: "map email_normalized (map ?f (users db)) = map email_normalized (users db)"
    by simp
  have "distinct (map email_normalized (map ?f (users db)))"
    unfolding same using assms(1) by (simp add: schema_ok_def users_ok_def)
  with assms(1) d have "users_ok (map ?f (users db))"
    by (intro users_ok_map) (auto simp: schema_ok_def)
  with assms(1) show ?thesis unfolding db' by (intro schema_ok_map_users) auto
qed

section \<open>What the constraints say about lookups\<close>

lemma schema_users: "schema_ok db \<Longrightarrow> users_ok (users db)"
  and schema_tenants: "schema_ok db \<Longrightarrow> tenants_ok (users db) (tenants db)"
  and schema_memberships:
    "schema_ok db \<Longrightarrow> memberships_ok (users db) (tenants db) (memberships db)"
  by (simp_all add: schema_ok_def)

lemma user_key:
  "schema_ok db \<Longrightarrow> u \<in> set (users db) \<Longrightarrow> v \<in> set (users db) \<Longrightarrow> usr_id u = usr_id v \<Longrightarrow> u = v"
  by (auto simp: schema_ok_def users_ok_def intro: distinct_map_eq [of usr_id "users db"])

lemma user_email_key:
  "schema_ok db \<Longrightarrow> u \<in> set (users db) \<Longrightarrow> v \<in> set (users db)
    \<Longrightarrow> email_normalized u = email_normalized v \<Longrightarrow> u = v"
  by (auto simp: schema_ok_def users_ok_def intro: distinct_map_eq [of email_normalized "users db"])

lemma user_subject_key:
  assumes "schema_ok db" and "u \<in> set (users db)" and "v \<in> set (users db)"
    and "usr_external_id u = Some s" and "usr_external_id v = Some s"
  shows "u = v"
proof -
  have "distinct (map (\<lambda>u. the (usr_external_id u)) (filter (\<lambda>u. usr_external_id u \<noteq> None) (users db)))"
    using assms(1) by (simp add: schema_ok_def users_ok_def bound_subjects_def)
  then show ?thesis by (rule distinct_map_eq) (use assms in auto)
qed

lemma tenant_key:
  "schema_ok db \<Longrightarrow> t \<in> set (tenants db) \<Longrightarrow> s \<in> set (tenants db) \<Longrightarrow> tnt_id t = tnt_id s \<Longrightarrow> t = s"
  by (auto simp: schema_ok_def tenants_ok_def intro: distinct_map_eq [of tnt_id "tenants db"])

lemma personal_tenant_key:
  assumes "schema_ok db" and "t \<in> set (tenants db)" and "s \<in> set (tenants db)"
    and "is_personal t" and "is_personal s" and "tnt_owner_user_id t = tnt_owner_user_id s"
  shows "t = s"
proof -
  have "distinct (map tnt_owner_user_id (filter is_personal (tenants db)))"
    using assms(1) by (simp add: schema_ok_def tenants_ok_def)
  then show ?thesis by (rule distinct_map_eq) (use assms in auto)
qed

lemma membership_key:
  "schema_ok db \<Longrightarrow> m \<in> set (memberships db) \<Longrightarrow> n \<in> set (memberships db)
    \<Longrightarrow> mbr_id m = mbr_id n \<Longrightarrow> m = n"
  by (auto simp: schema_ok_def memberships_ok_def intro: distinct_map_eq [of mbr_id "memberships db"])

lemma membership_pair_key:
  assumes "schema_ok db" and "m \<in> set (memberships db)" and "n \<in> set (memberships db)"
    and "mbr_user_id m = mbr_user_id n" and "mbr_tenant_id m = mbr_tenant_id n"
  shows "m = n"
proof -
  have "distinct (map (\<lambda>m. (mbr_user_id m, mbr_tenant_id m)) (memberships db))"
    using assms(1) by (simp add: schema_ok_def memberships_ok_def)
  then show ?thesis by (rule distinct_map_eq) (use assms in auto)
qed

lemma membership_user:
  assumes "schema_ok db" and "m \<in> set (memberships db)"
  obtains u where "u \<in> set (users db)" and "usr_id u = mbr_user_id m"
  using assms by (auto simp: schema_ok_def memberships_ok_def list_all_iff)

lemma membership_tenant:
  assumes "schema_ok db" and "m \<in> set (memberships db)"
  obtains t where "t \<in> set (tenants db)" and "tnt_id t = mbr_tenant_id m"
  using assms by (auto simp: schema_ok_def memberships_ok_def list_all_iff)

lemma tenant_owner:
  assumes "schema_ok db" and "t \<in> set (tenants db)"
  obtains u where "u \<in> set (users db)" and "usr_id u = tnt_owner_user_id t"
  using assms by (auto simp: schema_ok_def tenants_ok_def list_all_iff)

lemmas schema_keys = user_key user_email_key user_subject_key tenant_key personal_tenant_key
  membership_key membership_pair_key

end
