(* ===== verification/Bootstrap.thy ===== *)
theory Bootstrap
  imports Schema "HOL-Library.Product_Lexorder"
begin

text \<open>
  The read-only half of the bootstrap surface: the SQL functions of migrations 0002 and 0003
  that run before a tenant context exists.  A nullable argument is an option, and a comparison
  with NULL is not true.
\<close>

section \<open>Eligibility and identity lookup\<close>

definition app_normalize_email :: "string option \<Rightarrow> string option" where
  "app_normalize_email p_email = map_option (\<lambda>e. lower (btrim e)) p_email"

definition app_signup_allowed :: "string option \<Rightarrow> database \<Rightarrow> bool" where
  "app_signup_allowed p_email db =
     list_ex (\<lambda>a. Some (alw_email_normalized a) = app_normalize_email p_email)
       (signup_allowlist db)"

text \<open>\<^verbatim>\<open>WHERE\<close> of \<^verbatim>\<open>app.find_user\<close>: by subject when one is given, else by email.\<close>

definition find_user_where :: "string option \<Rightarrow> string option \<Rightarrow> User \<Rightarrow> bool" where
  "find_user_where p_email p_external_id u =
     ((p_external_id \<noteq> None \<and> usr_external_id u = p_external_id)
      \<or> (p_external_id = None \<and> p_email \<noteq> None
         \<and> Some (email_normalized u) = app_normalize_email p_email))"

definition app_find_user ::
    "string option \<Rightarrow> string option \<Rightarrow> database \<Rightarrow> (uuid \<times> string \<times> string option \<times> string) option" where
  "app_find_user p_email p_external_id db =
     map_option (\<lambda>u. (usr_id u, usr_email u, usr_external_id u, usr_status u))
       (find (find_user_where p_email p_external_id) (users db))"

section \<open>Membership resolution\<close>

text \<open>\<^verbatim>\<open>memberships m JOIN users u ON u.id = m.user_id JOIN tenants t ON t.id = m.tenant_id\<close>\<close>

definition joined :: "database \<Rightarrow> (Membership \<times> User \<times> Tenant) list" where
  "joined db = concat (map (\<lambda>m.
     concat (map (\<lambda>u. map (\<lambda>t. (m, u, t)) (filter (\<lambda>t. tnt_id t = mbr_tenant_id m) (tenants db)))
       (filter (\<lambda>u. usr_id u = mbr_user_id m) (users db)))) (memberships db))"

definition all_active :: "Membership \<times> User \<times> Tenant \<Rightarrow> bool" where
  "all_active = (\<lambda>(m, u, t). mbr_status m = ''active'' \<and> usr_status u = ''active''
     \<and> tnt_status t = ''active'')"

definition app_resolve_membership ::
    "uuid \<Rightarrow> uuid \<Rightarrow> database \<Rightarrow> (uuid \<times> uuid \<times> uuid \<times> string) list" where
  "app_resolve_membership p_user_id p_tenant_id db =
     map (\<lambda>(m, u, t). (mbr_id m, mbr_user_id m, mbr_tenant_id m, mbr_role m))
       (filter (\<lambda>(m, u, t). mbr_user_id m = p_user_id \<and> mbr_tenant_id m = p_tenant_id
          \<and> all_active (m, u, t)) (joined db))"

text \<open>
  \<^verbatim>\<open>ORDER BY (t.kind = 'personal') DESC, t.name\<close>: personal tenants first, then by the
  database's collation, which is configuration outside the repository and so a parameter: the
  sort key of a text.
\<close>

definition app_list_memberships ::
    "(string \<Rightarrow> 'k::linorder) \<Rightarrow> uuid \<Rightarrow> database
      \<Rightarrow> (uuid \<times> uuid \<times> string \<times> string \<times> string) list" where
  "app_list_memberships collate p_user_id db =
     map (\<lambda>(m, u, t). (mbr_id m, tnt_id t, tnt_name t, tnt_kind t, mbr_role m))
       (sort_key (\<lambda>(m, u, t). (\<not> is_personal t, collate (tnt_name t)))
         (filter (\<lambda>(m, u, t). mbr_user_id m = p_user_id \<and> all_active (m, u, t)) (joined db)))"

section \<open>The join\<close>

lemma set_joined:
  "(m, u, t) \<in> set (joined db) \<longleftrightarrow> m \<in> set (memberships db) \<and> u \<in> set (users db)
     \<and> t \<in> set (tenants db) \<and> usr_id u = mbr_user_id m \<and> tnt_id t = mbr_tenant_id m"
  by (auto simp: joined_def)

text \<open>Foreign keys and primary keys make the join total and functional: every membership
  row joins exactly once.\<close>

definition joined_row :: "database \<Rightarrow> Membership \<Rightarrow> Membership \<times> User \<times> Tenant" where
  "joined_row db m = (m, hd (filter (\<lambda>u. usr_id u = mbr_user_id m) (users db)),
     hd (filter (\<lambda>t. tnt_id t = mbr_tenant_id m) (tenants db)))"

lemma joined_map:
  assumes "schema_ok db"
  shows "joined db = map (joined_row db) (memberships db)"
  unfolding joined_def
proof (rule concat_map_singletons)
  fix m assume m: "m \<in> set (memberships db)"
  obtain u where u: "u \<in> set (users db)" "usr_id u = mbr_user_id m"
    using membership_user [OF assms m] .
  obtain t where t: "t \<in> set (tenants db)" "tnt_id t = mbr_tenant_id m"
    using membership_tenant [OF assms m] .
  have "filter (\<lambda>v. usr_id v = mbr_user_id m) (users db) = [u]"
    using filter_unique_key [of usr_id "users db" u] u assms
    by (simp add: schema_ok_def users_ok_def)
  moreover have "filter (\<lambda>s. tnt_id s = mbr_tenant_id m) (tenants db) = [t]"
    using filter_unique_key [of tnt_id "tenants db" t] t assms
    by (simp add: schema_ok_def tenants_ok_def)
  ultimately show "concat (map (\<lambda>u. map (\<lambda>t. (m, u, t))
      (filter (\<lambda>t. tnt_id t = mbr_tenant_id m) (tenants db)))
      (filter (\<lambda>u. usr_id u = mbr_user_id m) (users db))) = [joined_row db m]"
    by (simp add: joined_row_def)
qed

lemma distinct_joined: "schema_ok db \<Longrightarrow> distinct (joined db)"
  by (auto simp: joined_map distinct_map inj_on_def joined_row_def schema_ok_def memberships_ok_def)

lemma distinct_joined_tenants:
  assumes "schema_ok db"
  shows "distinct (map (\<lambda>(m, u, t). tnt_id t)
           (filter (\<lambda>(m, u, t). mbr_user_id m = i \<and> P (m, u, t)) (joined db)))"
proof -
  have "distinct (joined db)" by (rule distinct_joined [OF assms])
  moreover have "inj_on (\<lambda>(m, u, t). tnt_id t)
      (set (filter (\<lambda>(m, u, t). mbr_user_id m = i \<and> P (m, u, t)) (joined db)))"
  proof (rule inj_onI)
    fix x y
    assume x: "x \<in> set (filter (\<lambda>(m, u, t). mbr_user_id m = i \<and> P (m, u, t)) (joined db))"
      and y: "y \<in> set (filter (\<lambda>(m, u, t). mbr_user_id m = i \<and> P (m, u, t)) (joined db))"
      and eq: "(\<lambda>(m, u, t). tnt_id t) x = (\<lambda>(m, u, t). tnt_id t) y"
    obtain m u t where x': "x = (m, u, t)" by (cases x)
    obtain n v s where y': "y = (n, v, s)" by (cases y)
    have "m = n"
      using x y eq assms unfolding x' y' by (auto simp: set_joined intro: membership_pair_key)
    with x y eq assms show "x = y"
      unfolding x' y' by (auto simp: set_joined intro: user_key tenant_key)
  qed
  ultimately show ?thesis by (simp add: distinct_map)
qed

lemmas bootstrap_defs [sql_defs] = app_normalize_email_def app_signup_allowed_def
  find_user_where_def app_find_user_def app_resolve_membership_def app_list_memberships_def

section \<open>What the lookups return\<close>

lemma signup_allowed_iff:
  "app_signup_allowed (Some e) db
     \<longleftrightarrow> (\<exists>a \<in> set (signup_allowlist db). alw_email_normalized a = EMAIL_NORMALIZATION_SQL e)"
  by (auto simp: app_signup_allowed_def app_normalize_email_def list_ex_iff EMAIL_NORMALIZATION_SQL_def)

lemma find_user_by_subject:
  "app_find_user e (Some s) db = Some (i, em, x, st)
     \<Longrightarrow> \<exists>u \<in> set (users db). usr_external_id u = Some s \<and> i = usr_id u \<and> em = usr_email u
          \<and> x = Some s \<and> st = usr_status u"
  by (auto simp: app_find_user_def find_user_where_def dest!: find_Some_D)

lemma find_user_of_bound:
  assumes "schema_ok db" and "u \<in> set (users db)" and "usr_external_id u = Some s"
  shows "app_find_user e (Some s) db = Some (usr_id u, usr_email u, Some s, usr_status u)"
proof -
  have "find (find_user_where e (Some s)) (users db) = Some u"
    by (rule find_unique)
       (use assms in \<open>auto simp: find_user_where_def intro: user_subject_key\<close>)
  with assms(3) show ?thesis by (simp add: app_find_user_def)
qed

lemma find_user_of_email:
  assumes "schema_ok db" and "u \<in> set (users db)" and "email_normalized u = EMAIL_NORMALIZATION_SQL e"
  shows "app_find_user (Some e) None db
    = Some (usr_id u, usr_email u, usr_external_id u, usr_status u)"
proof -
  have "find (find_user_where (Some e) None) (users db) = Some u"
    by (rule find_unique)
       (use assms in \<open>auto simp: find_user_where_def app_normalize_email_def
          EMAIL_NORMALIZATION_SQL_def intro: user_email_key\<close>)
  then show ?thesis by (simp add: app_find_user_def)
qed

lemma set_list_memberships:
  "(mi, ti, tn, tk, ro) \<in> set (app_list_memberships collate i db) \<longleftrightarrow>
     (\<exists>m u t. (m, u, t) \<in> set (joined db) \<and> mbr_user_id m = i \<and> all_active (m, u, t)
        \<and> mi = mbr_id m \<and> ti = tnt_id t \<and> tn = tnt_name t \<and> tk = tnt_kind t \<and> ro = mbr_role m)"
proof -
  let ?row = "\<lambda>(m, u, t). (mbr_id m, tnt_id t, tnt_name t, tnt_kind t, mbr_role m)"
  have "(mi, ti, tn, tk, ro) \<in> set (app_list_memberships collate i db) \<longleftrightarrow>
      (\<exists>x \<in> set (joined db). (\<lambda>(m, u, t). mbr_user_id m = i \<and> all_active (m, u, t)) x
         \<and> (mi, ti, tn, tk, ro) = ?row x)"
    by (simp only: app_list_memberships_def set_map set_sort set_filter image_iff Bex_def
        mem_Collect_eq) blast
  then show ?thesis by (simp add: Bex_def split_paired_Ex)
qed

lemma list_memberships_distinct:
  assumes "schema_ok db"
  shows "distinct (map (\<lambda>(mi, ti, tn, tk, ro). ti) (app_list_memberships collate i db))"
proof -
  let ?rows = "filter (\<lambda>(m, u, t). mbr_user_id m = i \<and> all_active (m, u, t)) (joined db)"
  let ?key = "\<lambda>(m, u, t). (\<not> is_personal t, collate (tnt_name t))"
  have "distinct (map (\<lambda>(m, u, t). tnt_id t) (sort_key ?key ?rows))"
    using distinct_joined_tenants [OF assms, of i all_active] by (simp add: distinct_map)
  then show ?thesis
    by (simp add: app_list_memberships_def case_prod_unfold comp_def)
qed

text \<open>At most one row resolves, because memberships are unique per user and tenant.\<close>

lemma resolve_membership_cases:
  assumes "schema_ok db"
  obtains (none) "app_resolve_membership i k db = []"
      "\<forall>m u t. (m, u, t) \<in> set (joined db) \<and> all_active (m, u, t)
        \<longrightarrow> \<not> (mbr_user_id m = i \<and> mbr_tenant_id m = k)"
    | (one) m u t where "app_resolve_membership i k db = [(mbr_id m, i, k, mbr_role m)]"
      "(m, u, t) \<in> set (joined db)" "all_active (m, u, t)" "mbr_user_id m = i" "mbr_tenant_id m = k"
proof -
  let ?P = "\<lambda>(m, u, t). mbr_user_id m = i \<and> mbr_tenant_id m = k \<and> all_active (m, u, t)"
  show thesis
  proof (cases "\<exists>x\<in>set (joined db). ?P x")
    case False
    then have "filter ?P (joined db) = []" by (simp add: filter_empty_conv)
    with False show thesis by (intro none) (auto simp: app_resolve_membership_def)
  next
    case True
    then obtain m u t where x: "(m, u, t) \<in> set (joined db)" "mbr_user_id m = i"
      "mbr_tenant_id m = k" "all_active (m, u, t)" by auto
    have "filter ?P (joined db) = [(m, u, t)]"
    proof (rule filter_eq_single)
      show "distinct (joined db)" by (rule distinct_joined [OF assms])
      fix y assume y: "y \<in> set (joined db)" "?P y"
      obtain n v w where y': "y = (n, v, w)" by (cases y)
      have "n = m"
        using x y by (intro membership_pair_key [OF assms]) (auto simp: y' set_joined)
      with x y assms show "y = (m, u, t)"
        by (auto simp: y' set_joined intro: user_key tenant_key)
    qed (use x in auto)
    with x show thesis by (intro one) (simp_all add: app_resolve_membership_def)
  qed
qed

lemma sorted_list_memberships:
  fixes collate :: "string \<Rightarrow> 'k::linorder"
  shows "sorted (map (\<lambda>(mi, ti, tn, tk, ro). (tk \<noteq> KIND_PERSONAL, collate tn))
           (app_list_memberships collate i db))"
proof -
  let ?key = "\<lambda>(m :: Membership, u :: User, t). (\<not> is_personal t, collate (tnt_name t))"
  let ?rows = "filter (\<lambda>(m, u, t). mbr_user_id m = i \<and> all_active (m, u, t)) (joined db)"
  have "map (\<lambda>(mi, ti, tn, tk, ro). (tk \<noteq> KIND_PERSONAL, collate tn)) (app_list_memberships collate i db)
      = map ?key (sort_key ?key ?rows)"
    by (simp add: app_list_memberships_def is_personal_def case_prod_unfold comp_def)
  then show ?thesis by (simp only: sorted_sort_key)
qed

end
