(* ===== verification/Provision.thy ===== *)
theory Provision
  imports Bootstrap
begin

text \<open>
  \<^verbatim>\<open>app.provision_personal_identity\<close>, the one writing function of the bootstrap surface, in
  the three versions migrations 0002, 0003 and 0004 install.  A raised exception is \<open>Inl\<close>
  of the error; the caller's transaction then rolls back, so no database comes with it.

  Under READ COMMITTED every statement sees what other transactions committed before it
  started.  The places where that can change what the function does are explicit: an
  \<open>interference\<close> gives the database seen by the lookup by subject (the allowlist was read
  before), by the lookup by email, by the insertion of a user, and, once a user found by subject
  is locked, by the statements that write.  A call that runs alone has the interference \<open>quiet\<close>.
  The three \<^verbatim>\<open>gen_random_uuid()\<close> values a call may draw are an argument as well.
\<close>

section \<open>Parts the versions share\<close>

record provisioned =
  out_user_id :: uuid
  out_tenant_id :: uuid
  out_membership_id :: uuid
  out_created :: bool

record fresh_ids =
  gen_user :: uuid
  gen_tenant :: uuid
  gen_membership :: uuid

record interference =
  at_subject_lookup :: "database \<Rightarrow> database"
  at_email_lookup :: "database \<Rightarrow> database"
  at_user_insert :: "database \<Rightarrow> database"
  at_locked_user :: "database \<Rightarrow> database"

definition quiet :: interference where
  "quiet = \<lparr>at_subject_lookup = (\<lambda>db. db), at_email_lookup = (\<lambda>db. db),
     at_user_insert = (\<lambda>db. db), at_locked_user = (\<lambda>db. db)\<rparr>"

lemma quiet_simps [simp]:
  "at_subject_lookup quiet db = db" "at_email_lookup quiet db = db" "at_user_insert quiet db = db"
  "at_locked_user quiet db = db"
  by (simp_all add: quiet_def)

text \<open>The exceptions the function raises, with the SQLSTATEs of the migrations.\<close>

definition INVALID_ARGUMENT :: string where "INVALID_ARGUMENT = ''22023''"
definition INSUFFICIENT_PRIVILEGE :: string where "INSUFFICIENT_PRIVILEGE = ''42501''"
definition SUBJECT_CONFLICT :: string where "SUBJECT_CONFLICT = ''VS001''"
definition EMAIL_CONFLICT :: string where "EMAIL_CONFLICT = ''VS002''"
definition BINDING_REQUIRED :: string where "BINDING_REQUIRED = ''VS003''"

definition email_required :: db_error where
  "email_required = DBError (Some INVALID_ARGUMENT) ''vespers: email required''"
definition subject_required :: db_error where
  "subject_required = DBError (Some INVALID_ARGUMENT) ''vespers: verified subject required''"
definition signup_not_allowed :: db_error where
  "signup_not_allowed = DBError (Some INSUFFICIENT_PRIVILEGE) ''vespers: signup not allowed''"
definition identity_disabled :: db_error where
  "identity_disabled = DBError (Some INSUFFICIENT_PRIVILEGE) ''vespers: identity disabled''"
definition email_already_bound :: db_error where
  "email_already_bound =
     DBError (Some EMAIL_CONFLICT) ''vespers: email already bound to another identity''"
definition subject_binding_required :: db_error where
  "subject_binding_required = DBError (Some BINDING_REQUIRED) ''vespers: subject binding required''"
definition external_subject_conflict :: db_error where
  "external_subject_conflict =
     DBError (Some SUBJECT_CONFLICT) ''vespers: external subject conflict''"

definition not_null_violation :: "string \<Rightarrow> db_error" where
  "not_null_violation c = DBError (Some ''23502'') (''null value in column '' @ c)"

lemmas raise_defs = email_required_def subject_required_def signup_not_allowed_def
  identity_disabled_def email_already_bound_def subject_binding_required_def
  external_subject_conflict_def INVALID_ARGUMENT_def INSUFFICIENT_PRIVILEGE_def
  SUBJECT_CONFLICT_def EMAIL_CONFLICT_def BINDING_REQUIRED_def unique_violation_def
  foreign_key_violation_def check_violation_def not_null_violation_def

text \<open>\<^verbatim>\<open>x <> s\<close> as a condition: NULL makes it not true.\<close>

definition sql_differs :: "string option \<Rightarrow> string \<Rightarrow> bool" where
  "sql_differs x s = (case x of None \<Rightarrow> False | Some v \<Rightarrow> v \<noteq> s)"

text \<open>\<^verbatim>\<open>coalesce(nullif(btrim(p_tenant_name), ''), 'Personal')\<close>\<close>

definition tenant_name :: "string option \<Rightarrow> string" where
  "tenant_name p = (case nullif_blank p of None \<Rightarrow> ''Personal'' | Some n \<Rightarrow> n)"

text \<open>
  \<^verbatim>\<open>INSERT INTO tenants ... ON CONFLICT (owner_user_id) WHERE kind = 'personal' DO UPDATE SET
  updated_at = t.updated_at RETURNING t.id, xmax = 0\<close>: an existing row is written back as it
  is and reported as not created.
\<close>

definition upsert_personal_tenant ::
    "uuid \<Rightarrow> timestamp \<Rightarrow> string \<Rightarrow> uuid \<Rightarrow> database \<Rightarrow> db_error + uuid \<times> bool \<times> database" where
  "upsert_personal_tenant gen now name owner db =
     (case find (\<lambda>t. is_personal t \<and> tnt_owner_user_id t = owner) (tenants db) of
        Some t \<Rightarrow> Inr (tnt_id t, False, db)
      | None \<Rightarrow> and_then (insert_tenant (new_tenant gen now name KIND_PERSONAL owner) db)
          (\<lambda>db'. Inr (gen, True, db')))"

definition upsert_membership ::
    "uuid \<Rightarrow> timestamp \<Rightarrow> uuid \<Rightarrow> uuid \<Rightarrow> database \<Rightarrow> db_error + uuid \<times> database" where
  "upsert_membership gen now user tenant db =
     (case find (\<lambda>m. mbr_user_id m = user \<and> mbr_tenant_id m = tenant) (memberships db) of
        Some m \<Rightarrow> Inr (mbr_id m, db)
      | None \<Rightarrow> and_then (insert_membership (new_membership gen now user tenant ROLE_OWNER) db)
          (\<lambda>db'. Inr (gen, db')))"

definition tenant_status :: "uuid \<Rightarrow> database \<Rightarrow> string option" where
  "tenant_status i db = map_option tnt_status (find (\<lambda>t. tnt_id t = i) (tenants db))"

definition membership_status :: "uuid \<Rightarrow> database \<Rightarrow> string option" where
  "membership_status i db = map_option mbr_status (find (\<lambda>m. mbr_id m = i) (memberships db))"

section \<open>Migration 0004: the subject is required\<close>

text \<open>Step (2) after the lookup by email found nobody: the insertion, and the re-read when a
  concurrent caller inserted the address first.\<close>

definition insert_or_reread_0004 ::
    "uuid \<Rightarrow> timestamp \<Rightarrow> string \<Rightarrow> string \<Rightarrow> string \<Rightarrow> database
      \<Rightarrow> db_error + uuid \<times> string \<times> database" where
  "insert_or_reread_0004 gen now p_email v_email v_subject db =
     (case find (\<lambda>u. email_normalized u = v_email) (users db) of
        None \<Rightarrow> and_then (insert_user (new_user gen now (btrim p_email) (Some v_subject)) db)
          (\<lambda>db'. Inr (gen, ACTIVE, db'))
      | Some u \<Rightarrow> (case usr_external_id u of
            None \<Rightarrow> Inl subject_binding_required
          | Some v_found \<Rightarrow> if v_found \<noteq> v_subject then Inl external_subject_conflict
              else Inr (usr_id u, usr_status u, db)))"

definition resolve_user_0004 ::
    "interference \<Rightarrow> uuid \<Rightarrow> timestamp \<Rightarrow> string \<Rightarrow> string \<Rightarrow> string \<Rightarrow> database
      \<Rightarrow> db_error + uuid \<times> string \<times> database" where
  "resolve_user_0004 conc gen now p_email v_email v_subject db =
     (case find (\<lambda>u. usr_external_id u = Some v_subject) (users db) of
        Some u \<Rightarrow>
          if email_normalized u \<noteq> v_email then
            if list_ex (\<lambda>w. email_normalized w = v_email \<and> usr_id w \<noteq> usr_id u) (users db)
            then Inl email_already_bound
            else and_then (update_user_email (usr_id u) (btrim p_email) now (at_locked_user conc db))
                   (\<lambda>db'. Inr (usr_id u, usr_status u, db'))
          else Inr (usr_id u, usr_status u, at_locked_user conc db)
      | None \<Rightarrow> let db1 = at_email_lookup conc db in
          (case find (\<lambda>u. email_normalized u = v_email) (users db1) of
             Some u \<Rightarrow> Inl (if usr_external_id u = None then subject_binding_required
                            else external_subject_conflict)
           | None \<Rightarrow> insert_or_reread_0004 gen now p_email v_email v_subject
                       (at_user_insert conc db1)))"

definition finish_0004 ::
    "fresh_ids \<Rightarrow> timestamp \<Rightarrow> string option \<Rightarrow> uuid \<times> string \<times> database
      \<Rightarrow> db_error + provisioned \<times> database" where
  "finish_0004 g now p_tenant_name = (\<lambda>(user, status, db).
     and_then (guard (status = ''active'') identity_disabled) (\<lambda>_.
     and_then (upsert_personal_tenant (gen_tenant g) now (tenant_name p_tenant_name) user db)
       (\<lambda>(tenant, created, db1).
     and_then (guard (\<not> sql_differs (tenant_status tenant db1) ''active'') identity_disabled) (\<lambda>_.
     and_then (upsert_membership (gen_membership g) now user tenant db1) (\<lambda>(member, db2).
     and_then (guard (\<not> sql_differs (membership_status member db2) ''active'') identity_disabled)
       (\<lambda>_. Inr (\<lparr>out_user_id = user, out_tenant_id = tenant, out_membership_id = member,
                   out_created = created\<rparr>, db2)))))))"

definition provision_0004 ::
    "interference \<Rightarrow> fresh_ids \<Rightarrow> timestamp \<Rightarrow> string option \<Rightarrow> string option \<Rightarrow> string option
      \<Rightarrow> database \<Rightarrow> db_error + provisioned \<times> database" where
  "provision_0004 conc g now p_email p_external_id p_tenant_name db =
     (case p_email of
        None \<Rightarrow> Inl email_required
      | Some email \<Rightarrow> let v_email = lower (btrim email) in
          if v_email = [] then Inl email_required
          else (case nullif_blank p_external_id of
              None \<Rightarrow> Inl subject_required
            | Some v_subject \<Rightarrow>
                if \<not> app_signup_allowed (Some v_email) db then Inl signup_not_allowed
                else and_then (resolve_user_0004 conc (gen_user g) now email v_email v_subject
                         (at_subject_lookup conc db))
                       (finish_0004 g now p_tenant_name)))"

section \<open>Migration 0003: subject first, subject optional\<close>

definition adopt_0003 ::
    "timestamp \<Rightarrow> string option \<Rightarrow> User \<Rightarrow> database \<Rightarrow> db_error + uuid \<times> string \<times> database" where
  "adopt_0003 now v_subject u db =
     (if v_subject \<noteq> None \<and> usr_external_id u \<noteq> None \<and> usr_external_id u \<noteq> v_subject
      then Inl external_subject_conflict
      else if usr_external_id u = None \<and> v_subject \<noteq> None
      then and_then (update_user_external_id (usr_id u) v_subject now db)
             (\<lambda>db'. Inr (usr_id u, usr_status u, db'))
      else Inr (usr_id u, usr_status u, db))"

definition resolve_user_0003 ::
    "interference \<Rightarrow> uuid \<Rightarrow> timestamp \<Rightarrow> string \<Rightarrow> string \<Rightarrow> string option \<Rightarrow> database
      \<Rightarrow> db_error + uuid \<times> string \<times> database" where
  "resolve_user_0003 conc gen now p_email v_email v_subject db =
     (case (if v_subject = None then None
            else find (\<lambda>u. usr_external_id u = v_subject) (users db)) of
        Some u \<Rightarrow>
          if email_normalized u \<noteq> v_email then
            if list_ex (\<lambda>w. email_normalized w = v_email \<and> usr_id w \<noteq> usr_id u) (users db)
            then Inl email_already_bound
            else and_then (update_user_email (usr_id u) (btrim p_email) now (at_locked_user conc db))
                   (\<lambda>db'. Inr (usr_id u, usr_status u, db'))
          else Inr (usr_id u, usr_status u, at_locked_user conc db)
      | None \<Rightarrow> let db1 = at_email_lookup conc db in
          (case find (\<lambda>u. email_normalized u = v_email) (users db1) of
             Some u \<Rightarrow> adopt_0003 now v_subject u db1
           | None \<Rightarrow> let db2 = at_user_insert conc db1 in
               (case find (\<lambda>u. email_normalized u = v_email) (users db2) of
                  None \<Rightarrow> and_then (insert_user (new_user gen now (btrim p_email) v_subject) db2)
                    (\<lambda>db'. Inr (gen, ACTIVE, db'))
                | Some u \<Rightarrow> adopt_0003 now v_subject u db2)))"

text \<open>The end of versions 0002 and 0003: tenant and membership statuses are not looked at.\<close>

definition finish_0003 ::
    "fresh_ids \<Rightarrow> timestamp \<Rightarrow> string option \<Rightarrow> uuid \<times> string \<times> database
      \<Rightarrow> db_error + provisioned \<times> database" where
  "finish_0003 g now p_tenant_name = (\<lambda>(user, status, db).
     and_then (guard (status = ''active'') identity_disabled) (\<lambda>_.
     and_then (upsert_personal_tenant (gen_tenant g) now (tenant_name p_tenant_name) user db)
       (\<lambda>(tenant, created, db1).
     and_then (upsert_membership (gen_membership g) now user tenant db1) (\<lambda>(member, db2).
       Inr (\<lparr>out_user_id = user, out_tenant_id = tenant, out_membership_id = member,
              out_created = created\<rparr>, db2)))))"

definition provision_0003 ::
    "interference \<Rightarrow> fresh_ids \<Rightarrow> timestamp \<Rightarrow> string option \<Rightarrow> string option \<Rightarrow> string option
      \<Rightarrow> database \<Rightarrow> db_error + provisioned \<times> database" where
  "provision_0003 conc g now p_email p_external_id p_tenant_name db =
     (case p_email of
        None \<Rightarrow> Inl email_required
      | Some email \<Rightarrow> let v_email = lower (btrim email) in
          if v_email = [] then Inl email_required
          else if \<not> app_signup_allowed (Some v_email) db then Inl signup_not_allowed
          else and_then (resolve_user_0003 conc (gen_user g) now email v_email
                           (nullif_blank p_external_id) (at_subject_lookup conc db))
                 (finish_0003 g now p_tenant_name))"

section \<open>Migration 0002: email first\<close>

text \<open>\<^verbatim>\<open>ON CONFLICT (email_normalized) DO UPDATE SET external_id = coalesce(u.external_id,
  EXCLUDED.external_id)\<close>: the row of the address, whoever owns it.\<close>

definition upsert_user_0002 ::
    "uuid \<Rightarrow> timestamp \<Rightarrow> string \<Rightarrow> string option \<Rightarrow> database
      \<Rightarrow> db_error + uuid \<times> string \<times> database" where
  "upsert_user_0002 gen now p_email v_subject db =
     (case find (\<lambda>u. email_normalized u = EMAIL_NORMALIZATION_SQL (btrim p_email)) (users db) of
        None \<Rightarrow> and_then (insert_user (new_user gen now (btrim p_email) v_subject) db)
          (\<lambda>db'. Inr (gen, ACTIVE, db'))
      | Some u \<Rightarrow> and_then (update_user_external_id (usr_id u)
            (case usr_external_id u of Some x \<Rightarrow> Some x | None \<Rightarrow> v_subject) (usr_updated_at u) db)
          (\<lambda>db'. Inr (usr_id u, usr_status u, db')))"

definition provision_0002 ::
    "fresh_ids \<Rightarrow> timestamp \<Rightarrow> string option \<Rightarrow> string option \<Rightarrow> string option
      \<Rightarrow> database \<Rightarrow> db_error + provisioned \<times> database" where
  "provision_0002 g now p_email p_external_id p_tenant_name db =
     (case p_email of
        None \<Rightarrow> Inl email_required
      | Some email \<Rightarrow> let v_email = lower (btrim email) in
          if v_email = [] then Inl email_required
          else if \<not> app_signup_allowed (Some v_email) db then Inl signup_not_allowed
          else and_then (upsert_user_0002 (gen_user g) now email (nullif_blank p_external_id) db)
                 (finish_0003 g now p_tenant_name))"

end
