(* ===== verification/ProvisionFacts.thy ===== *)
theory ProvisionFacts
  imports Provision
begin

text \<open>
  What \<^verbatim>\<open>app.provision_personal_identity\<close> promises: the facts about its statements, the
  contract every version keeps (\<open>provisioning\<close>), what migration 0003 adds to it
  (\<open>subject_bound\<close>) and what 0004 adds (\<open>subject_only\<close>), each interpreted on the model's own
  version of the function.
\<close>

section \<open>Lookups after an update\<close>

lemma find_map: "find P (map f xs) = map_option f (find (\<lambda>x. P (f x)) xs)"
  by (induction xs) auto

text \<open>The abstract state the function maintains: which subject is bound to which user.\<close>

definition bindings :: "database \<Rightarrow> string \<Rightarrow> uuid option" where
  "bindings db s = map_option usr_id (find (\<lambda>u. usr_external_id u = Some s) (users db))"

lemma bindings_Some:
  "bindings db s = Some i \<Longrightarrow> \<exists>u\<in>set (users db). usr_external_id u = Some s \<and> usr_id u = i"
  by (auto simp: bindings_def dest!: find_Some_D)

lemma bindings_None: "bindings db s = None \<longleftrightarrow> (\<forall>u\<in>set (users db). usr_external_id u \<noteq> Some s)"
  by (auto simp: bindings_def find_None_iff)

lemma bindings_of_user:
  assumes "schema_ok db" and "u \<in> set (users db)" and "usr_external_id u = Some s"
  shows "bindings db s = Some (usr_id u)"
proof -
  have "find (\<lambda>u. usr_external_id u = Some s) (users db) = Some u"
    by (rule find_unique) (use assms in \<open>auto intro: user_subject_key\<close>)
  then show ?thesis by (simp add: bindings_def)
qed

lemma bindings_users_cong: "users db = users db' \<Longrightarrow> bindings db = bindings db'"
  by (rule ext) (simp add: bindings_def)

section \<open>The statements\<close>

lemma update_user_email_users:
  "update_user_email i e now db = Inr db' \<Longrightarrow> db' = db\<lparr>users :=
     map (\<lambda>u. if usr_id u = i then u\<lparr>usr_email := e, usr_updated_at := now\<rparr> else u) (users db)\<rparr>"
  by (auto simp: update_user_email_def Let_def split: if_splits)

lemma update_user_external_id_users:
  "update_user_external_id i s now db = Inr db' \<Longrightarrow> db' = db\<lparr>users :=
     map (\<lambda>u. if usr_id u = i then u\<lparr>usr_external_id := s, usr_updated_at := now\<rparr> else u) (users db)\<rparr>"
  by (auto simp: update_user_external_id_def Let_def split: if_splits)

lemma update_user_email_bindings:
  assumes "update_user_email i e now db = Inr db'"
  shows "bindings db' = bindings db"
proof (rule ext)
  fix s
  have *: "(\<lambda>u. usr_external_id (if usr_id u = i then u\<lparr>usr_email := e, usr_updated_at := now\<rparr> else u)
      = Some s) = (\<lambda>u. usr_external_id u = Some s)"
    by (rule ext) simp
  show "bindings db' s = bindings db s"
    by (simp add: update_user_email_users [OF assms] bindings_def find_map * option.map_comp comp_def
        if_distrib cong: if_cong)
qed

lemma insert_user_users: "insert_user u db = Inr db' \<Longrightarrow> db' = db\<lparr>users := users db @ [u]\<rparr>"
  by (auto simp: insert_user_def split: if_splits)

lemma insert_user_bindings:
  assumes "insert_user u db = Inr db'" and "usr_external_id u = Some s"
  shows "bindings db' = (bindings db)(s \<mapsto> usr_id u)" and "bindings db s = None"
proof -
  show none: "bindings db s = None"
    using assms by (auto simp: insert_user_def bindings_None image_iff split: if_splits)
  then have f: "find (\<lambda>u. usr_external_id u = Some s) (users db) = None"
    by (simp add: bindings_def)
  show "bindings db' = (bindings db)(s \<mapsto> usr_id u)"
    by (rule ext) (use f in \<open>auto simp: insert_user_users [OF assms(1)] bindings_def find_append
        assms(2) split: option.splits\<close>)
qed

lemma upsert_personal_tenant_Inr:
  assumes "upsert_personal_tenant gen now name owner db = Inr (tid, created, db')"
  obtains t where "t \<in> set (tenants db')" and "tnt_id t = tid" and "is_personal t"
    and "tnt_owner_user_id t = owner" and "schema_ok db \<Longrightarrow> schema_ok db'"
    and "users db' = users db" and "signup_allowlist db' = signup_allowlist db"
    and "memberships db' = memberships db" and "set (tenants db) \<subseteq> set (tenants db')"
    and "\<not> created \<Longrightarrow> db' = db"
    and "created \<Longrightarrow> t = new_tenant gen now name KIND_PERSONAL owner
          \<and> db' = db\<lparr>tenants := tenants db @ [t]\<rparr>
          \<and> (\<forall>s\<in>set (tenants db). \<not> (is_personal s \<and> tnt_owner_user_id s = owner))"
proof (cases "find (\<lambda>t. is_personal t \<and> tnt_owner_user_id t = owner) (tenants db)")
  case (Some t)
  show ?thesis
    by (rule that [of t])
       (use assms Some find_Some_D [OF Some] in \<open>auto simp: upsert_personal_tenant_def\<close>)
next
  case None
  let ?t = "new_tenant gen now name KIND_PERSONAL owner"
  from None assms have ins: "insert_tenant ?t db = Inr db'" and "tid = gen" and "created"
    by (auto simp: upsert_personal_tenant_def)
  from ins have db': "db' = db\<lparr>tenants := tenants db @ [?t]\<rparr>"
    by (auto simp: insert_tenant_def split: if_splits)
  show ?thesis
    by (rule that [of ?t]; use \<open>tid = gen\<close> \<open>created\<close> db' insert_tenant_ok [OF _ ins] None in
        \<open>auto simp: new_tenant_def is_personal_def find_None_iff\<close>)
qed

lemma upsert_membership_Inr:
  assumes "upsert_membership gen now user tenant db = Inr (mid, db')"
  obtains m where "m \<in> set (memberships db')" and "mbr_id m = mid" and "mbr_user_id m = user"
    and "mbr_tenant_id m = tenant" and "schema_ok db \<Longrightarrow> schema_ok db'"
    and "users db' = users db" and "signup_allowlist db' = signup_allowlist db"
    and "tenants db' = tenants db" and "set (memberships db) \<subseteq> set (memberships db')"
    and "m \<in> set (memberships db) \<Longrightarrow> db' = db"
    and "m \<notin> set (memberships db) \<Longrightarrow> m = new_membership gen now user tenant ROLE_OWNER
          \<and> db' = db\<lparr>memberships := memberships db @ [m]\<rparr>"
proof (cases "find (\<lambda>m. mbr_user_id m = user \<and> mbr_tenant_id m = tenant) (memberships db)")
  case (Some m)
  show ?thesis
    by (rule that [of m]) (use assms Some find_Some_D [OF Some] in \<open>auto simp: upsert_membership_def\<close>)
next
  case None
  let ?m = "new_membership gen now user tenant ROLE_OWNER"
  from None assms have ins: "insert_membership ?m db = Inr db'" and "mid = gen"
    by (auto simp: upsert_membership_def)
  from ins have db': "db' = db\<lparr>memberships := memberships db @ [?m]\<rparr>"
    and fresh: "?m \<notin> set (memberships db)"
    by (auto simp: insert_membership_def split: if_splits)
  show ?thesis
    by (rule that [of ?m]; use \<open>mid = gen\<close> db' fresh insert_membership_ok [OF _ ins] in
        \<open>auto simp: new_membership_def\<close>)
qed

text \<open>The rows a successful call names.\<close>

definition provisioned_rows ::
    "database \<Rightarrow> provisioned \<Rightarrow> Membership \<Rightarrow> User \<Rightarrow> Tenant \<Rightarrow> bool" where
  "provisioned_rows db r m u t = ((m, u, t) \<in> set (joined db) \<and> mbr_id m = out_membership_id r
     \<and> mbr_user_id m = out_user_id r \<and> mbr_tenant_id m = out_tenant_id r
     \<and> is_personal t \<and> tnt_owner_user_id t = out_user_id r)"

definition same_rest :: "database \<Rightarrow> database \<Rightarrow> bool" where
  "same_rest db db' = (users db' = users db \<and> signup_allowlist db' = signup_allowlist db)"

lemma finish_0003_Inr:
  assumes "finish_0003 g now name (user, status, db) = Inr (r, db')" and "schema_ok db"
    and "u \<in> set (users db)" and "usr_id u = user"
  shows "status = ''active''" and "out_user_id r = user" and "same_rest db db'" and "schema_ok db'"
    and "\<exists>m t. provisioned_rows db' r m u t"
proof -
  obtain tid c db1 mid where st: "status = ''active''"
    and up: "upsert_personal_tenant (gen_tenant g) now (tenant_name name) user db = Inr (tid, c, db1)"
    and um: "upsert_membership (gen_membership g) now user tid db1 = Inr (mid, db')"
    and r: "r = \<lparr>out_user_id = user, out_tenant_id = tid, out_membership_id = mid, out_created = c\<rparr>"
    using assms(1) by (auto simp: finish_0003_def)
  obtain t where t: "t \<in> set (tenants db1)" "tnt_id t = tid" "is_personal t"
      "tnt_owner_user_id t = user" "schema_ok db1" "users db1 = users db"
      "signup_allowlist db1 = signup_allowlist db"
    using upsert_personal_tenant_Inr [OF up] assms(2) by metis
  obtain m where m: "m \<in> set (memberships db')" "mbr_id m = mid" "mbr_user_id m = user"
      "mbr_tenant_id m = tid" "schema_ok db'" "users db' = users db1"
      "signup_allowlist db' = signup_allowlist db1" "tenants db' = tenants db1"
    using upsert_membership_Inr [OF um] t(5) by metis
  show "status = ''active''" by (rule st)
  show "out_user_id r = user" by (simp add: r)
  show "same_rest db db'" by (simp add: same_rest_def t m)
  show "schema_ok db'" by (rule m)
  have "provisioned_rows db' r m u t"
    using assms(3,4) t m by (simp add: provisioned_rows_def set_joined r)
  then show "\<exists>m t. provisioned_rows db' r m u t" by blast
qed

lemma finish_0004_0003:
  "finish_0004 g now name x = Inr (r, db') \<Longrightarrow> finish_0003 g now name x = Inr (r, db')"
  by (cases x) (auto simp: finish_0004_def finish_0003_def)

lemma tenant_status_of:
  "schema_ok db \<Longrightarrow> t \<in> set (tenants db) \<Longrightarrow> tenant_status (tnt_id t) db = Some (tnt_status t)"
  unfolding tenant_status_def by (subst find_unique [of t]) (auto dest: tenant_key)

lemma membership_status_of:
  "schema_ok db \<Longrightarrow> m \<in> set (memberships db) \<Longrightarrow> membership_status (mbr_id m) db = Some (mbr_status m)"
  unfolding membership_status_def by (subst find_unique [of m]) (auto dest: membership_key)

text \<open>Version 0004 looks at both statuses, so what it returns is usable.\<close>

lemma finish_0004_active:
  assumes "finish_0004 g now name (user, status, db) = Inr (r, db')" and "schema_ok db"
    and "provisioned_rows db' r m u t"
  shows "tnt_status t = ''active''" and "mbr_status m = ''active''"
proof -
  obtain tid c db1 mid
    where up: "upsert_personal_tenant (gen_tenant g) now (tenant_name name) user db = Inr (tid, c, db1)"
    and ts: "\<not> sql_differs (tenant_status tid db1) ''active''"
    and um: "upsert_membership (gen_membership g) now user tid db1 = Inr (mid, db')"
    and ms: "\<not> sql_differs (membership_status mid db') ''active''"
    and r: "r = \<lparr>out_user_id = user, out_tenant_id = tid, out_membership_id = mid, out_created = c\<rparr>"
    using assms(1) by (auto simp: finish_0004_def)
  have db1: "schema_ok db1" using upsert_personal_tenant_Inr [OF up] assms(2) by metis
  have same: "tenants db' = tenants db1" "schema_ok db'"
    using upsert_membership_Inr [OF um] db1 by metis+
  have "t \<in> set (tenants db1)" "tnt_id t = tid" "m \<in> set (memberships db')" "mbr_id m = mid"
    using assms(3) same(1) by (auto simp: provisioned_rows_def set_joined r)
  then show "tnt_status t = ''active''" and "mbr_status m = ''active''"
    using ts ms tenant_status_of [OF db1] membership_status_of [OF same(2)]
    by (auto simp: sql_differs_def)
qed

section \<open>Resolving the user\<close>

text \<open>
  The databases a call sees from its lookup by subject on keep the constraints, and the row it
  has locked with \<^verbatim>\<open>FOR UPDATE\<close> is still there, unchanged, when it writes.
\<close>

definition row_locked :: "database \<Rightarrow> string option \<Rightarrow> database \<Rightarrow> bool" where
  "row_locked db subject db' = (\<forall>u\<in>set (users db). usr_external_id u = subject \<longrightarrow> u \<in> set (users db'))"

definition seen_ok :: "interference \<Rightarrow> string option \<Rightarrow> database \<Rightarrow> bool" where
  "seen_ok conc subject db = (schema_ok db \<and> schema_ok (at_email_lookup conc db)
     \<and> schema_ok (at_user_insert conc (at_email_lookup conc db)) \<and> schema_ok (at_locked_user conc db)
     \<and> row_locked db subject (at_locked_user conc db))"

definition interference_ok :: "interference \<Rightarrow> string option \<Rightarrow> database \<Rightarrow> bool" where
  "interference_ok conc subject db = seen_ok conc subject (at_subject_lookup conc db)"

lemma quiet_seen: "schema_ok db \<Longrightarrow> seen_ok quiet subject db"
  by (simp add: seen_ok_def row_locked_def)

lemma quiet_ok: "schema_ok db \<Longrightarrow> interference_ok quiet subject db"
  by (simp add: interference_ok_def quiet_seen)

text \<open>The row a resolved user is: bound to the subject, under the presented address.\<close>

definition bound_row :: "database \<Rightarrow> uuid \<Rightarrow> string \<Rightarrow> string option \<Rightarrow> string \<Rightarrow> User \<Rightarrow> bool" where
  "bound_row db i v_email subject status u = (u \<in> set (users db) \<and> usr_id u = i
     \<and> usr_external_id u = subject \<and> email_normalized u = v_email \<and> usr_status u = status)"

lemma insert_new_user_row:
  assumes "insert_user (new_user gen now (btrim e) x) db = Inr db'"
  shows "bound_row db' gen (lower (btrim e)) x ACTIVE (new_user gen now (btrim e) x)"
  using insert_user_users [OF assms]
  by (simp add: bound_row_def new_user_def email_normalized_def EMAIL_NORMALIZATION_SQL_def)

lemma update_email_row:
  assumes "update_user_email (usr_id u) (btrim e) now db = Inr db'" and "u \<in> set (users db)"
  shows "bound_row db' (usr_id u) (lower (btrim e)) (usr_external_id u) (usr_status u)
           (u\<lparr>usr_email := btrim e, usr_updated_at := now\<rparr>)"
  using update_user_email_users [OF assms(1)] assms(2)
  by (auto simp: bound_row_def EMAIL_NORMALIZATION_SQL_def)

lemma resolve_user_0004_Inr:
  assumes "resolve_user_0004 conc gen now e (lower (btrim e)) s db = Inr (i, st, db')"
    and "seen_ok conc (Some s) db"
  shows "schema_ok db' \<and> (\<exists>u. bound_row db' i (lower (btrim e)) (Some s) st u)"
proof (cases "find (\<lambda>u. usr_external_id u = Some s) (users db)")
  case (Some u)
  then have u: "u \<in> set (users db)" "usr_external_id u = Some s"
    by (auto dest: find_Some_D)
  show ?thesis
  proof (cases "email_normalized u = lower (btrim e)")
    case True
    with assms Some u show ?thesis
      by (auto simp: resolve_user_0004_def bound_row_def seen_ok_def row_locked_def)
  next
    case False
    with assms(1) Some have
      up: "update_user_email (usr_id u) (btrim e) now (at_locked_user conc db) = Inr db'"
      and "i = usr_id u" "st = usr_status u"
      by (auto simp: resolve_user_0004_def split: if_splits)
    moreover have "u \<in> set (users (at_locked_user conc db))" "schema_ok (at_locked_user conc db)"
      using assms(2) u by (auto simp: seen_ok_def row_locked_def)
    ultimately show ?thesis
      using update_email_row [OF up] update_user_email_ok [OF _ up] u by auto
  qed
next
  case None
  define db2 where "db2 = at_user_insert conc (at_email_lookup conc db)"
  have "schema_ok db2" using assms(2) by (simp add: db2_def seen_ok_def)
  moreover from None assms(1) have
    "insert_or_reread_0004 gen now e (lower (btrim e)) s db2 = Inr (i, st, db')"
    by (auto simp: resolve_user_0004_def db2_def Let_def split: option.splits)
  ultimately show ?thesis
    unfolding insert_or_reread_0004_def
    by (fastforce split: option.splits if_splits dest: find_Some_D insert_new_user_row insert_user_ok
        simp: bound_row_def)
qed

lemma adopt_0003_Inr:
  assumes "adopt_0003 now x u db = Inr (i, st, db')" and "schema_ok db" and "u \<in> set (users db)"
  shows "schema_ok db' \<and> (\<exists>v. bound_row db' i (email_normalized u)
           (case x of None \<Rightarrow> usr_external_id u | Some s \<Rightarrow> Some s) st v)"
proof (cases "usr_external_id u = None \<and> x \<noteq> None")
  case True
  with assms(1) have up: "update_user_external_id (usr_id u) x now db = Inr db'"
    and "i = usr_id u" "st = usr_status u"
    by (auto simp: adopt_0003_def)
  moreover have "bound_row db' (usr_id u) (email_normalized u) x (usr_status u)
      (u\<lparr>usr_external_id := x, usr_updated_at := now\<rparr>)"
    using update_user_external_id_users [OF up] assms(3) by (auto simp: bound_row_def)
  ultimately show ?thesis
    using update_user_external_id_ok [OF assms(2) up] True by auto
next
  case False
  with assms show ?thesis
    by (auto simp: adopt_0003_def bound_row_def split: if_splits option.splits)
qed

lemma resolve_user_0003_Inr:
  assumes "resolve_user_0003 conc gen now e (lower (btrim e)) x db = Inr (i, st, db')"
    and "seen_ok conc x db"
  shows "schema_ok db' \<and> (\<exists>u y. bound_row db' i (lower (btrim e)) y st u \<and> (x \<noteq> None \<longrightarrow> y = x))"
proof (cases "if x = None then None else find (\<lambda>u. usr_external_id u = x) (users db)")
  case (Some u)
  then have u: "u \<in> set (users db)" "usr_external_id u = x"
    by (auto dest: find_Some_D split: if_splits)
  show ?thesis
  proof (cases "email_normalized u = lower (btrim e)")
    case True
    with assms Some u show ?thesis
      by (auto simp: resolve_user_0003_def bound_row_def seen_ok_def row_locked_def)
  next
    case False
    with assms(1) Some have
      up: "update_user_email (usr_id u) (btrim e) now (at_locked_user conc db) = Inr db'"
      and "i = usr_id u" "st = usr_status u"
      by (auto simp: resolve_user_0003_def split: if_splits)
    moreover have "u \<in> set (users (at_locked_user conc db))" "schema_ok (at_locked_user conc db)"
      using assms(2) u by (auto simp: seen_ok_def row_locked_def)
    ultimately show ?thesis
      using update_email_row [OF up] update_user_email_ok [OF _ up] u by auto
  qed
next
  case None
  define db1 where "db1 = at_email_lookup conc db"
  define db2 where "db2 = at_user_insert conc db1"
  have ok: "schema_ok db1" "schema_ok db2"
    using assms(2) by (simp_all add: db1_def db2_def seen_ok_def)
  show ?thesis
  proof (cases "find (\<lambda>u. email_normalized u = lower (btrim e)) (users db1)")
    case (Some u)
    with None assms(1) have "adopt_0003 now x u db1 = Inr (i, st, db')"
      by (auto simp: resolve_user_0003_def db1_def Let_def)
    from adopt_0003_Inr [OF this ok(1)] find_Some_D [OF Some] show ?thesis
      by (auto split: option.splits)
  next
    case none1: None
    show ?thesis
    proof (cases "find (\<lambda>u. email_normalized u = lower (btrim e)) (users db2)")
      case (Some u)
      with None none1 assms(1) have "adopt_0003 now x u db2 = Inr (i, st, db')"
        by (auto simp: resolve_user_0003_def db1_def db2_def Let_def)
      from adopt_0003_Inr [OF this ok(2)] find_Some_D [OF Some] show ?thesis
        by (auto split: option.splits)
    next
      case none2: None
      with None none1 assms(1) have ins: "insert_user (new_user gen now (btrim e) x) db2 = Inr db'"
        and "i = gen" "st = ACTIVE"
        by (auto simp: resolve_user_0003_def db1_def db2_def Let_def)
      then show ?thesis
        using insert_new_user_row [OF ins] insert_user_ok [OF ok(2) ins] by auto
    qed
  qed
qed

lemma upsert_user_0002_Inr:
  assumes "upsert_user_0002 gen now e x db = Inr (i, st, db')" and "schema_ok db"
  shows "schema_ok db' \<and> (\<exists>u y. bound_row db' i (lower (btrim e)) y st u)"
proof (cases "find (\<lambda>u. email_normalized u = EMAIL_NORMALIZATION_SQL (btrim e)) (users db)")
  case (Some u)
  then have u: "u \<in> set (users db)" "email_normalized u = lower (btrim e)"
    by (auto dest: find_Some_D simp: EMAIL_NORMALIZATION_SQL_def)
  let ?y = "case usr_external_id u of Some z \<Rightarrow> Some z | None \<Rightarrow> x"
  from Some assms(1) have
    up: "update_user_external_id (usr_id u) ?y (usr_updated_at u) db = Inr db'"
    and "i = usr_id u" "st = usr_status u"
    by (auto simp: upsert_user_0002_def)
  moreover have "bound_row db' (usr_id u) (lower (btrim e)) ?y (usr_status u)
      (u\<lparr>usr_external_id := ?y, usr_updated_at := usr_updated_at u\<rparr>)"
    using update_user_external_id_users [OF up] u
    by (auto simp: bound_row_def intro!: rev_image_eqI [of u])
  ultimately show ?thesis
    using update_user_external_id_ok [OF assms(2) up] by blast
next
  case None
  with assms(1) have ins: "insert_user (new_user gen now (btrim e) x) db = Inr db'"
    and "i = gen" "st = ACTIVE"
    by (auto simp: upsert_user_0002_def)
  then show ?thesis
    using insert_new_user_row [OF ins] insert_user_ok [OF assms(2) ins] by auto
qed

section \<open>What a call leaves alone\<close>

text \<open>
  \<open>growth db db'\<close>: the allowlist is untouched, no tenant or membership row is lost or changed,
  and every user is still there with the same status and, once bound, the same subject.
\<close>

definition growth :: "database \<Rightarrow> database \<Rightarrow> bool" where
  "growth db db' = (signup_allowlist db' = signup_allowlist db
     \<and> set (tenants db) \<subseteq> set (tenants db') \<and> set (memberships db) \<subseteq> set (memberships db')
     \<and> (\<forall>u\<in>set (users db). \<exists>v\<in>set (users db'). usr_id v = usr_id u
          \<and> usr_status v = usr_status u
          \<and> (usr_external_id u \<noteq> None \<longrightarrow> usr_external_id v = usr_external_id u)))"

text \<open>\<open>no_adoption db db'\<close>: a user without a subject stays without one.\<close>

definition no_adoption :: "database \<Rightarrow> database \<Rightarrow> bool" where
  "no_adoption db db' = (\<forall>u\<in>set (users db). usr_external_id u = None
     \<longrightarrow> (\<exists>v\<in>set (users db'). usr_id v = usr_id u \<and> usr_external_id v = None))"

lemma growth_refl [simp]: "growth db db"
  by (auto simp: growth_def)

lemma growth_trans: "growth a b \<Longrightarrow> growth b c \<Longrightarrow> growth a c"
  unfolding growth_def by (fastforce dest: bspec)

lemma no_adoption_refl [simp]: "no_adoption db db"
  by (auto simp: no_adoption_def)

lemma no_adoption_trans: "no_adoption a b \<Longrightarrow> no_adoption b c \<Longrightarrow> no_adoption a c"
  unfolding no_adoption_def by (metis (no_types, lifting))

lemma growth_bindings:
  assumes "growth db db'" and "schema_ok db'" and "bindings db s = Some i"
  shows "bindings db' s = Some i"
proof -
  obtain u where "u \<in> set (users db)" "usr_external_id u = Some s" "usr_id u = i"
    using bindings_Some [OF assms(3)] by blast
  then obtain v where "v \<in> set (users db')" "usr_external_id v = Some s" "usr_id v = i"
    using assms(1) unfolding growth_def by force
  then show ?thesis using bindings_of_user [OF assms(2)] by auto
qed

lemma insert_user_growth:
  assumes "insert_user u db = Inr db'"
  shows "growth db db'" and "no_adoption db db'"
  using insert_user_users [OF assms] by (auto simp: growth_def no_adoption_def)

lemma growth_map_users:
  assumes "\<And>u. u \<in> set (users db) \<Longrightarrow> usr_id (f u) = usr_id u \<and> usr_status (f u) = usr_status u
    \<and> (usr_external_id u \<noteq> None \<longrightarrow> usr_external_id (f u) = usr_external_id u)"
  shows "growth db (db\<lparr>users := map f (users db)\<rparr>)"
  unfolding growth_def
proof (intro conjI ballI)
  fix u assume "u \<in> set (users db)"
  then show "\<exists>v\<in>set (users (db\<lparr>users := map f (users db)\<rparr>)). usr_id v = usr_id u
      \<and> usr_status v = usr_status u
      \<and> (usr_external_id u \<noteq> None \<longrightarrow> usr_external_id v = usr_external_id u)"
    using assms by (intro bexI [of _ "f u"]) auto
qed simp_all

lemma no_adoption_map_users:
  assumes "\<And>u. usr_id (f u) = usr_id u" and "\<And>u. usr_external_id (f u) = usr_external_id u"
  shows "no_adoption db (db\<lparr>users := map f (users db)\<rparr>)"
  unfolding no_adoption_def
proof (intro ballI impI)
  fix u assume "u \<in> set (users db)" and "usr_external_id u = None"
  then show "\<exists>v\<in>set (users (db\<lparr>users := map f (users db)\<rparr>)). usr_id v = usr_id u
      \<and> usr_external_id v = None"
    by (intro bexI [of _ "f u"]) (auto simp: assms)
qed

lemma update_user_email_growth:
  assumes "update_user_email i e now db = Inr db'"
  shows "growth db db'" and "no_adoption db db'"
  unfolding update_user_email_users [OF assms]
  by (rule growth_map_users, simp) (rule no_adoption_map_users, simp_all)

lemma update_external_id_growth:
  assumes "update_user_external_id (usr_id u) x now db = Inr db'" and "schema_ok db"
    and "u \<in> set (users db)" and "usr_external_id u = None \<or> usr_external_id u = x"
  shows "growth db db'"
  unfolding update_user_external_id_users [OF assms(1)]
proof (rule growth_map_users)
  fix w assume w: "w \<in> set (users db)"
  let ?w = "if usr_id w = usr_id u then w\<lparr>usr_external_id := x, usr_updated_at := now\<rparr> else w"
  show "usr_id ?w = usr_id w \<and> usr_status ?w = usr_status w
      \<and> (usr_external_id w \<noteq> None \<longrightarrow> usr_external_id ?w = usr_external_id w)"
  proof (cases "usr_id w = usr_id u")
    case True
    then have "w = u" by (rule user_key [OF assms(2) w assms(3)])
    with assms(4) show ?thesis by auto
  qed simp
qed

lemma finish_0003_growth:
  assumes "finish_0003 g now name x = Inr (r, db')" and "x = (user, status, db)"
  shows "growth db db'" and "users db' = users db"
proof -
  obtain tid c db1 mid
    where up: "upsert_personal_tenant (gen_tenant g) now (tenant_name name) user db = Inr (tid, c, db1)"
    and um: "upsert_membership (gen_membership g) now user tid db1 = Inr (mid, db')"
    using assms by (auto simp: finish_0003_def)
  have "growth db db1 \<and> users db1 = users db"
    by (rule upsert_personal_tenant_Inr [OF up], cases c) (auto simp: growth_def)
  moreover have "growth db1 db' \<and> users db' = users db1"
    by (rule upsert_membership_Inr [OF um]) (auto simp: growth_def)
  ultimately show "growth db db'" and "users db' = users db"
    by (auto intro: growth_trans)
qed

lemma resolve_user_0004_growth:
  assumes "resolve_user_0004 quiet gen now e v s db = Inr (i, st, db')"
  shows "growth db db'" and "no_adoption db db'"
  using assms
  by (auto simp: resolve_user_0004_def insert_or_reread_0004_def split: option.splits if_splits
      dest: insert_user_growth update_user_email_growth)

lemma adopt_0003_growth:
  assumes "adopt_0003 now x u db = Inr (i, st, db')" and "schema_ok db" and "u \<in> set (users db)"
  shows "growth db db'"
  using assms by (auto simp: adopt_0003_def split: if_splits dest: update_external_id_growth)

lemma resolve_user_0003_growth:
  assumes "resolve_user_0003 quiet gen now e v x db = Inr (i, st, db')" and "schema_ok db"
  shows "growth db db'"
  using assms
  by (auto simp: resolve_user_0003_def split: option.splits if_splits
      dest: insert_user_growth update_user_email_growth adopt_0003_growth find_Some_D)

lemma upsert_user_0002_growth:
  assumes "upsert_user_0002 gen now e x db = Inr (i, st, db')" and "schema_ok db"
  shows "growth db db'"
  using assms
  by (auto simp: upsert_user_0002_def split: option.splits
      dest: insert_user_growth update_external_id_growth find_Some_D)

section \<open>The contract of the versions\<close>

text \<open>One bootstrap call, and a sequence of them, each in its own transaction: a raised
  exception rolls it back (\<^verbatim>\<open>async with sessions() as session, session.begin()\<close>).\<close>

definition transact :: "(database \<Rightarrow> 'e + 'a \<times> database) \<Rightarrow> database \<Rightarrow> ('e + 'a) \<times> database" where
  "transact f db = (case f db of Inl e \<Rightarrow> (Inl e, db) | Inr (a, db') \<Rightarrow> (Inr a, db'))"

lemma transact_Inl_iff [simp]: "transact f db = (Inl e, db') \<longleftrightarrow> f db = Inl e \<and> db' = db"
  by (auto simp: transact_def split: sum.splits)

lemma transact_Inr_iff [simp]: "transact f db = (Inr a, db') \<longleftrightarrow> f db = Inr (a, db')"
  by (auto simp: transact_def split: sum.splits)

record call =
  call_ids :: fresh_ids
  call_now :: timestamp
  call_email :: "string option"
  call_subject :: "string option"
  call_name :: "string option"

type_synonym provision_fn =
  "fresh_ids \<Rightarrow> timestamp \<Rightarrow> string option \<Rightarrow> string option \<Rightarrow> string option
    \<Rightarrow> database \<Rightarrow> db_error + provisioned \<times> database"

definition do_call :: "provision_fn \<Rightarrow> call \<Rightarrow> database \<Rightarrow> (db_error + provisioned) \<times> database" where
  "do_call prov c = transact (prov (call_ids c) (call_now c) (call_email c) (call_subject c) (call_name c))"

primrec run_calls :: "provision_fn \<Rightarrow> call list \<Rightarrow> database \<Rightarrow> database" where
  "run_calls prov [] db = db"
| "run_calls prov (c # cs) db = run_calls prov cs (snd (do_call prov c db))"

lemma run_calls_append: "run_calls prov (xs @ ys) db = run_calls prov ys (run_calls prov xs db)"
  by (induction xs arbitrary: db) simp_all

end
