(* ===== verification/ProvisionContract.thy ===== *)
theory ProvisionContract
  imports ProvisionFacts
begin

text \<open>
  The contract of \<^verbatim>\<open>app.provision_personal_identity\<close> as a hierarchy of interfaces, one level
  per migration: \<open>provisioning\<close> holds for all three versions, \<open>subject_bound\<close> from 0003 on,
  \<open>subject_only\<close> for 0004.  The facts about sequences of calls are proved once in each level.
\<close>

section \<open>What every version promises\<close>

locale provisioning =
  fixes prov :: provision_fn
  assumes prov_schema: "schema_ok db \<Longrightarrow> prov g now e x n db = Inr (r, db') \<Longrightarrow> schema_ok db'"
    and prov_allowed: "prov g now e x n db = Inr (r, db') \<Longrightarrow> app_signup_allowed e db"
    and prov_growth: "schema_ok db \<Longrightarrow> prov g now e x n db = Inr (r, db') \<Longrightarrow> growth db db'"
    and prov_rows: "schema_ok db \<Longrightarrow> prov g now e x n db = Inr (r, db')
      \<Longrightarrow> \<exists>m u t. provisioned_rows db' r m u t \<and> usr_status u = ACTIVE
            \<and> Some (email_normalized u) = app_normalize_email e"
begin

lemma do_call_schema: "schema_ok db \<Longrightarrow> schema_ok (snd (do_call prov c db))"
  by (cases "prov (call_ids c) (call_now c) (call_email c) (call_subject c) (call_name c) db")
     (auto simp: do_call_def transact_def dest: prov_schema)

lemma do_call_growth: "schema_ok db \<Longrightarrow> growth db (snd (do_call prov c db))"
  by (cases "prov (call_ids c) (call_now c) (call_email c) (call_subject c) (call_name c) db")
     (auto simp: do_call_def transact_def dest: prov_growth)

lemma run_schema: "schema_ok db \<Longrightarrow> schema_ok (run_calls prov cs db)"
  by (induction cs arbitrary: db) (simp_all add: do_call_schema)

lemma run_growth: "schema_ok db \<Longrightarrow> growth db (run_calls prov cs db)"
  by (induction cs arbitrary: db) (auto intro: growth_trans do_call_growth do_call_schema)

lemma run_bindings: "schema_ok db \<Longrightarrow> bindings db s = Some i \<Longrightarrow> bindings (run_calls prov cs db) s = Some i"
  using growth_bindings run_growth run_schema by blast

lemma prov_bindings:
  "schema_ok db \<Longrightarrow> prov g now e x n db = Inr (r, db') \<Longrightarrow> bindings db s = Some i
    \<Longrightarrow> bindings db' s = Some i"
  using growth_bindings prov_growth prov_schema by blast

text \<open>Who is off the allowlist is refused after any sequence of calls: no call writes it.\<close>

lemma run_allowlist: "schema_ok db \<Longrightarrow> signup_allowlist (run_calls prov cs db) = signup_allowlist db"
  using run_growth by (auto simp: growth_def)

lemma run_refuses_unlisted:
  assumes "schema_ok db" and "\<not> app_signup_allowed e db"
  shows "\<exists>err. prov g now e x n (run_calls prov cs db) = Inl err"
proof (cases "prov g now e x n (run_calls prov cs db)")
  case (Inr p)
  obtain r db' where "p = (r, db')" by (cases p)
  with Inr have "app_signup_allowed e (run_calls prov cs db)" by (auto dest: prov_allowed)
  with assms show ?thesis by (simp add: app_signup_allowed_def run_allowlist)
qed simp

end

section \<open>From migration 0003 on: a presented subject is bound to what it is handed\<close>

locale subject_bound = provisioning +
  assumes prov_binds: "schema_ok db \<Longrightarrow> prov g now e x n db = Inr (r, db')
    \<Longrightarrow> nullif_blank x = Some s \<Longrightarrow> bindings db' s = Some (out_user_id r)"
begin

text \<open>One subject always gets the same user, and two subjects never share one, whatever
  calls come between.\<close>

lemma same_subject_same_user:
  assumes "schema_ok db" and "prov g1 n1 e1 x1 m1 db = Inr (r1, db1)"
    and "prov g2 n2 e2 x2 m2 (run_calls prov cs db1) = Inr (r2, db3)"
    and "nullif_blank x1 = Some s" and "nullif_blank x2 = Some s"
  shows "out_user_id r1 = out_user_id r2"
proof -
  have ok: "schema_ok db1" "schema_ok (run_calls prov cs db1)"
    using assms(1,2) prov_schema run_schema by blast+
  have "bindings db3 s = Some (out_user_id r1)"
    using prov_bindings [OF ok(2) assms(3)] run_bindings [OF ok(1)]
      prov_binds [OF assms(1,2,4)] by blast
  with prov_binds [OF ok(2) assms(3,5)] show ?thesis by simp
qed

lemma distinct_subjects_distinct_users:
  assumes "schema_ok db" and "prov g1 n1 e1 x1 m1 db = Inr (r1, db1)"
    and "prov g2 n2 e2 x2 m2 (run_calls prov cs db1) = Inr (r2, db3)"
    and "nullif_blank x1 = Some s1" and "nullif_blank x2 = Some s2" and "s1 \<noteq> s2"
  shows "out_user_id r1 \<noteq> out_user_id r2"
proof
  assume eq: "out_user_id r1 = out_user_id r2"
  have ok: "schema_ok db1" "schema_ok (run_calls prov cs db1)" "schema_ok db3"
    using assms(1-3) prov_schema run_schema by blast+
  have "bindings db3 s1 = Some (out_user_id r1)"
    using prov_bindings [OF ok(2) assms(3)] run_bindings [OF ok(1)]
      prov_binds [OF assms(1,2,4)] by blast
  moreover have "bindings db3 s2 = Some (out_user_id r1)"
    using prov_binds [OF ok(2) assms(3,5)] eq by simp
  ultimately obtain u v where uv: "u \<in> set (users db3)" "v \<in> set (users db3)"
    "usr_external_id u = Some s1" "usr_external_id v = Some s2" "usr_id u = usr_id v"
    by (metis bindings_Some)
  with user_key [OF ok(3)] assms(6) show False by force
qed

end

section \<open>Migration 0004: nothing without a subject, and no adoption\<close>

locale subject_only = subject_bound +
  assumes prov_subject: "prov g now e x n db = Inr (r, db') \<Longrightarrow> nullif_blank x \<noteq> None"
    and prov_no_adoption: "schema_ok db \<Longrightarrow> prov g now e x n db = Inr (r, db') \<Longrightarrow> no_adoption db db'"
begin

lemma run_no_adoption: "schema_ok db \<Longrightarrow> no_adoption db (run_calls prov cs db)"
proof (induction cs arbitrary: db)
  case (Cons c cs)
  have "no_adoption db (snd (do_call prov c db))"
    by (cases "prov (call_ids c) (call_now c) (call_email c) (call_subject c) (call_name c) db")
       (auto simp: do_call_def transact_def dest: prov_no_adoption [OF Cons.prems])
  with Cons show ?case by (auto intro: no_adoption_trans do_call_schema)
qed simp

text \<open>An account is handed out only to the subject it is bound to, before and after.\<close>

lemma handed_out_to_owner:
  assumes "schema_ok db" and "prov g now e x n db = Inr (r, db')"
    and "u \<in> set (users db)" and "usr_id u = out_user_id r"
  shows "usr_external_id u = nullif_blank x \<and> usr_external_id u \<noteq> None"
proof -
  obtain s where s: "nullif_blank x = Some s" using prov_subject [OF assms(2)] by blast
  have ok: "schema_ok db'" using assms prov_schema by blast
  from prov_binds [OF assms(1,2) s] obtain w where
    w: "w \<in> set (users db')" "usr_external_id w = Some s" "usr_id w = out_user_id r"
    by (blast dest: bindings_Some)
  have "usr_external_id u \<noteq> None"
  proof
    assume "usr_external_id u = None"
    then obtain v where "v \<in> set (users db')" "usr_id v = usr_id u" "usr_external_id v = None"
      using prov_no_adoption [OF assms(1,2)] assms(3) by (auto simp: no_adoption_def)
    with w assms(4) user_key [OF ok] show False by force
  qed
  moreover from this obtain v where "v \<in> set (users db')" "usr_id v = usr_id u"
    "usr_external_id v = usr_external_id u"
    using prov_growth [OF assms(1,2)] assms(3) by (auto simp: growth_def)
  ultimately show ?thesis using w assms(4) s user_key [OF ok] by force
qed

end

section \<open>The versions keep their contracts\<close>

lemma signup_allowed_normalized: "app_signup_allowed (Some (lower (btrim e))) db = app_signup_allowed (Some e) db"
  by (simp add: app_signup_allowed_def app_normalize_email_def btrim_lower)

text \<open>A bound row survives the rest of the function, which writes tenants and memberships only.\<close>

lemma bound_row_users_cong: "users db = users db' \<Longrightarrow> bound_row db i v x st u = bound_row db' i v x st u"
  by (simp add: bound_row_def)

lemma finish_0003_rows:
  assumes "finish_0003 g now n (i, st, db1) = Inr (r, db')" and "schema_ok db1"
    and "bound_row db1 i v x st u"
  shows "schema_ok db' \<and> out_user_id r = i \<and> bound_row db' i v x st u \<and> st = ''active''
    \<and> (\<exists>m t. provisioned_rows db' r m u t)"
  using finish_0003_Inr [OF assms(1,2), of u] assms(3)
  by (auto simp: bound_row_def same_rest_def)

lemma provision_0004_Inr:
  assumes "provision_0004 conc g now (Some e) x n db = Inr (r, db')"
    and "interference_ok conc (nullif_blank x) db"
  obtains s u m t where "nullif_blank x = Some s" and "lower (btrim e) \<noteq> []"
    and "app_signup_allowed (Some e) db" and "schema_ok db'"
    and "bound_row db' (out_user_id r) (lower (btrim e)) (Some s) ''active'' u"
    and "provisioned_rows db' r m u t" and "all_active (m, u, t)"
proof -
  obtain s i st db1 where s: "nullif_blank x = Some s" "lower (btrim e) \<noteq> []"
      "app_signup_allowed (Some (lower (btrim e))) db"
    and res: "resolve_user_0004 conc (gen_user g) now e (lower (btrim e)) s (at_subject_lookup conc db)
      = Inr (i, st, db1)"
    and fin: "finish_0004 g now n (i, st, db1) = Inr (r, db')"
    using assms(1) by (auto simp: provision_0004_def Let_def split: option.splits if_splits)
  have ok1: "schema_ok db1" and "\<exists>u. bound_row db1 i (lower (btrim e)) (Some s) st u"
    using resolve_user_0004_Inr [OF res] assms(2) s(1) by (auto simp: interference_ok_def)
  then obtain u where u: "bound_row db1 i (lower (btrim e)) (Some s) st u" by blast
  obtain m t where rows: "schema_ok db'" "out_user_id r = i" "st = ''active''"
      "bound_row db' i (lower (btrim e)) (Some s) st u" "provisioned_rows db' r m u t"
    using finish_0003_rows [OF finish_0004_0003 [OF fin] ok1 u] by blast
  show ?thesis
    by (rule that [OF s(1,2) _ rows(1), of u m t])
       (use rows s(3) signup_allowed_normalized finish_0004_active [OF fin ok1 rows(5)] in
         \<open>auto simp: all_active_def bound_row_def\<close>)
qed

lemma provision_0004_growth:
  assumes "provision_0004 quiet g now e x n db = Inr (r, db')"
  shows "growth db db'" and "no_adoption db db'"
proof -
  obtain em s i st db1
    where res: "resolve_user_0004 quiet (gen_user g) now em (lower (btrim em)) s db = Inr (i, st, db1)"
    and fin: "finish_0004 g now n (i, st, db1) = Inr (r, db')"
    using assms by (auto simp: provision_0004_def Let_def split: option.splits if_splits)
  from finish_0003_growth [OF finish_0004_0003 [OF fin] refl] resolve_user_0004_growth [OF res]
  show "growth db db'" and "no_adoption db db'"
    by (auto intro: growth_trans simp: no_adoption_def)
qed

interpretation v4: subject_only "provision_0004 quiet"
proof unfold_locales
  fix db db' :: database and g now e x n r s
  assume p: "provision_0004 quiet g now e x n db = Inr (r, db')"
  then obtain em where e: "e = Some em" by (cases e) (auto simp: provision_0004_def)
  show "growth db db'" and "no_adoption db db'" using provision_0004_growth [OF p] .
  show "nullif_blank x \<noteq> None" and "app_signup_allowed e db"
    using p e by (auto simp: provision_0004_def Let_def signup_allowed_normalized
        split: option.splits if_splits)
  assume ok: "schema_ok db"
  note inr = provision_0004_Inr [OF p [unfolded e] quiet_ok [OF ok]]
  show "schema_ok db'" by (rule inr)
  show "\<exists>m u t. provisioned_rows db' r m u t \<and> usr_status u = ACTIVE
      \<and> Some (email_normalized u) = app_normalize_email e"
    by (rule inr) (auto simp: bound_row_def app_normalize_email_def e)
  assume x: "nullif_blank x = Some s"
  show "bindings db' s = Some (out_user_id r)"
    by (rule inr) (use x in \<open>auto simp: bound_row_def dest: bindings_of_user\<close>)
qed

lemma provision_0003_Inr:
  assumes "provision_0003 conc g now (Some e) x n db = Inr (r, db')"
    and "interference_ok conc (nullif_blank x) db"
  obtains u m t y where "app_signup_allowed (Some e) db" and "schema_ok db'"
    and "bound_row db' (out_user_id r) (lower (btrim e)) y ''active'' u"
    and "nullif_blank x \<noteq> None \<Longrightarrow> y = nullif_blank x" and "provisioned_rows db' r m u t"
proof -
  obtain i st db1 where s: "app_signup_allowed (Some (lower (btrim e))) db"
    and res: "resolve_user_0003 conc (gen_user g) now e (lower (btrim e)) (nullif_blank x) (at_subject_lookup conc db)
                = Inr (i, st, db1)"
    and fin: "finish_0003 g now n (i, st, db1) = Inr (r, db')"
    using assms(1) by (auto simp: provision_0003_def Let_def split: if_splits)
  obtain u y where ok1: "schema_ok db1" and u: "bound_row db1 i (lower (btrim e)) y st u"
    and y: "nullif_blank x \<noteq> None \<longrightarrow> y = nullif_blank x"
    using resolve_user_0003_Inr [OF res assms(2) [unfolded interference_ok_def]] by blast
  obtain m t where rows: "schema_ok db'" "out_user_id r = i" "st = ''active''"
      "bound_row db' i (lower (btrim e)) y st u" "provisioned_rows db' r m u t"
    using finish_0003_rows [OF fin ok1 u] by blast
  show ?thesis
    by (rule that [of y u m t]) (use rows s y signup_allowed_normalized in \<open>auto simp: bound_row_def\<close>)
qed

lemma provision_0003_growth:
  assumes "provision_0003 quiet g now e x n db = Inr (r, db')" and "schema_ok db"
  shows "growth db db'"
proof -
  obtain em i st db1
    where res: "resolve_user_0003 quiet (gen_user g) now em (lower (btrim em)) (nullif_blank x) db
                  = Inr (i, st, db1)"
    and fin: "finish_0003 g now n (i, st, db1) = Inr (r, db')"
    using assms(1) by (auto simp: provision_0003_def Let_def split: option.splits if_splits)
  from finish_0003_growth [OF fin refl] resolve_user_0003_growth [OF res assms(2)]
  show ?thesis by (auto intro: growth_trans)
qed

interpretation v3: subject_bound "provision_0003 quiet"
proof unfold_locales
  fix db db' :: database and g now e x n r s
  assume p: "provision_0003 quiet g now e x n db = Inr (r, db')"
  then obtain em where e: "e = Some em" by (cases e) (auto simp: provision_0003_def)
  show "app_signup_allowed e db"
    using p e by (auto simp: provision_0003_def Let_def signup_allowed_normalized split: if_splits)
  assume ok: "schema_ok db"
  show "growth db db'" by (rule provision_0003_growth [OF p ok])
  note inr = provision_0003_Inr [OF p [unfolded e] quiet_ok [OF ok]]
  show "schema_ok db'" by (rule inr)
  show "\<exists>m u t. provisioned_rows db' r m u t \<and> usr_status u = ACTIVE
      \<and> Some (email_normalized u) = app_normalize_email e"
    by (rule inr) (auto simp: bound_row_def app_normalize_email_def e)
  assume x: "nullif_blank x = Some s"
  show "bindings db' s = Some (out_user_id r)"
    by (rule inr) (use x in \<open>auto simp: bound_row_def dest: bindings_of_user\<close>)
qed

lemma provision_0002_Inr:
  assumes "provision_0002 g now (Some e) x n db = Inr (r, db')" and "schema_ok db"
  obtains u m t y where "app_signup_allowed (Some e) db" and "schema_ok db'" and "growth db db'"
    and "bound_row db' (out_user_id r) (lower (btrim e)) y ''active'' u"
    and "provisioned_rows db' r m u t"
proof -
  obtain i st db1 where s: "app_signup_allowed (Some (lower (btrim e))) db"
    and res: "upsert_user_0002 (gen_user g) now e (nullif_blank x) db = Inr (i, st, db1)"
    and fin: "finish_0003 g now n (i, st, db1) = Inr (r, db')"
    using assms(1) by (auto simp: provision_0002_def Let_def split: if_splits)
  obtain u y where ok1: "schema_ok db1" and u: "bound_row db1 i (lower (btrim e)) y st u"
    using upsert_user_0002_Inr [OF res assms(2)] by blast
  obtain m t where rows: "schema_ok db'" "out_user_id r = i" "st = ''active''"
      "bound_row db' i (lower (btrim e)) y st u" "provisioned_rows db' r m u t"
    using finish_0003_rows [OF fin ok1 u] by blast
  have "growth db db'"
    using upsert_user_0002_growth [OF res assms(2)] finish_0003_growth [OF fin refl]
    by (auto intro: growth_trans)
  then show ?thesis
    using that [of y u m t] rows s signup_allowed_normalized by (auto simp: bound_row_def)
qed

interpretation v2: provisioning provision_0002
proof unfold_locales
  fix db db' :: database and g now e x n r
  assume p: "provision_0002 g now e x n db = Inr (r, db')"
  then obtain em where e: "e = Some em" by (cases e) (auto simp: provision_0002_def)
  show "app_signup_allowed e db"
    using p e by (auto simp: provision_0002_def Let_def signup_allowed_normalized split: if_splits)
  assume ok: "schema_ok db"
  note inr = provision_0002_Inr [OF p [unfolded e] ok]
  show "growth db db'" and "schema_ok db'" by (rule inr, assumption)+
  show "\<exists>m u t. provisioned_rows db' r m u t \<and> usr_status u = ACTIVE
      \<and> Some (email_normalized u) = app_normalize_email e"
    by (rule inr) (auto simp: bound_row_def app_normalize_email_def e)
qed

end
