(* ===== verification/ProvisionRules.thy ===== *)
theory ProvisionRules
  imports ProvisionContract
begin

text \<open>
  The identity binding rules of \<^verbatim>\<open>docs/authentication.md\<close> as a decision, the proof that
  migration 0004's lookup takes exactly that decision, and the two ends of a call: on rows that
  exist already, and on none.
\<close>

section \<open>The binding rules\<close>

datatype decision = Refuse db_error | Hand_over uuid | Create

definition binding_decision :: "database \<Rightarrow> string \<Rightarrow> string \<Rightarrow> decision" where
  "binding_decision db v_email s =
     (case bindings db s of
        Some i \<Rightarrow>
          if \<exists>w\<in>set (users db). email_normalized w = v_email \<and> usr_id w \<noteq> i
          then Refuse email_already_bound else Hand_over i
      | None \<Rightarrow> (case find (\<lambda>u. email_normalized u = v_email) (users db) of
            None \<Rightarrow> Create
          | Some u \<Rightarrow> Refuse (if usr_external_id u = None then subject_binding_required
                               else external_subject_conflict)))"

lemma update_user_email_succeeds:
  assumes "schema_ok db"
    and "\<forall>w\<in>set (users db). email_normalized w = EMAIL_NORMALIZATION_SQL e \<longrightarrow> usr_id w = i"
  shows "\<exists>db'. update_user_email i e now db = Inr db'"
proof -
  let ?f = "\<lambda>u. if usr_id u = i then u\<lparr>usr_email := e, usr_updated_at := now\<rparr> else u"
  have "distinct (users db)" and d: "distinct (map email_normalized (users db))"
    using assms(1) by (auto simp: schema_ok_def users_ok_def distinct_map)
  moreover have "inj_on (\<lambda>u. email_normalized (?f u)) (set (users db))"
  proof (rule inj_onI)
    fix u v assume uv: "u \<in> set (users db)" "v \<in> set (users db)"
      and eq: "email_normalized (?f u) = email_normalized (?f v)"
    have "usr_id u = i \<longleftrightarrow> usr_id v = i"
      using eq assms(2) uv by (auto split: if_splits)
    then show "u = v"
      using eq uv user_key [OF assms(1)] user_email_key [OF assms(1)]
      by (cases "usr_id u = i") auto
  qed
  ultimately have "distinct (map email_normalized (map ?f (users db)))"
    by (simp add: distinct_map comp_def)
  then show ?thesis by (simp add: update_user_email_def Let_def)
qed

lemma insert_user_succeeds:
  assumes "gen \<notin> usr_id ` set (users db)" and "bindings db s = None"
    and "\<forall>u\<in>set (users db). email_normalized u \<noteq> EMAIL_NORMALIZATION_SQL e"
  shows "insert_user (new_user gen now e (Some s)) db
    = Inr (db\<lparr>users := users db @ [new_user gen now e (Some s)]\<rparr>)"
  using assms
  by (auto simp: insert_user_def new_user_def status_check_def email_normalized_def bindings_None)

lemma bindings_find:
  "bindings db s = Some i \<Longrightarrow> \<exists>u. find (\<lambda>u. usr_external_id u = Some s) (users db) = Some u \<and> usr_id u = i"
  by (auto simp: bindings_def)

lemma resolve_user_0004_known:
  assumes "schema_ok db" and "bindings db s = Some i"
    and "\<forall>w\<in>set (users db). email_normalized w = lower (btrim e) \<longrightarrow> usr_id w = i"
  shows "\<exists>st db'. resolve_user_0004 quiet gen now e (lower (btrim e)) s db = Inr (i, st, db')"
proof -
  obtain u where f: "find (\<lambda>u. usr_external_id u = Some s) (users db) = Some u" "usr_id u = i"
    using bindings_find [OF assms(2)] by blast
  obtain db' where "update_user_email i (btrim e) now db = Inr db'"
    using update_user_email_succeeds [OF assms(1), of "btrim e" i now] assms(3)
    by (auto simp: EMAIL_NORMALIZATION_SQL_def)
  then show ?thesis
    using f assms(3) by (auto simp: resolve_user_0004_def list_ex_iff)
qed

lemma resolve_user_0004_new:
  assumes "gen \<notin> usr_id ` set (users db)" and "bindings db s = None"
    and "find (\<lambda>u. email_normalized u = lower (btrim e)) (users db) = None"
  shows "resolve_user_0004 quiet gen now e (lower (btrim e)) s db
    = Inr (gen, ACTIVE, db\<lparr>users := users db @ [new_user gen now (btrim e) (Some s)]\<rparr>)"
proof -
  have "find (\<lambda>u. usr_external_id u = Some s) (users db) = None"
    using assms(2) by (simp add: bindings_def)
  moreover have "insert_user (new_user gen now (btrim e) (Some s)) db
      = Inr (db\<lparr>users := users db @ [new_user gen now (btrim e) (Some s)]\<rparr>)"
    using insert_user_succeeds [OF assms(1,2), of "btrim e" now] assms(3)
    by (auto simp: find_None_iff EMAIL_NORMALIZATION_SQL_def)
  ultimately show ?thesis
    using assms(3) by (simp add: resolve_user_0004_def insert_or_reread_0004_def)
qed

section \<open>The end of a call\<close>

text \<open>On rows that exist: nothing is written.\<close>

lemma upsert_personal_tenant_existing:
  assumes "schema_ok db" and "t \<in> set (tenants db)" and "is_personal t"
    and "tnt_owner_user_id t = owner"
  shows "upsert_personal_tenant gen now name owner db = Inr (tnt_id t, False, db)"
  unfolding upsert_personal_tenant_def
  by (subst find_unique [of t]) (use assms in \<open>auto intro: personal_tenant_key\<close>)

lemma upsert_membership_existing:
  assumes "schema_ok db" and "m \<in> set (memberships db)"
  shows "upsert_membership gen now (mbr_user_id m) (mbr_tenant_id m) db = Inr (mbr_id m, db)"
  unfolding upsert_membership_def
  by (subst find_unique [of m]) (use assms in \<open>auto intro: membership_pair_key\<close>)

lemma finish_0004_existing:
  assumes "schema_ok db" and "provisioned_rows db r m u t" and "all_active (m, u, t)"
  shows "finish_0004 g now n (out_user_id r, ''active'', db) = Inr (r\<lparr>out_created := False\<rparr>, db)"
proof -
  have rows: "m \<in> set (memberships db)" "t \<in> set (tenants db)" "is_personal t"
      "tnt_owner_user_id t = out_user_id r" "mbr_user_id m = out_user_id r"
      "mbr_tenant_id m = out_tenant_id r" "tnt_id t = out_tenant_id r"
      "mbr_id m = out_membership_id r" "mbr_status m = ''active''" "tnt_status t = ''active''"
    using assms(2,3) by (auto simp: provisioned_rows_def set_joined all_active_def)
  have up: "upsert_personal_tenant (gen_tenant g) now (tenant_name n) (out_user_id r) db
      = Inr (out_tenant_id r, False, db)"
    using upsert_personal_tenant_existing [OF assms(1) rows(2-4)] rows(7) by simp
  have um: "upsert_membership (gen_membership g) now (out_user_id r) (out_tenant_id r) db
      = Inr (out_membership_id r, db)"
    using upsert_membership_existing [OF assms(1) rows(1)] rows(5,6,8) by simp
  have "tenant_status (out_tenant_id r) db = Some ''active''"
    and "membership_status (out_membership_id r) db = Some ''active''"
    using tenant_status_of [OF assms(1) rows(2)] membership_status_of [OF assms(1) rows(1)] rows(7-10)
    by simp_all
  with up um show ?thesis by (simp add: finish_0004_def sql_differs_def guard_def)
qed

text \<open>For a user who owns nothing yet: tenant and membership are created, if the two
  identifiers drawn are new.\<close>

lemma finish_0004_fresh:
  assumes "schema_ok db" and "user \<in> usr_id ` set (users db)"
    and "\<forall>t\<in>set (tenants db). \<not> (is_personal t \<and> tnt_owner_user_id t = user)"
    and "gen_tenant g \<notin> tnt_id ` set (tenants db)"
    and "gen_membership g \<notin> mbr_id ` set (memberships db)"
  shows "\<exists>db'. finish_0004 g now n (user, ''active'', db) = Inr (\<lparr>out_user_id = user,
      out_tenant_id = gen_tenant g, out_membership_id = gen_membership g, out_created = True\<rparr>, db')"
proof -
  let ?t = "new_tenant (gen_tenant g) now (tenant_name n) KIND_PERSONAL user"
  let ?db1 = "db\<lparr>tenants := tenants db @ [?t]\<rparr>"
  let ?m = "new_membership (gen_membership g) now user (gen_tenant g) ROLE_OWNER"
  let ?db2 = "?db1\<lparr>memberships := memberships db @ [?m]\<rparr>"
  have "insert_tenant ?t db = Inr ?db1"
    using assms(2-4) by (auto simp: insert_tenant_def new_tenant_def status_check_def kind_check_def)
  moreover from this have ok1: "schema_ok ?db1" by (rule insert_tenant_ok [OF assms(1)])
  moreover have "find (\<lambda>t. is_personal t \<and> tnt_owner_user_id t = user) (tenants db) = None"
    using assms(3) by (auto simp: find_None_iff)
  ultimately have up: "upsert_personal_tenant (gen_tenant g) now (tenant_name n) user db
      = Inr (gen_tenant g, True, ?db1)"
    by (simp add: upsert_personal_tenant_def)
  have no: "\<forall>m\<in>set (memberships db). mbr_tenant_id m \<noteq> gen_tenant g"
    using assms(1,4) by (metis image_eqI membership_tenant)
  have ins: "insert_membership ?m ?db1 = Inr ?db2"
    using assms(2,5) no
    by (auto simp: insert_membership_def new_membership_def new_tenant_def status_check_def role_check_def)
  then have ok2: "schema_ok ?db2" by (rule insert_membership_ok [OF ok1])
  have "find (\<lambda>m. mbr_user_id m = user \<and> mbr_tenant_id m = gen_tenant g) (memberships db) = None"
    using no by (auto simp: find_None_iff)
  with ins have um: "upsert_membership (gen_membership g) now user (gen_tenant g) ?db1
      = Inr (gen_membership g, ?db2)"
    by (simp add: upsert_membership_def)
  show ?thesis
    using up um tenant_status_of [OF ok1, of ?t] membership_status_of [OF ok2, of ?m]
    by (simp add: finish_0004_def sql_differs_def new_tenant_def new_membership_def)
qed

section \<open>Calls with a given outcome\<close>

lemma provision_0004_known_row:
  assumes "schema_ok db" and "app_signup_allowed (Some e) db" and "lower (btrim e) \<noteq> []"
    and "nullif_blank x = Some s"
    and "bound_row db (out_user_id r) (lower (btrim e)) (Some s) ''active'' u"
    and "provisioned_rows db r m u t" and "all_active (m, u, t)"
    and "at_subject_lookup conc db = db" and "at_locked_user conc db = db"
  shows "provision_0004 conc g now (Some e) x n db = Inr (r\<lparr>out_created := False\<rparr>, db)"
proof -
  have "find (\<lambda>u. usr_external_id u = Some s) (users db) = Some u"
    by (rule find_unique) (use assms in \<open>auto simp: bound_row_def intro: user_subject_key\<close>)
  with assms(5,9) have "resolve_user_0004 conc (gen_user g) now e (lower (btrim e)) s db
      = Inr (out_user_id r, ''active'', db)"
    by (auto simp: resolve_user_0004_def bound_row_def)
  with assms finish_0004_existing [OF assms(1,6,7)] show ?thesis
    by (simp add: provision_0004_def signup_allowed_normalized)
qed

section \<open>The rules are what the function does\<close>

text \<open>The user resolution refines the binding rules: it refuses with exactly the error the rule
  names, hands over exactly the user the rule names, or creates a new user.\<close>

lemma resolve_user_0004_follows_rules:
  assumes "schema_ok db" and "gen \<notin> usr_id ` set (users db)"
  shows "case binding_decision db (lower (btrim e)) s of
      Refuse err \<Rightarrow> resolve_user_0004 quiet gen now e (lower (btrim e)) s db = Inl err
    | Hand_over i \<Rightarrow> \<exists>st db'. resolve_user_0004 quiet gen now e (lower (btrim e)) s db = Inr (i, st, db')
    | Create \<Rightarrow> resolve_user_0004 quiet gen now e (lower (btrim e)) s db = Inr (gen, ACTIVE,
        db\<lparr>users := users db @ [new_user gen now (btrim e) (Some s)]\<rparr>)"
proof (cases "bindings db s")
  case (Some i)
  obtain u where u: "find (\<lambda>u. usr_external_id u = Some s) (users db) = Some u" "usr_id u = i"
    using bindings_find [OF Some] by blast
  show ?thesis
  proof (cases "\<exists>w\<in>set (users db). email_normalized w = lower (btrim e) \<and> usr_id w \<noteq> i")
    case True
    then have "email_normalized u \<noteq> lower (btrim e)"
      using u find_Some_D [OF u(1)] by (metis user_email_key [OF assms(1)])
    with True u Some show ?thesis
      by (auto simp: binding_decision_def resolve_user_0004_def list_ex_iff)
  next
    case False
    then show ?thesis
      using Some resolve_user_0004_known [OF assms(1) Some] by (auto simp: binding_decision_def)
  qed
next
  case None
  then have n: "find (\<lambda>u. usr_external_id u = Some s) (users db) = None"
    by (simp add: bindings_def)
  show ?thesis
    using None n resolve_user_0004_new [OF assms(2) None]
    by (auto simp: binding_decision_def resolve_user_0004_def split: option.splits)
qed

text \<open>A first sign-in: an allowlisted address and a subject nobody holds.\<close>

lemma first_sign_in_creates:
  assumes "schema_ok db" and "app_signup_allowed (Some e) db" and "lower (btrim e) \<noteq> []"
    and "nullif_blank x = Some s" and "binding_decision db (lower (btrim e)) s = Create"
    and "gen_user g \<notin> usr_id ` set (users db)" and "gen_tenant g \<notin> tnt_id ` set (tenants db)"
    and "gen_membership g \<notin> mbr_id ` set (memberships db)"
  shows "\<exists>db'. provision_0004 quiet g now (Some e) x n db = Inr (\<lparr>out_user_id = gen_user g,
    out_tenant_id = gen_tenant g, out_membership_id = gen_membership g, out_created = True\<rparr>, db')"
proof -
  have none: "bindings db s = None"
    and email: "find (\<lambda>u. email_normalized u = lower (btrim e)) (users db) = None"
    using assms(5) by (auto simp: binding_decision_def split: option.splits if_splits)
  let ?u = "new_user (gen_user g) now (btrim e) (Some s)"
  let ?db1 = "db\<lparr>users := users db @ [?u]\<rparr>"
  have res: "resolve_user_0004 quiet (gen_user g) now e (lower (btrim e)) s db
      = Inr (gen_user g, ACTIVE, ?db1)"
    by (rule resolve_user_0004_new [OF assms(6) none email])
  have ok: "schema_ok ?db1"
    using resolve_user_0004_Inr [OF res quiet_seen [OF assms(1)]] by simp
  have "\<forall>t\<in>set (tenants db). tnt_owner_user_id t \<noteq> gen_user g"
    using assms(6) by (metis image_eqI tenant_owner [OF assms(1)])
  then obtain db' where "finish_0004 g now n (gen_user g, ''active'', ?db1) = Inr (\<lparr>out_user_id = gen_user g,
      out_tenant_id = gen_tenant g, out_membership_id = gen_membership g, out_created = True\<rparr>, db')"
    using finish_0004_fresh [OF ok, of "gen_user g" g now n] assms(7,8)
    by (auto simp: new_user_def)
  with res assms(2-4) show ?thesis
    by (simp add: provision_0004_def signup_allowed_normalized)
qed

text \<open>The resolution writes users only, and the end of a call gives the user rows or finds a
  disabled one: with new identifiers no constraint stops it.\<close>

lemma resolve_user_0004_rest:
  "resolve_user_0004 quiet gen now e v s db = Inr (i, st, db')
    \<Longrightarrow> tenants db' = tenants db \<and> memberships db' = memberships db"
  by (auto simp: resolve_user_0004_def insert_or_reread_0004_def update_user_email_def
      insert_user_def Let_def split: option.splits if_splits)

lemma upsert_membership_total:
  assumes "schema_ok db" and "user \<in> usr_id ` set (users db)" and "tenant \<in> tnt_id ` set (tenants db)"
    and "gen \<notin> mbr_id ` set (memberships db)"
  shows "\<exists>i db'. upsert_membership gen now user tenant db = Inr (i, db')"
proof (cases "find (\<lambda>m. mbr_user_id m = user \<and> mbr_tenant_id m = tenant) (memberships db)")
  case None
  then have "\<exists>db'. insert_membership (new_membership gen now user tenant ROLE_OWNER) db = Inr db'"
    using assms(2-4) by (auto simp: insert_membership_def new_membership_def status_check_def
        role_check_def find_None_iff)
  with None show ?thesis by (auto simp: upsert_membership_def)
qed (simp add: upsert_membership_def)

lemma upsert_personal_tenant_total:
  assumes "schema_ok db" and "user \<in> usr_id ` set (users db)"
    and "gen \<notin> tnt_id ` set (tenants db)"
  shows "\<exists>i c db'. upsert_personal_tenant gen now name user db = Inr (i, c, db') \<and> schema_ok db'
    \<and> i \<in> tnt_id ` set (tenants db') \<and> users db' = users db \<and> memberships db' = memberships db"
proof (cases "find (\<lambda>t. is_personal t \<and> tnt_owner_user_id t = user) (tenants db)")
  case None
  let ?t = "new_tenant gen now name KIND_PERSONAL user"
  have "insert_tenant ?t db = Inr (db\<lparr>tenants := tenants db @ [?t]\<rparr>)"
    using assms(2,3) None
    by (auto simp: insert_tenant_def new_tenant_def status_check_def kind_check_def find_None_iff)
  with None insert_tenant_ok [OF assms(1) this] show ?thesis
    by (auto simp: upsert_personal_tenant_def new_tenant_def)
next
  case (Some t)
  then have "tnt_id t \<in> tnt_id ` set (tenants db)" by (auto dest: find_Some_D)
  with Some assms(1) show ?thesis by (auto simp: upsert_personal_tenant_def)
qed

text \<open>When an account is out of use: the user, the user's personal tenant or the membership in it is
  disabled.  The end of a call refuses exactly then.\<close>

definition disabled_account :: "database \<Rightarrow> uuid \<Rightarrow> bool" where
  "disabled_account db i = ((\<exists>u\<in>set (users db). usr_id u = i \<and> usr_status u \<noteq> ACTIVE)
     \<or> (\<exists>t\<in>set (tenants db). is_personal t \<and> tnt_owner_user_id t = i \<and> (tnt_status t \<noteq> ACTIVE
          \<or> (\<exists>m\<in>set (memberships db). mbr_user_id m = i \<and> mbr_tenant_id m = tnt_id t \<and> mbr_status m \<noteq> ACTIVE))))"

text \<open>The end of a call looks at one tenant and one membership: the user's, or new ones, which are active.\<close>

lemma finish_0004_looks_at:
  assumes "schema_ok db" and u: "u \<in> set (users db)"
    and fresh: "gen_tenant g \<notin> tnt_id ` set (tenants db)" "gen_membership g \<notin> mbr_id ` set (memberships db)"
  obtains t m r db' where "is_personal t" and "tnt_owner_user_id t = usr_id u"
    and "mbr_user_id m = usr_id u" and "mbr_tenant_id m = tnt_id t"
    and "t \<notin> set (tenants db) \<Longrightarrow> tnt_status t = ACTIVE \<and> tnt_id t = gen_tenant g"
    and "m \<notin> set (memberships db) \<Longrightarrow> mbr_status m = ACTIVE"
    and "\<And>s. s \<in> set (tenants db) \<Longrightarrow> is_personal s \<Longrightarrow> tnt_owner_user_id s = usr_id u \<Longrightarrow> s = t"
    and "\<And>w. w \<in> set (memberships db) \<Longrightarrow> mbr_user_id w = usr_id u \<Longrightarrow> mbr_tenant_id w = tnt_id t \<Longrightarrow> w = m"
    and "out_user_id r = usr_id u"
    and "finish_0004 g now n (usr_id u, usr_status u, db) = (if usr_status u \<noteq> ACTIVE \<or> tnt_status t \<noteq> ACTIVE
      \<or> mbr_status m \<noteq> ACTIVE then Inl identity_disabled else Inr (r, db'))"
proof -
  have known: "usr_id u \<in> usr_id ` set (users db)" using u by simp
  obtain k c db1 where up: "upsert_personal_tenant (gen_tenant g) now (tenant_name n) (usr_id u) db = Inr (k, c, db1)"
    and ok1: "schema_ok db1" "k \<in> tnt_id ` set (tenants db1)" "users db1 = users db" "memberships db1 = memberships db"
    using upsert_personal_tenant_total [OF assms(1) known fresh(1)] by blast
  obtain t where t: "t \<in> set (tenants db1)" "tnt_id t = k" "is_personal t" "tnt_owner_user_id t = usr_id u"
    and old: "set (tenants db) \<subseteq> set (tenants db1)" "\<not> c \<Longrightarrow> db1 = db"
    and new: "c \<Longrightarrow> t = new_tenant (gen_tenant g) now (tenant_name n) KIND_PERSONAL (usr_id u)"
    using upsert_personal_tenant_Inr [OF up] by metis
  have "usr_id u \<in> usr_id ` set (users db1)" "gen_membership g \<notin> mbr_id ` set (memberships db1)"
    using known ok1 fresh(2) by simp_all
  from upsert_membership_total [OF ok1(1) this(1) ok1(2) this(2)]
  obtain j db2 where um: "upsert_membership (gen_membership g) now (usr_id u) k db1 = Inr (j, db2)" by blast
  obtain m where m: "m \<in> set (memberships db2)" "mbr_id m = j" "mbr_user_id m = usr_id u" "mbr_tenant_id m = k"
    and ok2: "schema_ok db2" "set (memberships db1) \<subseteq> set (memberships db2)"
    and own: "m \<notin> set (memberships db1) \<Longrightarrow> m = new_membership (gen_membership g) now (usr_id u) k ROLE_OWNER"
    using upsert_membership_Inr [OF um] ok1(1) by metis
  have seen: "tenant_status k db1 = Some (tnt_status t)" "membership_status j db2 = Some (mbr_status m)"
    using tenant_status_of [OF ok1(1) t(1)] membership_status_of [OF ok2(1) m(1)] t(2) m(2) by simp_all
  show thesis
  proof (rule that [of t m "\<lparr>out_user_id = usr_id u, out_tenant_id = k, out_membership_id = j, out_created = c\<rparr>" db2])
    show "tnt_status t = ACTIVE \<and> tnt_id t = gen_tenant g" if "t \<notin> set (tenants db)"
    proof -
      have c using that old(2) t(1) by blast
      from new [OF this] show ?thesis by (simp add: new_tenant_def)
    qed
    show "mbr_status m = ACTIVE" if "m \<notin> set (memberships db)"
      unfolding own [unfolded ok1(4), OF that] by (simp add: new_membership_def)
    show "s = t" if "s \<in> set (tenants db)" "is_personal s" "tnt_owner_user_id s = usr_id u" for s
      by (rule personal_tenant_key [OF ok1(1) _ t(1)]) (use that old(1) t(3,4) in auto)
    show "w = m" if "w \<in> set (memberships db)" "mbr_user_id w = usr_id u" "mbr_tenant_id w = tnt_id t" for w
      by (rule membership_pair_key [OF ok2(1) _ m(1)]) (use that ok2(2) ok1(4) m(3,4) t(2) in auto)
    show "finish_0004 g now n (usr_id u, usr_status u, db) = (if usr_status u \<noteq> ACTIVE \<or> tnt_status t \<noteq> ACTIVE
        \<or> mbr_status m \<noteq> ACTIVE then Inl identity_disabled else Inr (\<lparr>out_user_id = usr_id u, out_tenant_id = k,
          out_membership_id = j, out_created = c\<rparr>, db2))"
      by (simp add: finish_0004_def up um seen sql_differs_def guard_def)
  qed (simp_all add: t m)
qed

lemma finish_0004_decides:
  assumes "schema_ok db" and u: "u \<in> set (users db)"
    and fresh: "gen_tenant g \<notin> tnt_id ` set (tenants db)" "gen_membership g \<notin> mbr_id ` set (memberships db)"
  shows "if disabled_account db (usr_id u) then finish_0004 g now n (usr_id u, usr_status u, db) = Inl identity_disabled
    else \<exists>r db'. finish_0004 g now n (usr_id u, usr_status u, db) = Inr (r, db') \<and> out_user_id r = usr_id u"
proof (rule finish_0004_looks_at [OF assms, of now n])
  fix t m r db'
  assume t: "is_personal t" "tnt_owner_user_id t = usr_id u" and m: "mbr_user_id m = usr_id u" "mbr_tenant_id m = tnt_id t"
    and new: "t \<notin> set (tenants db) \<Longrightarrow> tnt_status t = ACTIVE \<and> tnt_id t = gen_tenant g"
      "m \<notin> set (memberships db) \<Longrightarrow> mbr_status m = ACTIVE"
    and only: "\<And>s. s \<in> set (tenants db) \<Longrightarrow> is_personal s \<Longrightarrow> tnt_owner_user_id s = usr_id u \<Longrightarrow> s = t"
      "\<And>w. w \<in> set (memberships db) \<Longrightarrow> mbr_user_id w = usr_id u \<Longrightarrow> mbr_tenant_id w = tnt_id t \<Longrightarrow> w = m"
    and out: "out_user_id r = usr_id u"
    and fin: "finish_0004 g now n (usr_id u, usr_status u, db) = (if usr_status u \<noteq> ACTIVE \<or> tnt_status t \<noteq> ACTIVE
      \<or> mbr_status m \<noteq> ACTIVE then Inl identity_disabled else Inr (r, db'))"
  have there: "t \<in> set (tenants db)" if "tnt_status t \<noteq> ACTIVE \<or> m \<in> set (memberships db)"
  proof (rule ccontr)
    assume "t \<notin> set (tenants db)"
    note made = new(1) [OF this]
    with that have "m \<in> set (memberships db)" by blast
    from membership_tenant [OF assms(1) this] fresh(1) made m(2) show False by (metis image_eqI)
  qed
  have "disabled_account db (usr_id u) \<longleftrightarrow> usr_status u \<noteq> ACTIVE \<or> tnt_status t \<noteq> ACTIVE \<or> mbr_status m \<noteq> ACTIVE"
  proof
    assume "disabled_account db (usr_id u)"
    then show "usr_status u \<noteq> ACTIVE \<or> tnt_status t \<noteq> ACTIVE \<or> mbr_status m \<noteq> ACTIVE"
      unfolding disabled_account_def using user_key [OF assms(1) _ u] only by blast
  next
    assume "usr_status u \<noteq> ACTIVE \<or> tnt_status t \<noteq> ACTIVE \<or> mbr_status m \<noteq> ACTIVE"
    then show "disabled_account db (usr_id u)"
      unfolding disabled_account_def using u t m there new(2) by blast
  qed
  with fin have result: "finish_0004 g now n (usr_id u, usr_status u, db)
      = (if disabled_account db (usr_id u) then Inl identity_disabled else Inr (r, db'))" by (simp only:)
  show ?thesis unfolding result using out by simp
qed

lemma disabled_account_growth:
  assumes "growth db db'" and "schema_ok db'" and "u \<in> set (users db)"
    and "tenants db' = tenants db" and "memberships db' = memberships db"
  shows "disabled_account db' (usr_id u) \<longleftrightarrow> disabled_account db (usr_id u)"
proof -
  have "(\<exists>v\<in>set (users db'). usr_id v = usr_id u \<and> usr_status v \<noteq> ACTIVE)
      \<longleftrightarrow> (\<exists>v\<in>set (users db). usr_id v = usr_id u \<and> usr_status v \<noteq> ACTIVE)"
  proof
    assume "\<exists>v\<in>set (users db'). usr_id v = usr_id u \<and> usr_status v \<noteq> ACTIVE"
    then obtain v where v: "v \<in> set (users db')" "usr_id v = usr_id u" "usr_status v \<noteq> ACTIVE" by blast
    obtain w where "w \<in> set (users db')" "usr_id w = usr_id u" "usr_status w = usr_status u"
      using assms(1,3) unfolding growth_def by blast
    with v user_key [OF assms(2) v(1), of w] assms(3) show "\<exists>v\<in>set (users db). usr_id v = usr_id u \<and> usr_status v \<noteq> ACTIVE"
      by auto
  next
    assume "\<exists>v\<in>set (users db). usr_id v = usr_id u \<and> usr_status v \<noteq> ACTIVE"
    with assms(1) show "\<exists>v\<in>set (users db'). usr_id v = usr_id u \<and> usr_status v \<noteq> ACTIVE"
      unfolding growth_def by metis
  qed
  then show ?thesis unfolding disabled_account_def assms(4,5) by simp
qed

end
