(* ===== verification/Samples.thy ===== *)
theory Samples
  imports Provision
begin

text \<open>
  Small concrete databases for the witnesses: an allowlist of two addresses and nobody
  provisioned, one account, an account without a subject, two accounts.
\<close>

definition allow_row :: "uuid \<Rightarrow> string \<Rightarrow> SignupAllowlist" where
  "allow_row i e = \<lparr>alw_id = i, alw_email = e, alw_note = None, alw_created_at = 0,
     alw_updated_at = 0\<rparr>"

definition db_empty :: database where
  "db_empty = \<lparr>signup_allowlist = [allow_row 1 ''Ann@x.io'', allow_row 2 ''bob@x.io''],
     users = [], tenants = [], memberships = []\<rparr>"

definition ids_a :: fresh_ids where
  "ids_a = \<lparr>gen_user = 11, gen_tenant = 12, gen_membership = 13\<rparr>"

definition ids_b :: fresh_ids where
  "ids_b = \<lparr>gen_user = 21, gen_tenant = 22, gen_membership = 23\<rparr>"

definition result_a :: provisioned where
  "result_a = \<lparr>out_user_id = 11, out_tenant_id = 12, out_membership_id = 13, out_created = True\<rparr>"

definition user_a :: User where
  "user_a = new_user 11 5 ''ann@x.io'' (Some ''sub_a'')"

definition tenant_a :: Tenant where
  "tenant_a = new_tenant 12 5 ''Personal'' KIND_PERSONAL 11"

definition member_a :: Membership where
  "member_a = new_membership 13 5 11 12 ROLE_OWNER"

definition db_one :: database where
  "db_one = db_empty\<lparr>users := [user_a], tenants := [tenant_a], memberships := [member_a]\<rparr>"

definition db_unbound :: database where
  "db_unbound = db_empty\<lparr>users := [user_a\<lparr>usr_external_id := None\<rparr>], tenants := [tenant_a],
     memberships := [member_a]\<rparr>"

definition db_two :: database where
  "db_two = db_one\<lparr>users := [user_a, new_user 21 6 ''bob@x.io'' (Some ''sub_b'')],
     tenants := [tenant_a, new_tenant 22 6 ''Bob'' KIND_PERSONAL 21],
     memberships := [member_a, new_membership 23 6 21 22 ROLE_OWNER]\<rparr>"

lemma samples_ok [simp]:
  "schema_ok db_empty" "schema_ok db_one" "schema_ok db_unbound" "schema_ok db_two"
  by code_simp+

end
