(* ===== verification/ProvisionProps.thy ===== *)
theory ProvisionProps
  imports ProvisionRules Samples
begin

text \<open>
  The properties of \<^verbatim>\<open>app.provision_personal_identity\<close> stated over the model's definitions,
  each with a witness on a sample database.
\<close>

section \<open>Who is handed what\<close>

text \<open>C4: A successful provisioning call of migration 0004, whatever other transactions commit
  at its interleaving points, hands out a user that is bound to the presented subject, carries
  the presented address and is active, with an active membership in an active personal tenant
  the user owns; the address is on the allowlist and every constraint still holds.\<close>

theorem provision_0004_hands_own_account:
  assumes "provision_0004 conc g now (Some e) x n db = Inr (r, db')"
    and "interference_ok conc (nullif_blank x) db"
  shows "app_signup_allowed (Some e) db \<and> schema_ok db' \<and> (\<exists>s u m t. nullif_blank x = Some s
    \<and> bound_row db' (out_user_id r) (lower (btrim e)) (Some s) ACTIVE u
    \<and> provisioned_rows db' r m u t \<and> all_active (m, u, t))"
  by (rule provision_0004_Inr [OF assms]) auto

theorem provision_0004_hands_own_account_witness:
  "\<exists>db'. provision_0004 quiet ids_a 5 (Some '' ann@x.io'') (Some ''sub_a'') None db_empty
     = Inr (result_a, db') \<and> schema_ok db'"
proof -
  have p: "provision_0004 quiet ids_a 5 (Some '' ann@x.io'') (Some ''sub_a'') None db_empty
      = Inr (result_a, db_one)"
    by code_simp
  from provision_0004_hands_own_account [OF p] p show ?thesis by simp
qed

text \<open>C5: After any sequence of bootstrap calls (each rolled back when it raises), two
  successful calls for two different subjects name two different users: no subject is ever
  handed another subject's account.\<close>

theorem provision_0004_subjects_never_share:
  assumes "schema_ok db"
    and "provision_0004 quiet g1 n1 e1 x1 m1 db = Inr (r1, db1)"
    and "provision_0004 quiet g2 n2 e2 x2 m2 (run_calls (provision_0004 quiet) cs db1) = Inr (r2, db3)"
    and "nullif_blank x1 \<noteq> nullif_blank x2"
  shows "out_user_id r1 \<noteq> out_user_id r2"
proof -
  obtain s1 s2 where "nullif_blank x1 = Some s1" "nullif_blank x2 = Some s2"
    using v4.prov_subject [OF assms(2)] v4.prov_subject [OF assms(3)] by blast
  with assms show ?thesis
    using v4.distinct_subjects_distinct_users [OF assms(1-3)] by simp
qed

theorem provision_0004_subjects_never_share_witness:
  "\<exists>r. provision_0004 quiet ids_b 6 (Some ''bob@x.io'') (Some ''sub_b'') (Some ''Bob'') db_one
       = Inr (r, db_two) \<and> out_user_id result_a \<noteq> out_user_id r"
proof -
  have a: "provision_0004 quiet ids_a 5 (Some ''ann@x.io'') (Some ''sub_a'') None db_empty
      = Inr (result_a, db_one)"
    by code_simp
  have b: "provision_0004 quiet ids_b 6 (Some ''bob@x.io'') (Some ''sub_b'') (Some ''Bob'')
        (run_calls (provision_0004 quiet) [] db_one)
      = Inr (\<lparr>out_user_id = 21, out_tenant_id = 22, out_membership_id = 23, out_created = True\<rparr>, db_two)"
    by code_simp
  have "nullif_blank (Some ''sub_a'') \<noteq> nullif_blank (Some ''sub_b'')" by code_simp
  from provision_0004_subjects_never_share [OF samples_ok(1) a b this] b show ?thesis by auto
qed

text \<open>C6: An account that exists is handed out by migration 0004 only to the subject it is
  already bound to: neither an email address nor a first-subject adoption claims it.\<close>

theorem provision_0004_never_claims:
  assumes "schema_ok db" and "provision_0004 quiet g now e x n db = Inr (r, db')"
    and "u \<in> set (users db)" and "usr_id u = out_user_id r"
  shows "usr_external_id u = nullif_blank x \<and> usr_external_id u \<noteq> None"
  using v4.handed_out_to_owner assms .

theorem provision_0004_never_claims_witness:
  "usr_external_id user_a = nullif_blank (Some '' sub_a'')"
proof -
  have p: "provision_0004 quiet ids_b 9 (Some ''ANN@x.io'') (Some '' sub_a'') None db_one
      = Inr (result_a\<lparr>out_created := False\<rparr>, db_one)"
    by code_simp
  have "user_a \<in> set (users db_one)" "usr_id user_a = out_user_id (result_a\<lparr>out_created := False\<rparr>)"
    by code_simp+
  from provision_0004_never_claims [OF samples_ok(2) p this] show ?thesis by simp
qed


section \<open>Repeated and concurrent calls\<close>

text \<open>C22: Provisioning is idempotent: repeating a successful call of migration 0004, at any
  later time and whatever identifiers it would draw, returns the same user, tenant and
  membership, reports nothing created and leaves the database as it is.\<close>

theorem provision_0004_idempotent:
  assumes "schema_ok db" and "provision_0004 quiet g now e x n db = Inr (r, db')"
    and "at_subject_lookup conc db' = db'" and "at_locked_user conc db' = db'"
  shows "provision_0004 conc g' now' e x n' db' = Inr (r\<lparr>out_created := False\<rparr>, db')"
proof -
  obtain em where e: "e = Some em" using assms(2) by (cases e) (auto simp: provision_0004_def)
  note call = assms(2) [unfolded e]
  have same: "signup_allowlist db' = signup_allowlist db"
    using v4.prov_growth [OF assms(1,2)] by (simp add: growth_def)
  show ?thesis
    unfolding e
  proof (rule provision_0004_Inr [OF call quiet_ok [OF assms(1)]])
    fix s u m t
    assume "nullif_blank x = Some s" "lower (btrim em) \<noteq> []" "app_signup_allowed (Some em) db"
      "schema_ok db'" "bound_row db' (out_user_id r) (lower (btrim em)) (Some s) ''active'' u"
      "provisioned_rows db' r m u t" "all_active (m, u, t)"
    moreover from this same have "app_signup_allowed (Some em) db'"
      by (simp add: app_signup_allowed_def)
    ultimately show "provision_0004 conc g' now' (Some em) x n' db' = Inr (r\<lparr>out_created := False\<rparr>, db')"
      using assms(3,4) by (intro provision_0004_known_row)
  qed
qed

theorem provision_0004_idempotent_witness:
  "provision_0004 quiet ids_b 77 (Some ''ann@x.io'') (Some ''sub_a'') (Some ''Other'') db_one
     = Inr (result_a\<lparr>out_created := False\<rparr>, db_one)"
proof -
  have p: "provision_0004 quiet ids_a 5 (Some ''ann@x.io'') (Some ''sub_a'') None db_empty
      = Inr (result_a, db_one)"
    by code_simp
  show ?thesis by (rule provision_0004_idempotent [OF samples_ok(1) p]) simp_all
qed

text \<open>C23: Two concurrent first sign-ins of one subject converge when the other call commits
  between the lookup by email and the insertion of the user: the call returns the rows the
  other one created.\<close>

theorem concurrent_insert_converges:
  assumes "schema_ok db" and "provision_0004 quiet g1 n1 (Some e) x m1 db = Inr (r1, db1)"
    and "bindings db (the (nullif_blank x)) = None"
    and "\<forall>u\<in>set (users db). email_normalized u \<noteq> lower (btrim e)"
    and "at_subject_lookup conc db = db" and "at_email_lookup conc db = db" and "at_user_insert conc db = db1"
  shows "provision_0004 conc g2 n2 (Some e) x m2 db = Inr (r1\<lparr>out_created := False\<rparr>, db1)"
proof (rule provision_0004_Inr [OF assms(2) quiet_ok [OF assms(1)]])
  fix s u m t
  assume s: "nullif_blank x = Some s" and e: "lower (btrim e) \<noteq> []"
    and al: "app_signup_allowed (Some e) db" and ok: "schema_ok db1"
    and row: "bound_row db1 (out_user_id r1) (lower (btrim e)) (Some s) ''active'' u"
    and rows: "provisioned_rows db1 r1 m u t" and act: "all_active (m, u, t)"
  have "find (\<lambda>u. usr_external_id u = Some s) (users db) = None"
    using assms(3) s by (simp add: bindings_def)
  moreover have "find (\<lambda>u. email_normalized u = lower (btrim e)) (users db) = None"
    using assms(4) by (auto simp: find_None_iff)
  moreover have "find (\<lambda>u. email_normalized u = lower (btrim e)) (users db1) = Some u"
    by (rule find_unique) (use row in \<open>auto simp: bound_row_def intro: user_email_key [OF ok]\<close>)
  ultimately have "resolve_user_0004 conc (gen_user g2) n2 e (lower (btrim e)) s db
      = Inr (out_user_id r1, ''active'', db1)"
    using row assms(6,7) by (simp add: resolve_user_0004_def insert_or_reread_0004_def bound_row_def)
  then show ?thesis
    using s e al assms(5) finish_0004_existing [OF ok rows act]
    by (simp add: provision_0004_def signup_allowed_normalized)
qed

theorem concurrent_insert_converges_witness:
  "provision_0004 (quiet\<lparr>at_user_insert := (\<lambda>_. db_one)\<rparr>) ids_b 6 (Some ''ann@x.io'')
     (Some ''sub_a'') None db_empty = Inr (result_a\<lparr>out_created := False\<rparr>, db_one)"
proof -
  have p: "provision_0004 quiet ids_a 5 (Some ''ann@x.io'') (Some ''sub_a'') None db_empty
      = Inr (result_a, db_one)"
    by code_simp
  show ?thesis
    by (rule concurrent_insert_converges [OF samples_ok(1) p]) (simp_all add: bindings_def db_empty_def)
qed

text \<open>C24: When the other first sign-in of the same subject commits one statement earlier,
  between the lookup by subject and the lookup by email, the call is refused with the
  subject-conflict SQLSTATE although the row it found is bound to the very subject it presents;
  version 0003 compares the two subjects there and returns the row.  Repeating the refused call
  afterwards returns it too.\<close>

theorem concurrent_lookup_refuses_own_subject:
  assumes "schema_ok db" and "provision_0004 quiet g1 n1 (Some e) x m1 db = Inr (r1, db1)"
    and "bindings db (the (nullif_blank x)) = None"
    and "at_subject_lookup conc db = db" and "at_email_lookup conc db = db1"
  shows "provision_0004 conc g2 n2 (Some e) x m2 db = Inl external_subject_conflict
    \<and> bindings db1 (the (nullif_blank x)) = Some (out_user_id r1)
    \<and> provision_0003 conc g2 n2 (Some e) x m2 db = Inr (r1\<lparr>out_created := False\<rparr>, db1)
    \<and> provision_0004 quiet g3 n3 (Some e) x m3 db1 = Inr (r1\<lparr>out_created := False\<rparr>, db1)"
proof (rule provision_0004_Inr [OF assms(2) quiet_ok [OF assms(1)]])
  fix s u m t
  assume s: "nullif_blank x = Some s" and e: "lower (btrim e) \<noteq> []"
    and al: "app_signup_allowed (Some e) db" and ok: "schema_ok db1"
    and row: "bound_row db1 (out_user_id r1) (lower (btrim e)) (Some s) ''active'' u"
    and rows: "provisioned_rows db1 r1 m u t" and act: "all_active (m, u, t)"
  have none: "find (\<lambda>u. usr_external_id u = Some s) (users db) = None"
    using assms(3) s by (simp add: bindings_def)
  have found: "find (\<lambda>u. email_normalized u = lower (btrim e)) (users db1) = Some u"
    by (rule find_unique) (use row in \<open>auto simp: bound_row_def intro: user_email_key [OF ok]\<close>)
  have "resolve_user_0004 conc (gen_user g2) n2 e (lower (btrim e)) s db = Inl external_subject_conflict"
    using none found row assms(5) by (simp add: resolve_user_0004_def bound_row_def)
  moreover have "resolve_user_0003 conc (gen_user g2) n2 e (lower (btrim e)) (Some s) db
      = Inr (out_user_id r1, ''active'', db1)"
    using none found row assms(5)
    by (simp add: resolve_user_0003_def adopt_0003_def bound_row_def)
  moreover have "finish_0003 g2 n2 m2 (out_user_id r1, ''active'', db1) = Inr (r1\<lparr>out_created := False\<rparr>, db1)"
    by (rule finish_0004_0003) (rule finish_0004_existing [OF ok rows act])
  moreover have "bindings db1 s = Some (out_user_id r1)"
    using row bindings_of_user [OF ok] by (auto simp: bound_row_def)
  moreover have "app_signup_allowed (Some e) db1"
    using al v4.prov_growth [OF assms(1,2)] by (simp add: app_signup_allowed_def growth_def)
  then have "provision_0004 quiet g3 n3 (Some e) x m3 db1 = Inr (r1\<lparr>out_created := False\<rparr>, db1)"
    by (intro provision_0004_known_row [OF ok _ e s row rows act]) simp_all
  ultimately show ?thesis
    using s e al assms(4)
    by (simp add: provision_0004_def provision_0003_def signup_allowed_normalized)
qed

theorem concurrent_lookup_refuses_own_subject_witness:
  "provision_0004 (quiet\<lparr>at_email_lookup := (\<lambda>_. db_one)\<rparr>) ids_b 6 (Some ''ann@x.io'')
     (Some ''sub_a'') None db_empty = Inl external_subject_conflict"
proof -
  have p: "provision_0004 quiet ids_a 5 (Some ''ann@x.io'') (Some ''sub_a'') None db_empty
      = Inr (result_a, db_one)"
    by code_simp
  from concurrent_lookup_refuses_own_subject [OF samples_ok(1) p,
      of "quiet\<lparr>at_email_lookup := (\<lambda>_. db_one)\<rparr>"]
  show ?thesis by (simp add: bindings_def db_empty_def)
qed

section \<open>Sequences of calls\<close>

text \<open>C18: Sequences of bootstrap calls keep every constraint of the schema, never write the
  allowlist, lose or alter no tenant and no membership, keep every user's identifier, status and
  subject, and bind no user that had no subject.\<close>

theorem provision_0004_run_invariant:
  assumes "schema_ok db"
  shows "schema_ok (run_calls (provision_0004 quiet) cs db)
    \<and> growth db (run_calls (provision_0004 quiet) cs db)
    \<and> no_adoption db (run_calls (provision_0004 quiet) cs db)"
  using v4.run_schema v4.run_growth v4.run_no_adoption assms by blast

theorem provision_0004_run_invariant_witness:
  "no_adoption db_unbound (run_calls (provision_0004 quiet)
     [\<lparr>call_ids = ids_b, call_now = 9, call_email = Some ''ann@x.io'', call_subject = Some ''sub_z'',
       call_name = None\<rparr>] db_unbound)"
  using provision_0004_run_invariant [OF samples_ok(3)] by blast

end
