(* ===== verification/Exceptions.thy ===== *)
theory Exceptions
  imports Provision
begin

text \<open>
  The exceptions of the backend.  A class that only carries a message is a constructor with the
  message; \<open>exn\<close> joins the hierarchies, the database driver's errors and the ones FastAPI
  turns into a response.
\<close>

text \<open>\<^verbatim>\<open>backend/identity/errors.py\<close>\<close>

datatype identity_error =
    SignupNotAllowed string
  | IdentityDisabled string
  | ExternalSubjectConflict string
  | EmailAlreadyBound string
  | SubjectRequired string
  | SubjectBindingRequired string
  | InvalidIdentityInput string

text \<open>\<^verbatim>\<open>backend/auth/errors.py\<close>\<close>

datatype auth_error =
    AccessDenied string
  | ProfileUnavailable string
  | RateLimited string

text \<open>\<^verbatim>\<open>TokenError\<close> and its subclass \<^verbatim>\<open>AuthNotConfigured\<close> in \<^verbatim>\<open>backend/auth/tokens.py\<close>.\<close>

datatype token_error =
    TokenError string
  | AuthNotConfigured string

datatype exn =
    IdentityError identity_error
  | AuthError auth_error
  | TokenErrorExn token_error
  | TenantContextError string
  | ValueError string
  | DBAPIError db_error
  | HTTPException int string
  | AssertionError
  | OtherException string

end
