(* ===== verification/Uuid.thy ===== *)
theory Uuid
  imports Schema
begin

text \<open>
  The text form of a tenant identifier: Python's \<^verbatim>\<open>str(UUID)\<close>, which \<^verbatim>\<open>tenant_scope\<close> binds
  as the value of the setting, and PostgreSQL's \<^verbatim>\<open>text::uuid\<close> cast, by which
  \<^verbatim>\<open>app.current_tenant_id\<close> reads it back.
\<close>

section \<open>Hexadecimal digits\<close>

definition hex_digit :: "nat \<Rightarrow> char" where
  "hex_digit n = (if n < 10 then char_of (48 + n) else char_of (87 + n))"

definition hex_value :: "char \<Rightarrow> nat option" where
  "hex_value c = (let n = code c in
     if 48 \<le> n \<and> n \<le> 57 then Some (n - 48)
     else if 97 \<le> n \<and> n \<le> 102 then Some (n - 87)
     else if 65 \<le> n \<and> n \<le> 70 then Some (n - 55) else None)"

text \<open>\<open>k\<close> hexadecimal digits of a number, most significant first.\<close>

primrec hex_digits :: "nat \<Rightarrow> nat \<Rightarrow> string" where
  "hex_digits 0 n = []"
| "hex_digits (Suc k) n = hex_digits k (n div 16) @ [hex_digit (n mod 16)]"

section \<open>str(UUID)\<close>

definition uuid_hyphens :: "string \<Rightarrow> string" where
  "uuid_hyphens h = take 8 h @ ''-'' @ take 4 (drop 8 h) @ ''-'' @ take 4 (drop 12 h) @ ''-''
     @ take 4 (drop 16 h) @ ''-'' @ drop 20 h"

definition uuid_str :: "uuid \<Rightarrow> string" where
  "uuid_str u = uuid_hyphens (hex_digits 32 (unat u))"

section \<open>text::uuid\<close>

text \<open>
  PostgreSQL's input function: sixteen pairs of hexadecimal digits, an optional hyphen after
  every second pair but the last, the whole optionally in braces; anything else is an error.
  \<open>uuid_bytes i acc s\<close> reads pair number \<open>i\<close>.
\<close>

fun uuid_bytes :: "nat \<Rightarrow> nat \<Rightarrow> nat \<Rightarrow> string \<Rightarrow> (nat \<times> string) option" where
  "uuid_bytes 0 i acc s = Some (acc, s)"
| "uuid_bytes (Suc k) i acc (a # b # s) =
     (case (hex_value a, hex_value b) of
        (Some x, Some y) \<Rightarrow>
          uuid_bytes k (Suc i) (acc * 256 + (x * 16 + y))
            (case s of [] \<Rightarrow> []
             | c # s' \<Rightarrow> if c = CHR ''-'' \<and> odd i \<and> k \<noteq> 0 then s' else s)
      | _ \<Rightarrow> None)"
| "uuid_bytes (Suc k) i acc _ = None"

definition uuid_in :: "string \<Rightarrow> uuid option" where
  "uuid_in s =
     (let (braces, body) = (case s of [] \<Rightarrow> (False, s)
        | c # s' \<Rightarrow> if c = CHR ''{'' then (True, s') else (False, s))
      in case uuid_bytes 16 0 0 body of
           None \<Rightarrow> None
         | Some (n, rest) \<Rightarrow>
             if rest = (if braces then ''}'' else '''') then Some (of_nat n) else None)"

section \<open>Reading back what was written\<close>

lemma hex_value_digit [simp]: "n < 16 \<Longrightarrow> hex_value (hex_digit n) = Some n"
  by (auto simp: hex_value_def hex_digit_def Let_def)

lemma code_hex_digit: "n < 16 \<Longrightarrow> code (hex_digit n) \<in> {48..57} \<union> {97..102}"
  by (auto simp: hex_digit_def)

lemma hex_digit_not_hyphen: "n < 16 \<Longrightarrow> hex_digit n \<noteq> CHR ''-'' \<and> hex_digit n \<noteq> CHR ''{''
    \<and> \<not> py_space (hex_digit n) \<and> \<not> blank (hex_digit n)"
  using code_hex_digit [of n] by (auto simp: code_def py_space_def blank_def)

lemma length_hex_digits [simp]: "length (hex_digits k n) = k"
  by (induction k arbitrary: n) simp_all

text \<open>A list of digit values read as a number in base 16.\<close>

lemma hex_digits_append:
  "hex_digits (j + k) n = hex_digits j (n div 16 ^ k) @ hex_digits k n"
  by (induction k arbitrary: n) (simp_all add: div_mult2_eq mult.commute)

definition hex_pair :: "nat \<Rightarrow> string" where
  "hex_pair n = [hex_digit (n div 16 mod 16), hex_digit (n mod 16)]"

lemma hex_digits_two: "hex_digits 2 n = hex_pair n"
  by (simp add: hex_pair_def numeral_2_eq_2)

lemma uuid_bytes_pair:
  "uuid_bytes (Suc k) i acc (hex_pair n @ s) = uuid_bytes k (Suc i) (acc * 256 + n mod 256)
     (case s of [] \<Rightarrow> [] | c # s' \<Rightarrow> if c = CHR ''-'' \<and> odd i \<and> k \<noteq> 0 then s' else s)"
proof -
  have "n div 16 mod 16 * 16 + n mod 16 = n mod 256"
    using mod_mult2_eq [of n 16 16] by simp
  then show ?thesis by (simp add: hex_pair_def)
qed

text \<open>The text of \<open>k\<close> pairs from pair number \<open>i\<close> on, with a hyphen after each pair whose
  number is in \<open>H\<close>; \<open>g j\<close> is the pair with \<open>j\<close> pairs behind it.\<close>

primrec pairs_text :: "nat set \<Rightarrow> (nat \<Rightarrow> string) \<Rightarrow> nat \<Rightarrow> nat \<Rightarrow> string" where
  "pairs_text H g 0 i = []"
| "pairs_text H g (Suc k) i = g k @ (if i \<in> H then ''-'' else []) @ pairs_text H g k (Suc i)"

abbreviation pair_of :: "nat \<Rightarrow> nat \<Rightarrow> string" where
  "pair_of n \<equiv> \<lambda>j. hex_pair (n div 256 ^ j)"

lemma pairs_text_first:
  "k \<noteq> 0 \<Longrightarrow> \<exists>c s. pairs_text H (pair_of n) k i = c # s \<and> c \<noteq> CHR ''-''"
  by (cases k) (auto simp: hex_pair_def hex_digit_not_hyphen)

lemma uuid_bytes_pairs_text:
  assumes "\<forall>j\<in>H. odd j \<and> j + 1 < i + k"
  shows "uuid_bytes k i (n div 256 ^ k) (pairs_text H (pair_of n) k i @ rest) = Some (n, rest)"
  using assms
proof (induction k arbitrary: i)
  case (Suc k)
  let ?s = "(if i \<in> H then ''-'' else []) @ pairs_text H (pair_of n) k (Suc i) @ rest"
  have "n div 256 ^ Suc k = n div 256 ^ k div 256"
    by (metis div_mult2_eq power_Suc2)
  then have acc: "n div 256 ^ Suc k * 256 + (n div 256 ^ k) mod 256 = n div 256 ^ k"
    by simp
  have "(case ?s of [] \<Rightarrow> [] | c # s' \<Rightarrow> if c = CHR ''-'' \<and> odd i \<and> k \<noteq> 0 then s' else ?s)
      = pairs_text H (pair_of n) k (Suc i) @ rest"
  proof (cases "i \<in> H")
    case True
    from bspec [OF Suc.prems True] have "odd i" and "k \<noteq> 0" by simp_all
    with True show ?thesis by simp
  next
    case False
    show ?thesis
    proof (cases "k = 0")
      case True
      with \<open>i \<notin> H\<close> show ?thesis by (auto split: list.splits)
    next
      case k: False
      obtain c s where "pairs_text H (pair_of n) k (Suc i) = c # s" "c \<noteq> CHR ''-''"
        using pairs_text_first [OF k] by blast
      with \<open>i \<notin> H\<close> show ?thesis by simp
    qed
  qed
  moreover have "\<forall>j\<in>H. odd j \<and> j + 1 < Suc i + k"
    using Suc.prems by auto
  ultimately show ?case
    using Suc.IH [of "Suc i"] acc by (simp only: pairs_text.simps append_assoc uuid_bytes_pair)
qed simp

lemma hex_digits_pairs: "hex_digits (2 * k) n = pairs_text {} (pair_of n) k i"
proof (induction k arbitrary: i)
  case (Suc k)
  have "(16::nat) ^ (2 * k) = 256 ^ k" by (simp add: power_mult)
  then have "hex_digits (2 + 2 * k) n = hex_pair (n div 256 ^ k) @ hex_digits (2 * k) n"
    by (simp only: hex_digits_append hex_digits_two)
  with Suc show ?case by (simp only: pairs_text.simps) simp
qed simp

lemma uuid_hyphens_pairs:
  assumes "\<And>j. g j = [a j, b j]"
  shows "uuid_hyphens (pairs_text {} g 16 0) = pairs_text {3, 5, 7, 9} g 16 0"
  by (simp add: assms uuid_hyphens_def eval_nat_numeral)

lemma uuid_str_pairs: "uuid_str u = pairs_text {3, 5, 7, 9} (pair_of (unat u)) 16 0"
  using uuid_hyphens_pairs [of "pair_of (unat u)"] hex_digits_pairs [of 16 "unat u" 0]
  by (simp add: uuid_str_def hex_pair_def)

text \<open>No character of the text is white space, so trimming keeps it.\<close>

lemma set_hex_pair: "set (hex_pair n) \<subseteq> hex_digit ` {..<16}"
  by (auto simp: hex_pair_def)

lemma set_pairs_text: "set (pairs_text H (pair_of n) k i) \<subseteq> insert (CHR ''-'') (hex_digit ` {..<16})"
  using set_hex_pair by (induction k arbitrary: i) auto

lemma uuid_str_char:
  assumes "c \<in> set (uuid_str u)"
  shows "\<not> blank c \<and> c \<noteq> CHR ''{''"
proof -
  have "c = CHR ''-'' \<or> (\<exists>d<16. c = hex_digit d)"
    using assms set_pairs_text [of "{3, 5, 7, 9}" "unat u" 16 0] unfolding uuid_str_pairs by blast
  then show ?thesis using hex_digit_not_hyphen by (auto simp: blank_def code_def)
qed

lemma uuid_str_not_Nil [simp]: "uuid_str u \<noteq> []"
  by (simp add: uuid_str_def uuid_hyphens_def)

lemma btrim_uuid_str [simp]: "btrim (uuid_str u) = uuid_str u"
  unfolding btrim_def trim_id_iff using uuid_str_char [of _ u] by auto

lemma uuid_in_str [simp]: "uuid_in (uuid_str u) = Some u"
proof -
  have "unat u < 2 ^ 128" using unsigned_less [of u] by simp
  then have "uuid_bytes 16 0 0 (uuid_str u) = Some (unat u, [])"
    using uuid_bytes_pairs_text [of "{3, 5, 7, 9}" 0 16 "unat u" "[]"]
    by (simp add: uuid_str_pairs)
  moreover obtain c s where "uuid_str u = c # s" "c \<noteq> CHR ''{''"
    using uuid_str_char [of _ u] uuid_str_not_Nil [of u] by (cases "uuid_str u") auto
  ultimately show ?thesis by (simp add: uuid_in_def)
qed

end
