(* ===== verification/TenantScope.thy ===== *)
theory TenantScope
  imports Exceptions Uuid
begin

text \<open>
  The transaction-local tenant context of \<^verbatim>\<open>backend/storage/tenant_context.py\<close>, the row-level
  security policies of migration 0002 that read it, and the tenant-scoped repository of
  \<^verbatim>\<open>backend/identity/repository.py\<close>.  A session is the SQLAlchemy session together with the
  state its database transaction has; the role is the runtime role, to which the policies apply.
\<close>

section \<open>Sessions\<close>

text \<open>A value of \<^verbatim>\<open>session.info\<close> or an argument, as far as \<^verbatim>\<open>isinstance(x, UUID)\<close> tells.\<close>

datatype py_value = PyUUID uuid | PyOther

record session =
  info :: "string \<Rightarrow> py_value option"
  in_transaction :: bool
  aborted :: bool
  guc_tenant_id :: "string option"
  contents :: database

definition SCOPE_KEY :: string where "SCOPE_KEY = ''vespers_tenant_scope''"

definition in_failed_transaction :: db_error where
  "in_failed_transaction = DBError (Some ''25P02'') ''current transaction is aborted''"

text \<open>\<^verbatim>\<open>SELECT set_config('vespers.tenant_id', :value, true)\<close>\<close>

definition apply_setting :: "string \<Rightarrow> session \<Rightarrow> (exn + unit) \<times> session" where
  "apply_setting value s =
     (if aborted s then (Inl (DBAPIError in_failed_transaction), s)
      else (Inr (), s\<lparr>guc_tenant_id := Some value\<rparr>))"

definition active_tenant :: "session \<Rightarrow> uuid option" where
  "active_tenant s = (case info s SCOPE_KEY of Some (PyUUID u) \<Rightarrow> Some u | _ \<Rightarrow> None)"

text \<open>The \<^verbatim>\<open>finally\<close> block of the scope; a failing statement is swallowed.\<close>

definition leave_scope :: "session \<Rightarrow> session" where
  "leave_scope s =
     (let s1 = s\<lparr>info := (info s)(SCOPE_KEY := None)\<rparr>
      in if in_transaction s1 then snd (apply_setting '''' s1) else s1)"

definition tenant_scope ::
    "py_value \<Rightarrow> (session \<Rightarrow> (exn + 'a) \<times> session) \<Rightarrow> session \<Rightarrow> (exn + 'a) \<times> session" where
  "tenant_scope tenant_id body s =
     (case tenant_id of
        PyOther \<Rightarrow> (Inl (TenantContextError ''tenant_scope requires a UUID tenant id''), s)
      | PyUUID t \<Rightarrow>
          if \<not> in_transaction s
          then (Inl (TenantContextError ''tenant_scope requires an active transaction''), s)
          else (case active_tenant s of
              Some bound \<Rightarrow>
                if bound \<noteq> t
                then (Inl (TenantContextError ''cannot switch tenant inside an active unit of work''), s)
                else body s
            | None \<Rightarrow> (case apply_setting (uuid_str t) s of
                  (Inl e, s1) \<Rightarrow> (Inl e, s1)
                | (Inr _, s1) \<Rightarrow>
                    let (r, s2) = body (s1\<lparr>info := (info s1)(SCOPE_KEY \<mapsto> PyUUID t)\<rparr>)
                    in (r, leave_scope s2))))"

text \<open>
  \<^verbatim>\<open>async with sessions() as session, session.begin()\<close>: a new session in a new transaction;
  an exception rolls back, and so does the commit of an aborted transaction.
\<close>

definition open_session :: "database \<Rightarrow> session" where
  "open_session d = \<lparr>info = (\<lambda>_. None), in_transaction = True, aborted = False,
     guc_tenant_id = None, contents = d\<rparr>"

definition with_transaction ::
    "(session \<Rightarrow> (exn + 'a) \<times> session) \<Rightarrow> database \<Rightarrow> (exn + 'a) \<times> database" where
  "with_transaction body d =
     (case body (open_session d) of
        (Inl e, s) \<Rightarrow> (Inl e, d)
      | (Inr x, s) \<Rightarrow> (Inr x, if aborted s then d else contents s))"

definition tenant_transaction ::
    "py_value \<Rightarrow> (session \<Rightarrow> (exn + 'a) \<times> session) \<Rightarrow> database \<Rightarrow> (exn + 'a) \<times> database" where
  "tenant_transaction tenant_id body = with_transaction (tenant_scope tenant_id body)"

section \<open>Row-level security\<close>

definition invalid_uuid :: db_error where
  "invalid_uuid = DBError (Some ''22P02'') ''invalid input syntax for type uuid''"

text \<open>\<^verbatim>\<open>app.current_tenant_id()\<close>: NULL for a missing or blank setting, an error for text
  that is no UUID.\<close>

definition app_current_tenant_id :: "string option \<Rightarrow> db_error + uuid option" where
  "app_current_tenant_id setting =
     (case nullif_blank (Some (case setting of None \<Rightarrow> '''' | Some v \<Rightarrow> v)) of
        None \<Rightarrow> Inr None
      | Some raw \<Rightarrow> (case uuid_in raw of None \<Rightarrow> Inl invalid_uuid | Some u \<Rightarrow> Inr (Some u)))"

text \<open>A comparison with a NULL context is not true, so no row passes.\<close>

definition tenants_select_policy :: "uuid option \<Rightarrow> Tenant \<Rightarrow> bool" where
  "tenants_select_policy ctx t = (ctx = Some (tnt_id t))"

definition tenants_update_policy :: "uuid option \<Rightarrow> Tenant \<Rightarrow> bool" where
  "tenants_update_policy ctx t = (ctx = Some (tnt_id t) \<and> tnt_status t = ''active'')"

definition memberships_select_policy :: "uuid option \<Rightarrow> Membership \<Rightarrow> bool" where
  "memberships_select_policy ctx m = (ctx = Some (mbr_tenant_id m))"

text \<open>The subquery of this policy is itself filtered by the policy of \<^verbatim>\<open>memberships\<close>.\<close>

definition users_select_policy :: "uuid option \<Rightarrow> Membership list \<Rightarrow> User \<Rightarrow> bool" where
  "users_select_policy ctx ms u = list_ex (\<lambda>m. memberships_select_policy ctx m \<and> mbr_user_id m = usr_id u
     \<and> ctx = Some (mbr_tenant_id m) \<and> mbr_status m = ''active'') ms"

text \<open>A statement of the session: refused in an aborted transaction, aborting it when the
  context is malformed.\<close>

definition execute ::
    "(uuid option \<Rightarrow> database \<Rightarrow> db_error + 'a \<times> database) \<Rightarrow> session \<Rightarrow> (exn + 'a) \<times> session" where
  "execute stmt s =
     (if aborted s then (Inl (DBAPIError in_failed_transaction), s)
      else case and_then (app_current_tenant_id (guc_tenant_id s)) (\<lambda>ctx. stmt ctx (contents s)) of
          Inl e \<Rightarrow> (Inl (DBAPIError e), s\<lparr>aborted := True\<rparr>)
        | Inr (x, d) \<Rightarrow> (Inr x, s\<lparr>contents := d\<rparr>))"

section \<open>The repository\<close>

record TenantRecord =
  tr_id :: uuid
  tr_name :: string
  tr_kind :: string
  tr_owner_user_id :: uuid
  tr_status :: string

record MemberRecord =
  mr_user_id :: uuid
  mr_email :: string
  mr_role :: string
  mr_status :: string

text \<open>\<^verbatim>\<open>TenantRepository(session)\<close> and a method call on it.\<close>

definition TenantRepository ::
    "(session \<Rightarrow> (exn + 'a) \<times> session) \<Rightarrow> session \<Rightarrow> (exn + 'a) \<times> session" where
  "TenantRepository action s =
     (if active_tenant s = None
      then (Inl (TenantContextError ''TenantRepository requires an active tenant scope''), s)
      else action s)"

definition tenant_record :: "Tenant \<Rightarrow> TenantRecord" where
  "tenant_record t = \<lparr>tr_id = tnt_id t, tr_name = tnt_name t, tr_kind = tnt_kind t,
     tr_owner_user_id = tnt_owner_user_id t, tr_status = tnt_status t\<rparr>"

definition get_tenant :: "session \<Rightarrow> (exn + TenantRecord option) \<times> session" where
  "get_tenant = execute (\<lambda>ctx d. Inr
     (case filter (tenants_select_policy ctx) (tenants d) of [] \<Rightarrow> None | t # _ \<Rightarrow> Some (tenant_record t), d))"

text \<open>\<^verbatim>\<open>UPDATE tenants SET name = :name, updated_at = now()\<close> with no WHERE: the policy picks the
  rows (\<^verbatim>\<open>USING\<close>) and is checked on the new ones (\<^verbatim>\<open>WITH CHECK\<close>).\<close>

definition row_security_violation :: db_error where
  "row_security_violation =
     DBError (Some ''42501'') ''new row violates row-level security policy for table tenants''"

definition update_tenant_names ::
    "timestamp \<Rightarrow> string \<Rightarrow> uuid option \<Rightarrow> database \<Rightarrow> db_error + nat \<times> database" where
  "update_tenant_names now name ctx d =
     (let upd = (\<lambda>t. t\<lparr>tnt_name := name, tnt_updated_at := now\<rparr>);
          hit = filter (tenants_update_policy ctx) (tenants d)
      in if list_all (\<lambda>t. tenants_update_policy ctx (upd t)) hit
         then Inr (length hit,
                d\<lparr>tenants := map (\<lambda>t. if tenants_update_policy ctx t then upd t else t) (tenants d)\<rparr>)
         else Inl row_security_violation)"

definition rename_tenant :: "timestamp \<Rightarrow> string \<Rightarrow> session \<Rightarrow> (exn + bool) \<times> session" where
  "rename_tenant now name s =
     (let cleaned = strip name
      in if cleaned = [] then (Inl (ValueError ''tenant name must not be blank''), s)
         else case execute (update_tenant_names now cleaned) s of
             (Inl e, s1) \<Rightarrow> (Inl e, s1)
           | (Inr rowcount, s1) \<Rightarrow> (Inr (rowcount \<noteq> 0), s1))"

definition list_members ::
    "(string \<Rightarrow> 'k::linorder) \<Rightarrow> session \<Rightarrow> (exn + MemberRecord list) \<times> session" where
  "list_members collate = execute (\<lambda>ctx d.
     let ms = filter (memberships_select_policy ctx) (memberships d);
         us = filter (users_select_policy ctx (memberships d)) (users d);
         rows = concat (map (\<lambda>m. map (\<lambda>u. (m, u)) (filter (\<lambda>u. usr_id u = mbr_user_id m) us)) ms)
     in Inr (map (\<lambda>(m, u). \<lparr>mr_user_id = mbr_user_id m, mr_email = usr_email u,
                  mr_role = mbr_role m, mr_status = mbr_status m\<rparr>)
               (sort_key (\<lambda>(m, u). collate (usr_email u)) rows), d))"

end
