(* ===== verification/TenantFacts.thy ===== *)
theory TenantFacts
  imports TenantScope
begin

text \<open>
  Tenant isolation.  \<open>scoped_op\<close> is the contract of an operation that runs inside a tenant
  scope: it computes from the tenant's own rows only and leaves every other tenant's rows alone.
  Every repository operation meets it, and so does every unit of work made of them.
\<close>

section \<open>The context a session carries\<close>

lemma app_current_tenant_id_str [simp]: "app_current_tenant_id (Some (uuid_str t)) = Inr (Some t)"
  by (simp add: app_current_tenant_id_def nullif_blank_def btrim_uuid_str uuid_in_str)

lemma app_current_tenant_id_unset [simp]:
  "app_current_tenant_id None = Inr None" "app_current_tenant_id (Some '''') = Inr None"
  by code_simp+

definition in_scope :: "uuid \<Rightarrow> session \<Rightarrow> bool" where
  "in_scope t s = (in_transaction s \<and> \<not> aborted s \<and> active_tenant s = Some t
     \<and> guc_tenant_id s = Some (uuid_str t))"

text \<open>What the policies show of a tenant, with the rows its context may update.\<close>

definition tenant_view :: "uuid \<Rightarrow> database \<Rightarrow> Tenant list \<times> Membership list \<times> User list" where
  "tenant_view t d = (filter (tenants_select_policy (Some t)) (tenants d),
     filter (memberships_select_policy (Some t)) (memberships d),
     filter (users_select_policy (Some t) (memberships d)) (users d))"

lemma execute_in_scope:
  assumes "in_scope t s"
  shows "execute stmt s = (case stmt (Some t) (contents s) of
     Inl e \<Rightarrow> (Inl (DBAPIError e), s\<lparr>aborted := True\<rparr>)
   | Inr (x, d) \<Rightarrow> (Inr x, s\<lparr>contents := d\<rparr>))"
  using assms by (simp add: execute_def in_scope_def)

lemma active_tenant_update [simp]:
  "active_tenant (s\<lparr>contents := d\<rparr>) = active_tenant s"
  "active_tenant (s\<lparr>aborted := b\<rparr>) = active_tenant s"
  by (simp_all add: active_tenant_def)

lemma in_scope_contents [simp]: "in_scope t (s\<lparr>contents := d\<rparr>) = in_scope t s"
  by (simp add: in_scope_def)

text \<open>The update writes only the row of the context's tenant.\<close>

lemma update_tenant_names_eq:
  "update_tenant_names now name ctx d =
     Inr (length (filter (tenants_update_policy ctx) (tenants d)),
       d\<lparr>tenants := map (\<lambda>t. if tenants_update_policy ctx t
                             then t\<lparr>tnt_name := name, tnt_updated_at := now\<rparr> else t) (tenants d)\<rparr>)"
  by (simp add: update_tenant_names_def list_all_iff tenants_update_policy_def Let_def)

lemma filter_map_keep:
  assumes "\<And>x. P (f x) = P x" and "\<And>x. P x \<Longrightarrow> f x = x"
  shows "filter P (map f xs) = filter P xs"
  using assms by (induction xs) auto

lemma filter_map_commute:
  assumes "\<And>x. P (f x) = P x"
  shows "filter P (map f xs) = map f (filter P xs)"
  using assms by (induction xs) auto

section \<open>The contract\<close>

locale scoped_op =
  fixes op :: "session \<Rightarrow> (exn + 'a) \<times> session"
  assumes op_local: "in_scope t s1 \<Longrightarrow> in_scope t s2
      \<Longrightarrow> tenant_view t (contents s1) = tenant_view t (contents s2)
      \<Longrightarrow> fst (op s1) = fst (op s2)
        \<and> tenant_view t (contents (snd (op s1))) = tenant_view t (contents (snd (op s2)))"
    and op_confined: "in_scope t s \<Longrightarrow> t' \<noteq> t
      \<Longrightarrow> tenant_view t' (contents (snd (op s))) = tenant_view t' (contents s)"
    and op_frame: "in_scope t s \<Longrightarrow> signup_allowlist (contents (snd (op s))) = signup_allowlist (contents s)
      \<and> users (contents (snd (op s))) = users (contents s)
      \<and> memberships (contents (snd (op s))) = memberships (contents s)"
    and op_scope: "in_scope t s \<Longrightarrow> in_scope t (snd (op s))"
begin

text \<open>A whole transaction around the operation.\<close>

lemma open_scope: "in_scope t ((open_session d)\<lparr>guc_tenant_id := Some (uuid_str t),
    info := (\<lambda>_. None)(SCOPE_KEY \<mapsto> PyUUID t)\<rparr>)"
  by (simp add: in_scope_def open_session_def active_tenant_def)

lemma transaction_eq:
  fixes d t defines "s \<equiv> (open_session d)\<lparr>guc_tenant_id := Some (uuid_str t),
    info := (\<lambda>_. None)(SCOPE_KEY \<mapsto> PyUUID t)\<rparr>"
  shows "tenant_transaction (PyUUID t) op d =
    (fst (op s), case fst (op s) of Inl _ \<Rightarrow> d | Inr _ \<Rightarrow> contents (snd (op s)))"
proof -
  obtain r s' where r: "op s = (r, s')" by (cases "op s")
  have "in_scope t s" unfolding s_def by (rule open_scope)
  with op_scope [of t s] r have s': "in_transaction s'" "\<not> aborted s'"
    by (auto simp: in_scope_def)
  have "tenant_scope (PyUUID t) op (open_session d) = (r, leave_scope s')"
    using r unfolding s_def
    by (simp add: tenant_scope_def open_session_def active_tenant_def apply_setting_def)
  with s' r show ?thesis
    by (cases r) (simp_all add: tenant_transaction_def with_transaction_def leave_scope_def
        apply_setting_def)
qed

lemma transaction_confined:
  assumes "t' \<noteq> t"
  shows "tenant_view t' (snd (tenant_transaction (PyUUID t) op d)) = tenant_view t' d"
  using op_confined [OF open_scope assms, of d]
  by (auto simp: transaction_eq open_session_def split: sum.split)

lemma transaction_frame:
  "signup_allowlist (snd (tenant_transaction (PyUUID t) op d)) = signup_allowlist d
   \<and> users (snd (tenant_transaction (PyUUID t) op d)) = users d
   \<and> memberships (snd (tenant_transaction (PyUUID t) op d)) = memberships d"
  using op_frame [OF open_scope, of t d]
  by (auto simp: transaction_eq open_session_def split: sum.split)

lemma transaction_local:
  assumes "tenant_view t d1 = tenant_view t d2"
  shows "fst (tenant_transaction (PyUUID t) op d1) = fst (tenant_transaction (PyUUID t) op d2)
    \<and> tenant_view t (snd (tenant_transaction (PyUUID t) op d1))
      = tenant_view t (snd (tenant_transaction (PyUUID t) op d2))"
proof -
  let ?s = "\<lambda>d. (open_session d)\<lparr>guc_tenant_id := Some (uuid_str t),
    info := (\<lambda>_. None)(SCOPE_KEY \<mapsto> PyUUID t)\<rparr>"
  have "tenant_view t (contents (?s d1)) = tenant_view t (contents (?s d2))"
    using assms by (simp add: open_session_def)
  note loc = op_local [OF open_scope open_scope this]
  obtain r1 t1 r2 t2 where "op (?s d1) = (r1, t1)" "op (?s d2) = (r2, t2)"
    by (cases "op (?s d1)", cases "op (?s d2)")
  with loc have eq: "r1 = r2" "tenant_view t (contents t1) = tenant_view t (contents t2)"
    and tr: "tenant_transaction (PyUUID t) op d1 = (r1, case r1 of Inl _ \<Rightarrow> d1 | Inr _ \<Rightarrow> contents t1)"
      "tenant_transaction (PyUUID t) op d2 = (r2, case r2 of Inl _ \<Rightarrow> d2 | Inr _ \<Rightarrow> contents t2)"
    by (simp_all only: transaction_eq fst_conv snd_conv)
  show ?thesis
    unfolding tr fst_conv snd_conv using eq assms by (cases r2) simp_all
qed

end

section \<open>The repository's operations meet the contract\<close>

lemma scoped_op_read:
  assumes "\<And>t d1 d2. tenant_view t d1 = tenant_view t d2 \<Longrightarrow> f (Some t) d1 = f (Some t) d2"
  shows "scoped_op (execute (\<lambda>ctx d. Inr (f ctx d, d)))"
proof
  fix t s1 s2
  assume s: "in_scope t s1" "in_scope t s2"
    and eq: "tenant_view t (contents s1) = tenant_view t (contents s2)"
  show "fst (execute (\<lambda>ctx d. Inr (f ctx d, d)) s1) = fst (execute (\<lambda>ctx d. Inr (f ctx d, d)) s2)
    \<and> tenant_view t (contents (snd (execute (\<lambda>ctx d. Inr (f ctx d, d)) s1)))
      = tenant_view t (contents (snd (execute (\<lambda>ctx d. Inr (f ctx d, d)) s2)))"
    unfolding execute_in_scope [OF s(1)] execute_in_scope [OF s(2)]
    using assms [OF eq] eq by simp
qed (simp_all add: execute_in_scope)

interpretation get_op: scoped_op get_tenant
  unfolding get_tenant_def by (rule scoped_op_read) (simp add: tenant_view_def)

definition member_rows ::
    "(string \<Rightarrow> 'k::linorder) \<Rightarrow> Membership list \<Rightarrow> User list \<Rightarrow> MemberRecord list" where
  "member_rows collate ms us =
     map (\<lambda>(m, u). \<lparr>mr_user_id = mbr_user_id m, mr_email = usr_email u,
            mr_role = mbr_role m, mr_status = mbr_status m\<rparr>)
       (sort_key (\<lambda>(m, u). collate (usr_email u))
         (concat (map (\<lambda>m. map (\<lambda>u. (m, u)) (filter (\<lambda>u. usr_id u = mbr_user_id m) us)) ms)))"

lemma list_members_rows:
  "list_members collate = execute (\<lambda>ctx d. Inr (member_rows collate
     (filter (memberships_select_policy ctx) (memberships d))
     (filter (users_select_policy ctx (memberships d)) (users d)), d))"
  by (simp only: list_members_def member_rows_def Let_def)

interpretation members_op: scoped_op "list_members collate" for collate
  unfolding list_members_rows
proof (rule scoped_op_read)
  fix t d1 d2
  assume "tenant_view t d1 = tenant_view t d2"
  then show "member_rows collate (filter (memberships_select_policy (Some t)) (memberships d1))
       (filter (users_select_policy (Some t) (memberships d1)) (users d1))
     = member_rows collate (filter (memberships_select_policy (Some t)) (memberships d2))
       (filter (users_select_policy (Some t) (memberships d2)) (users d2))"
    unfolding tenant_view_def by (elim Pair_inject) (rule arg_cong2 [where f = "member_rows collate"])
qed

lemma rename_tenant_in_scope:
  assumes "in_scope t s" and "strip name \<noteq> []"
  shows "rename_tenant now name s =
    (Inr (\<exists>x\<in>set (tenants (contents s)). tenants_update_policy (Some t) x),
     s\<lparr>contents := (contents s)\<lparr>tenants := map (\<lambda>x. if tenants_update_policy (Some t) x
         then x\<lparr>tnt_name := strip name, tnt_updated_at := now\<rparr> else x) (tenants (contents s))\<rparr>\<rparr>)"
  using assms
  by (auto simp: rename_tenant_def Let_def execute_in_scope update_tenant_names_eq
      filter_empty_conv)

interpretation rename_op: scoped_op "rename_tenant now name" for now name
proof
  fix t :: uuid and s1 s2
  assume s: "in_scope t s1" "in_scope t s2"
    "tenant_view t (contents s1) = tenant_view t (contents s2)"
  show "fst (rename_tenant now name s1) = fst (rename_tenant now name s2)
    \<and> tenant_view t (contents (snd (rename_tenant now name s1)))
      = tenant_view t (contents (snd (rename_tenant now name s2)))"
  proof (cases "strip name = []")
    case True
    with s show ?thesis by (simp add: rename_tenant_def Let_def)
  next
    case False
    let ?P = "tenants_select_policy (Some t)" and ?Q = "tenants_update_policy (Some t)"
    let ?f = "\<lambda>x. if ?Q x then x\<lparr>tnt_name := strip name, tnt_updated_at := now\<rparr> else x"
    have PQ: "\<And>x. ?Q x \<Longrightarrow> ?P x" "\<And>x. ?P (?f x) = ?P x"
      by (simp_all add: tenants_update_policy_def tenants_select_policy_def)
    have ex: "(\<exists>x\<in>set xs. ?Q x) = (\<exists>x\<in>set (filter ?P xs). ?Q x)" for xs
      using PQ(1) by auto
    have map: "filter ?P (map ?f xs) = map ?f (filter ?P xs)" for xs
      by (rule filter_map_commute) (rule PQ(2))
    have eq: "filter ?P (tenants (contents s1)) = filter ?P (tenants (contents s2))"
      using s(3) by (simp add: tenant_view_def)
    have "(\<exists>x\<in>set (tenants (contents s1)). ?Q x) = (\<exists>x\<in>set (tenants (contents s2)). ?Q x)"
      unfolding ex [of "tenants (contents s1)"] ex [of "tenants (contents s2)"] eq ..
    then show ?thesis
      using s(3) unfolding rename_tenant_in_scope [OF s(1) False] rename_tenant_in_scope [OF s(2) False]
      by (simp add: tenant_view_def map)
  qed
next
  fix t t' :: uuid and s
  assume s: "in_scope t s" "t' \<noteq> t"
  let ?f = "\<lambda>x. if tenants_update_policy (Some t) x
    then x\<lparr>tnt_name := strip name, tnt_updated_at := now\<rparr> else x"
  have keep: "filter (tenants_select_policy (Some t')) (map ?f xs)
      = filter (tenants_select_policy (Some t')) xs" for xs
    by (rule filter_map_keep)
       (use s(2) in \<open>simp_all add: tenants_update_policy_def tenants_select_policy_def split: if_split\<close>)
  show "tenant_view t' (contents (snd (rename_tenant now name s))) = tenant_view t' (contents s)"
  proof (cases "strip name = []")
    case True
    then show ?thesis by (simp add: rename_tenant_def)
  next
    case False
    show ?thesis
      unfolding rename_tenant_in_scope [OF s(1) False] tenant_view_def by (simp add: keep)
  qed
next
  fix t :: uuid and s assume s: "in_scope t s"
  show "signup_allowlist (contents (snd (rename_tenant now name s))) = signup_allowlist (contents s)
      \<and> users (contents (snd (rename_tenant now name s))) = users (contents s)
      \<and> memberships (contents (snd (rename_tenant now name s))) = memberships (contents s)"
    using s by (cases "strip name = []") (simp_all add: rename_tenant_in_scope, simp add: rename_tenant_def)
  show "in_scope t (snd (rename_tenant now name s))"
    using s by (cases "strip name = []") (simp_all add: rename_tenant_in_scope, simp add: rename_tenant_def)
qed

section \<open>Composition\<close>

lemma scoped_op_raise: "scoped_op (raise_state e)"
  by unfold_locales (simp_all add: raise_state_def)

lemma scoped_op_return: "scoped_op (return_state x)"
  by unfold_locales (simp_all add: return_state_def)

lemma scoped_op_bind:
  assumes m: "scoped_op m" and k: "\<And>x. scoped_op (k x)"
  shows "scoped_op (bind_state m k)"
proof
  fix t s1 s2
  assume s: "in_scope t s1" "in_scope t s2"
    and eq: "tenant_view t (contents s1) = tenant_view t (contents s2)"
  obtain r1 t1 r2 t2 where ops: "m s1 = (r1, t1)" "m s2 = (r2, t2)"
    by (cases "m s1", cases "m s2")
  have loc: "r1 = r2" "tenant_view t (contents t1) = tenant_view t (contents t2)"
    using scoped_op.op_local [OF m s eq] unfolding ops by simp_all
  have sc: "in_scope t t1" "in_scope t t2"
    using scoped_op.op_scope [OF m s(1)] scoped_op.op_scope [OF m s(2)] unfolding ops by simp_all
  show "fst (bind_state m k s1) = fst (bind_state m k s2)
    \<and> tenant_view t (contents (snd (bind_state m k s1)))
      = tenant_view t (contents (snd (bind_state m k s2)))"
    using scoped_op.op_local [OF k sc loc(2)] loc
    unfolding bind_state_def ops by (cases r2) simp_all
next
  fix t t' s
  assume s: "in_scope t s" "t' \<noteq> t"
  obtain r s' where op: "m s = (r, s')" by (cases "m s")
  have sc: "in_scope t s'" using scoped_op.op_scope [OF m s(1)] unfolding op by simp
  show "tenant_view t' (contents (snd (bind_state m k s))) = tenant_view t' (contents s)"
    using scoped_op.op_confined [OF m s] scoped_op.op_confined [OF k sc s(2)]
    unfolding bind_state_def op by (cases r) simp_all
next
  fix t s
  assume s: "in_scope t s"
  obtain r s' where op: "m s = (r, s')" by (cases "m s")
  have sc: "in_scope t s'" using scoped_op.op_scope [OF m s] unfolding op by simp
  show "signup_allowlist (contents (snd (bind_state m k s))) = signup_allowlist (contents s)
      \<and> users (contents (snd (bind_state m k s))) = users (contents s)
      \<and> memberships (contents (snd (bind_state m k s))) = memberships (contents s)"
    using scoped_op.op_frame [OF m s] scoped_op.op_frame [OF k sc]
    unfolding bind_state_def op by (cases r) simp_all
  show "in_scope t (snd (bind_state m k s))"
    using sc scoped_op.op_scope [OF k sc] unfolding bind_state_def op by (cases r) simp_all
qed

text \<open>Inside a scope the repository can be constructed.\<close>

lemma TenantRepository_in_scope:
  "in_scope t s \<Longrightarrow> TenantRepository action s = action s"
  by (simp add: TenantRepository_def in_scope_def)

lemma scoped_op_cong:
  assumes op: "scoped_op op" and eq: "\<And>t s. in_scope t s \<Longrightarrow> op' s = op s"
  shows "scoped_op op'"
proof
  fix t s1 s2
  assume s: "in_scope t s1" "in_scope t s2"
    and v: "tenant_view t (contents s1) = tenant_view t (contents s2)"
  show "fst (op' s1) = fst (op' s2)
    \<and> tenant_view t (contents (snd (op' s1))) = tenant_view t (contents (snd (op' s2)))"
    unfolding eq [OF s(1)] eq [OF s(2)] by (rule scoped_op.op_local [OF op s v])
next
  fix t t' s
  assume s: "in_scope t s" "t' \<noteq> t"
  show "tenant_view t' (contents (snd (op' s))) = tenant_view t' (contents s)"
    unfolding eq [OF s(1)] by (rule scoped_op.op_confined [OF op s])
next
  fix t s
  assume s: "in_scope t s"
  show "signup_allowlist (contents (snd (op' s))) = signup_allowlist (contents s)
      \<and> users (contents (snd (op' s))) = users (contents s)
      \<and> memberships (contents (snd (op' s))) = memberships (contents s)"
    unfolding eq [OF s] by (rule scoped_op.op_frame [OF op s])
  show "in_scope t (snd (op' s))"
    unfolding eq [OF s] by (rule scoped_op.op_scope [OF op s])
qed

lemma scoped_op_repository: "scoped_op action \<Longrightarrow> scoped_op (TenantRepository action)"
  by (rule scoped_op_cong) (simp_all add: TenantRepository_in_scope)

section \<open>The rows of the member list\<close>

text \<open>A membership whose user the policies show is active: its user is visible through an active
  membership of the same tenant, and there is one membership per user and tenant.\<close>

lemma visible_member_active:
  assumes "schema_ok d" and m: "m \<in> set (filter (memberships_select_policy (Some t)) (memberships d))"
    and u: "u \<in> set (filter (users_select_policy (Some t) (memberships d)) (users d))"
    and "usr_id u = mbr_user_id m"
  shows "mbr_status m = ACTIVE"
proof -
  obtain n where n: "n \<in> set (memberships d)" "mbr_user_id n = usr_id u"
    "mbr_tenant_id n = t" "mbr_status n = ACTIVE"
    using u by (auto simp: users_select_policy_def list_ex_iff)
  have "m = n"
    by (rule membership_pair_key [OF assms(1)])
       (use assms(4) m n in \<open>simp_all add: memberships_select_policy_def\<close>)
  with n show ?thesis by simp
qed

lemma set_member_rows:
  "x \<in> set (member_rows collate ms us) \<longleftrightarrow> (\<exists>m u. m \<in> set ms \<and> u \<in> set us
     \<and> usr_id u = mbr_user_id m \<and> x = \<lparr>mr_user_id = mbr_user_id m, mr_email = usr_email u,
         mr_role = mbr_role m, mr_status = mbr_status m\<rparr>)"
  (is "_ = ?rhs")
proof -
  have "p \<in> set (concat (map (\<lambda>m. map (\<lambda>u. (m, u)) (filter (\<lambda>u. usr_id u = mbr_user_id m) us)) ms))
      \<longleftrightarrow> fst p \<in> set ms \<and> snd p \<in> set us \<and> usr_id (snd p) = mbr_user_id (fst p)" for p
    by (cases p) auto
  then have "x \<in> set (member_rows collate ms us) \<longleftrightarrow> (\<exists>p. (fst p \<in> set ms \<and> snd p \<in> set us
      \<and> usr_id (snd p) = mbr_user_id (fst p)) \<and> x = (\<lambda>(m, u). \<lparr>mr_user_id = mbr_user_id m,
         mr_email = usr_email u, mr_role = mbr_role m, mr_status = mbr_status m\<rparr>) p)"
    unfolding member_rows_def set_map set_sort image_iff Bex_def by (simp only:)
  then show ?thesis by (simp only: split_paired_Ex fst_conv snd_conv prod.case conj_assoc)
qed

lemma sorted_member_rows: "sorted (map (\<lambda>r. collate (mr_email r)) (member_rows collate ms us))"
proof -
  have "map (\<lambda>r. collate (mr_email r)) (member_rows collate ms us)
      = map (\<lambda>(m, u). collate (usr_email u)) (sort_key (\<lambda>(m, u). collate (usr_email u))
          (concat (map (\<lambda>m. map (\<lambda>u. (m, u)) (filter (\<lambda>u. usr_id u = mbr_user_id m) us)) ms)))"
    by (simp add: member_rows_def split_beta)
  then show ?thesis by (simp only: sorted_sort_key)
qed

lemma distinct_member_rows:
  assumes "distinct (map usr_id us)" and "distinct (map mbr_user_id ms)"
  shows "distinct (map mr_user_id (member_rows collate ms us))"
proof -
  let ?f = "\<lambda>m. filter (\<lambda>u. usr_id u = mbr_user_id m) us"
  have "length (?f m) \<le> 1" for m by (rule filter_key_at_most_one [OF assms(1)])
  then have "map fst (concat (map (\<lambda>m. map (\<lambda>u. (m, u)) (?f m)) ms)) = filter (\<lambda>m. ?f m \<noteq> []) ms"
    by (rule concat_map_at_most_one)
  then have "distinct (map mbr_user_id (map fst (concat (map (\<lambda>m. map (\<lambda>u. (m, u)) (?f m)) ms))))"
    using assms(2) by (simp only: prefix_map_filter_distinct)
  then show ?thesis
    by (simp add: member_rows_def distinct_map inj_on_def split_beta comp_def)
qed

end
