(* ===== verification/TenantProps.thy ===== *)
theory TenantProps
  imports TenantFacts Samples
begin

text \<open>
  Units of work of the tenant-scoped repository and the properties of the tenant scope:
  isolation of tenants, the effect of a rename, what a session without context sees, and the
  discipline of the scope itself.
\<close>

section \<open>Units of work\<close>

text \<open>A request handler's calls of \<^verbatim>\<open>TenantRepository\<close>, in order; the first exception ends them.\<close>

datatype repo_call = GetTenant | RenameTenant timestamp string | ListMembers

datatype repo_result = GotTenant "TenantRecord option" | Renamed bool | Members "MemberRecord list"

fun do_repo_call ::
    "(string \<Rightarrow> 'k::linorder) \<Rightarrow> repo_call \<Rightarrow> session \<Rightarrow> (exn + repo_result) \<times> session" where
  "do_repo_call collate GetTenant =
     bind_state get_tenant (\<lambda>r. return_state (GotTenant r))"
| "do_repo_call collate (RenameTenant now name) =
     bind_state (rename_tenant now name) (\<lambda>b. return_state (Renamed b))"
| "do_repo_call collate ListMembers =
     bind_state (list_members collate) (\<lambda>ms. return_state (Members ms))"

primrec unit_of_work ::
    "(string \<Rightarrow> 'k::linorder) \<Rightarrow> repo_call list \<Rightarrow> session \<Rightarrow> (exn + repo_result list) \<times> session"
where
  "unit_of_work collate [] = return_state []"
| "unit_of_work collate (c # cs) = bind_state (do_repo_call collate c)
     (\<lambda>r. bind_state (unit_of_work collate cs) (\<lambda>rs. return_state (r # rs)))"

lemma scoped_op_call: "scoped_op (do_repo_call collate c)"
  by (cases c) (auto intro!: scoped_op_bind scoped_op_return get_op.scoped_op_axioms
      rename_op.scoped_op_axioms members_op.scoped_op_axioms)

interpretation work: scoped_op "unit_of_work collate cs" for collate cs
  by (induction cs) (auto intro!: scoped_op_bind scoped_op_return scoped_op_call)

section \<open>Properties\<close>

text \<open>C7: A tenant's unit of work, whatever repository calls it makes, computes its results and
  its tenant's new rows from the rows of that tenant alone, and leaves the rows every other
  tenant can see, the users, the memberships and the allowlist as they were.\<close>

theorem tenant_isolation:
  fixes collate :: "string \<Rightarrow> 'k::linorder"
  assumes "tenant_view t d1 = tenant_view t d2"
  shows "fst (tenant_transaction (PyUUID t) (unit_of_work collate cs) d1)
      = fst (tenant_transaction (PyUUID t) (unit_of_work collate cs) d2)
    \<and> tenant_view t (snd (tenant_transaction (PyUUID t) (unit_of_work collate cs) d1))
      = tenant_view t (snd (tenant_transaction (PyUUID t) (unit_of_work collate cs) d2))
    \<and> (\<forall>t'. t' \<noteq> t \<longrightarrow>
        tenant_view t' (snd (tenant_transaction (PyUUID t) (unit_of_work collate cs) d1))
        = tenant_view t' d1)
    \<and> users (snd (tenant_transaction (PyUUID t) (unit_of_work collate cs) d1)) = users d1
    \<and> memberships (snd (tenant_transaction (PyUUID t) (unit_of_work collate cs) d1)) = memberships d1
    \<and> signup_allowlist (snd (tenant_transaction (PyUUID t) (unit_of_work collate cs) d1))
      = signup_allowlist d1"
  using work.transaction_local [OF assms] work.transaction_confined work.transaction_frame
  by blast

theorem tenant_isolation_witness:
  "fst (tenant_transaction (PyUUID 12)
       (unit_of_work length [RenameTenant 9 ''Z'', GetTenant, ListMembers]) db_one)
   = fst (tenant_transaction (PyUUID 12)
       (unit_of_work length [RenameTenant 9 ''Z'', GetTenant, ListMembers]) db_two)
   \<and> tenant_view 12 db_one = tenant_view 12 db_two \<and> db_one \<noteq> db_two"
proof -
  have eq: "tenant_view 12 db_one = tenant_view 12 db_two" by code_simp
  moreover have "db_one \<noteq> db_two" by code_simp
  ultimately show ?thesis
    using tenant_isolation [OF eq, of length "[RenameTenant 9 ''Z'', GetTenant, ListMembers]"]
    by blast
qed

text \<open>C27: A rename in a tenant's scope reports success exactly when the tenant exists and is
  active; it then changes the name and the update time of that tenant and of nothing else, and
  without success nothing at all.  A blank name is refused before any statement runs.\<close>

theorem rename_tenant_effect:
  assumes "in_scope t s"
  shows "rename_tenant now name s =
    (if strip name = [] then (Inl (ValueError ''tenant name must not be blank''), s)
     else (Inr (\<exists>x\<in>set (tenants (contents s)). tnt_id x = t \<and> tnt_status x = ACTIVE),
       s\<lparr>contents := (contents s)\<lparr>tenants := map (\<lambda>x.
         if tnt_id x = t \<and> tnt_status x = ACTIVE
         then x\<lparr>tnt_name := strip name, tnt_updated_at := now\<rparr> else x) (tenants (contents s))\<rparr>\<rparr>))"
proof (cases "strip name = []")
  case True
  then show ?thesis by (simp add: rename_tenant_def)
next
  case False
  have "tenants_update_policy (Some t) = (\<lambda>x. tnt_id x = t \<and> tnt_status x = ACTIVE)"
    by (auto simp: tenants_update_policy_def)
  with False show ?thesis
    by (simp only: rename_tenant_in_scope [OF assms False] if_False)
qed

definition scope_a :: "database \<Rightarrow> session" where
  "scope_a d = (open_session d)\<lparr>info := (\<lambda>_. None)(SCOPE_KEY \<mapsto> PyUUID 12),
     guc_tenant_id := Some (uuid_str 12)\<rparr>"

theorem rename_tenant_effect_witness:
  "map tnt_name (tenants (contents (snd (rename_tenant 9 '' New '' (scope_a db_two))))) = [''New'', ''Bob'']"
proof -
  have sc: "in_scope 12 (scope_a db_two)"
    by (simp add: in_scope_def scope_a_def open_session_def active_tenant_def)
  show ?thesis
    unfolding rename_tenant_effect [OF sc, of 9 "'' New ''"] by code_simp
qed

text \<open>Without a tenant context the policies hide everything: reads return nothing and an
  update touches no row, in every database.\<close>

lemma no_context_no_rows:
  fixes collate :: "string \<Rightarrow> 'k::linorder"
  assumes "\<not> aborted s" and "guc_tenant_id s \<in> {None, Some ''''}" and "strip name \<noteq> []"
  shows "get_tenant s = (Inr None, s) \<and> list_members collate s = (Inr [], s)
    \<and> rename_tenant now name s = (Inr False, s)"
proof -
  have ctx: "app_current_tenant_id (guc_tenant_id s) = Inr None" using assms(2) by auto
  have upd: "map (\<lambda>t. if tenants_update_policy None t
      then t\<lparr>tnt_name := n, tnt_updated_at := now\<rparr> else t) ts = ts" for n ts
    by (induction ts) (simp_all add: tenants_update_policy_def)
  show ?thesis
    using assms(1,3)
    by (simp add: get_tenant_def list_members_def rename_tenant_def execute_def ctx Let_def upd
        update_tenant_names_eq tenants_select_policy_def memberships_select_policy_def
        filter_empty_conv tenants_update_policy_def)
qed

lemma no_context_no_rows_witness:
  "get_tenant (open_session db_two) = (Inr None, open_session db_two)
   \<and> rename_tenant 9 ''X'' (open_session db_two) = (Inr False, open_session db_two)"
proof -
  have "strip ''X'' \<noteq> []" by code_simp
  with no_context_no_rows [of "open_session db_two" "''X''" length 9] show ?thesis
    by (simp add: open_session_def)
qed

text \<open>C15: The scope discipline.  Anything that is not a UUID, a session outside a transaction, a
  tenant other than the bound one: each is refused with the session untouched and the body not
  run.  The bound tenant itself re-enters.  Otherwise the body runs with the context bound, and
  whatever it does - return, raise, even abort the transaction - the binding is gone
  afterwards, and the setting is cleared unless the transaction is lost.\<close>

theorem tenant_scope_discipline:
  "tenant_scope PyOther body s =
     (Inl (TenantContextError ''tenant_scope requires a UUID tenant id''), s)
   \<and> (\<not> in_transaction s \<longrightarrow> tenant_scope (PyUUID t) body s =
       (Inl (TenantContextError ''tenant_scope requires an active transaction''), s))
   \<and> (in_transaction s \<and> active_tenant s = Some t' \<and> t' \<noteq> t \<longrightarrow> tenant_scope (PyUUID t) body s =
       (Inl (TenantContextError ''cannot switch tenant inside an active unit of work''), s))
   \<and> (in_transaction s \<and> active_tenant s = Some t \<longrightarrow> tenant_scope (PyUUID t) body s = body s)
   \<and> (in_transaction s \<and> active_tenant s = None \<and> \<not> aborted s \<longrightarrow>
       (\<exists>inner. in_scope t inner \<and> contents inner = contents s
         \<and> fst (tenant_scope (PyUUID t) body s) = fst (body inner)
         \<and> active_tenant (snd (tenant_scope (PyUUID t) body s)) = None
         \<and> (in_transaction (snd (body inner)) \<and> \<not> aborted (snd (body inner)) \<longrightarrow>
             guc_tenant_id (snd (tenant_scope (PyUUID t) body s)) = Some '''')))"
proof -
  let ?inner = "s\<lparr>guc_tenant_id := Some (uuid_str t), info := (info s)(SCOPE_KEY \<mapsto> PyUUID t)\<rparr>"
  have "\<exists>inner. in_scope t inner \<and> contents inner = contents s
         \<and> fst (tenant_scope (PyUUID t) body s) = fst (body inner)
         \<and> active_tenant (snd (tenant_scope (PyUUID t) body s)) = None
         \<and> (in_transaction (snd (body inner)) \<and> \<not> aborted (snd (body inner)) \<longrightarrow>
             guc_tenant_id (snd (tenant_scope (PyUUID t) body s)) = Some '''')"
    if c: "in_transaction s" "active_tenant s = None" "\<not> aborted s"
  proof (rule exI [of _ ?inner], intro conjI)
    obtain r s' where b: "body ?inner = (r, s')" by (cases "body ?inner")
    have e: "tenant_scope (PyUUID t) body s = (r, leave_scope s')"
      using c b by (simp add: tenant_scope_def apply_setting_def)
    show "in_scope t ?inner" using c by (simp add: in_scope_def active_tenant_def)
    show "fst (tenant_scope (PyUUID t) body s) = fst (body ?inner)" unfolding e b by simp
    show "active_tenant (snd (tenant_scope (PyUUID t) body s)) = None"
      unfolding e by (simp add: leave_scope_def Let_def apply_setting_def active_tenant_def)
    show "in_transaction (snd (body ?inner)) \<and> \<not> aborted (snd (body ?inner)) \<longrightarrow>
        guc_tenant_id (snd (tenant_scope (PyUUID t) body s)) = Some ''''"
      unfolding e b by (simp add: leave_scope_def Let_def apply_setting_def)
  qed simp
  then show ?thesis by (simp add: tenant_scope_def)
qed

theorem tenant_scope_discipline_witness:
  "tenant_scope (PyUUID 12) (tenant_scope (PyUUID 22) get_tenant) (open_session db_two)
     = (Inl (TenantContextError ''cannot switch tenant inside an active unit of work''),
        (open_session db_two)\<lparr>guc_tenant_id := Some ''''\<rparr>)
   \<and> fst (tenant_scope (PyUUID 22) (tenant_scope (PyUUID 22) get_tenant) (open_session db_two))
     = Inr (Some \<lparr>tr_id = 22, tr_name = ''Bob'', tr_kind = ''personal'', tr_owner_user_id = 21,
         tr_status = ''active''\<rparr>)"
proof -
  let ?s = "\<lambda>t. (open_session db_two)\<lparr>guc_tenant_id := Some (uuid_str t),
    info := (\<lambda>_. None)(SCOPE_KEY \<mapsto> PyUUID t)\<rparr>"
  have a: "in_transaction (?s t) \<and> active_tenant (?s t) = Some t" for t
    by (simp add: open_session_def active_tenant_def)
  have other: "tenant_scope (PyUUID 22) get_tenant (?s 12)
      = (Inl (TenantContextError ''cannot switch tenant inside an active unit of work''), ?s 12)"
    using tenant_scope_discipline [of get_tenant "?s 12" 22 12] a [of 12] by simp
  have same: "tenant_scope (PyUUID 22) get_tenant (?s 22) = get_tenant (?s 22)"
    using tenant_scope_discipline [of get_tenant "?s 22" 22 12] a [of 22] by simp
  have enter: "tenant_scope (PyUUID t) body (open_session db_two)
      = (fst (body (?s t)), leave_scope (snd (body (?s t))))" for t and body :: "session \<Rightarrow> (exn + TenantRecord option) \<times> session"
    by (simp add: tenant_scope_def open_session_def active_tenant_def apply_setting_def split_beta)
  have sub: "fst (get_tenant (?s 22)) = Inr (Some \<lparr>tr_id = 22, tr_name = ''Bob'',
      tr_kind = ''personal'', tr_owner_user_id = 21, tr_status = ''active''\<rparr>)"
    by code_simp
  show ?thesis
    unfolding enter other same fst_conv snd_conv sub
    by (simp add: leave_scope_def apply_setting_def open_session_def fun_upd_idem)
qed

text \<open>C28: In a tenant's scope the members listed are exactly the active memberships of the tenant:
  a disabled membership is hidden, although the query does not filter on it, because the
  policy of \<^verbatim>\<open>users\<close> hides its user.\<close>

theorem list_members_are_active:
  fixes collate :: "string \<Rightarrow> 'k::linorder"
  assumes "schema_ok (contents s)" and "in_scope t s"
  shows "\<exists>rows. list_members collate s = (Inr rows, s)
    \<and> sorted (map (\<lambda>r. collate (mr_email r)) rows) \<and> distinct (map mr_user_id rows)
    \<and> set rows = {\<lparr>mr_user_id = usr_id u, mr_email = usr_email u, mr_role = mbr_role m,
          mr_status = ACTIVE\<rparr> | m u. m \<in> set (memberships (contents s)) \<and> u \<in> set (users (contents s))
          \<and> mbr_tenant_id m = t \<and> mbr_user_id m = usr_id u \<and> mbr_status m = ACTIVE}"
proof -
  let ?d = "contents s"
  let ?ms = "filter (memberships_select_policy (Some t)) (memberships ?d)"
  let ?us = "filter (users_select_policy (Some t) (memberships ?d)) (users ?d)"
  have "distinct (map usr_id ?us)"
    using assms(1) by (intro prefix_map_filter_distinct) (simp add: schema_ok_def users_ok_def)
  moreover have "distinct (map mbr_user_id ?ms)"
    using assms(1) by (auto simp: schema_ok_def memberships_ok_def distinct_map inj_on_def
        memberships_select_policy_def)
  ultimately have dist: "distinct (map mr_user_id (member_rows collate ?ms ?us))"
    by (rule distinct_member_rows)
  have vis: "m \<in> set ?ms \<and> u \<in> set ?us \<and> usr_id u = mbr_user_id m
      \<longleftrightarrow> m \<in> set (memberships ?d) \<and> u \<in> set (users ?d) \<and> mbr_tenant_id m = t
        \<and> mbr_user_id m = usr_id u \<and> mbr_status m = ACTIVE" (is "?l \<longleftrightarrow> ?r") for m u
  proof
    assume l: ?l
    then have "mbr_status m = ACTIVE" by (blast intro: visible_member_active [OF assms(1)])
    with l show ?r by (simp add: memberships_select_policy_def)
  next
    assume r: ?r
    then have "users_select_policy (Some t) (memberships ?d) u"
      unfolding users_select_policy_def list_ex_iff memberships_select_policy_def
      by (intro bexI [of _ m]) simp_all
    with r show ?l by (simp add: memberships_select_policy_def)
  qed
  have "x \<in> set (member_rows collate ?ms ?us) \<longleftrightarrow> (\<exists>m u. x = \<lparr>mr_user_id = usr_id u,
      mr_email = usr_email u, mr_role = mbr_role m, mr_status = ACTIVE\<rparr>
      \<and> m \<in> set (memberships ?d) \<and> u \<in> set (users ?d)
      \<and> mbr_tenant_id m = t \<and> mbr_user_id m = usr_id u \<and> mbr_status m = ACTIVE)" for x
    unfolding set_member_rows by (rule ex_cong1, rule ex_cong1) (use vis in metis)
  moreover have "list_members collate s = (Inr (member_rows collate ?ms ?us), s)"
    using assms(2) by (simp add: list_members_rows execute_in_scope)
  ultimately show ?thesis using dist sorted_member_rows by blast
qed

definition db_pending :: database where
  "db_pending = db_two\<lparr>memberships := memberships db_two @
     [(new_membership 31 7 21 12 ROLE_MEMBER)\<lparr>mbr_status := DISABLED\<rparr>]\<rparr>"

theorem list_members_are_active_witness:
  "in_scope 12 (scope_a db_pending) \<and> length (filter (\<lambda>m. mbr_tenant_id m = 12) (memberships db_pending)) = 2
   \<and> (\<exists>rows. list_members length (scope_a db_pending) = (Inr rows, scope_a db_pending)
        \<and> (\<forall>r. r \<in> set rows \<longrightarrow> mr_user_id r = 11))"
proof -
  have ok: "schema_ok (contents (scope_a db_pending))" by code_simp
  have sc: "in_scope 12 (scope_a db_pending)"
    by (simp add: in_scope_def scope_a_def open_session_def active_tenant_def)
  have two: "length (filter (\<lambda>m. mbr_tenant_id m = 12) (memberships db_pending)) = 2" by code_simp
  have one: "\<forall>m \<in> set (memberships (contents (scope_a db_pending))).
      mbr_tenant_id m = 12 \<longrightarrow> mbr_status m = ACTIVE \<longrightarrow> mbr_user_id m = 11" by code_simp
  obtain rows where rows: "list_members length (scope_a db_pending) = (Inr rows, scope_a db_pending)"
    "set rows = {\<lparr>mr_user_id = usr_id u, mr_email = usr_email u, mr_role = mbr_role m,
          mr_status = ACTIVE\<rparr> | m u. m \<in> set (memberships (contents (scope_a db_pending)))
          \<and> u \<in> set (users (contents (scope_a db_pending)))
          \<and> mbr_tenant_id m = 12 \<and> mbr_user_id m = usr_id u \<and> mbr_status m = ACTIVE}"
    using list_members_are_active [OF ok sc, of length] by blast
  have "mr_user_id r = 11" if "r \<in> set rows" for r
    using that one unfolding rows(2) by auto
  with rows(1) sc two show ?thesis by blast
qed

end
