(* ===== verification/Identity.thy ===== *)
theory Identity
  imports TenantScope ProvisionRules
begin

text \<open>
  The pre-tenant identity operations of \<^verbatim>\<open>backend/identity/service.py\<close>: the boundary between
  the backend and the bootstrap functions.  A statement runs on the session's transaction, the
  function it calls is the SQL function of the migrations, and its errors are translated into
  the typed ones by SQLSTATE.
\<close>

section \<open>Records\<close>

record UserRecord =
  ur_id :: uuid
  ur_email :: string
  ur_external_id :: "string option"
  ur_status :: string

definition is_active :: "UserRecord \<Rightarrow> bool" where
  "is_active u = (ur_status u = ACTIVE)"

record ProvisionedIdentity =
  pi_user_id :: uuid
  pi_tenant_id :: uuid
  pi_membership_id :: uuid
  pi_created :: bool

record MembershipRecord =
  mm_membership_id :: uuid
  mm_user_id :: uuid
  mm_tenant_id :: uuid
  mm_role :: string

record TenantMembership =
  tm_membership_id :: uuid
  tm_tenant_id :: uuid
  tm_tenant_name :: string
  tm_tenant_kind :: string
  tm_role :: string

definition normalize_email :: "string \<Rightarrow> string" where
  "normalize_email email = lower (strip email)"

section \<open>Statements\<close>

text \<open>\<^verbatim>\<open>session.execute\<close> of a call of a \<^verbatim>\<open>SECURITY DEFINER\<close> function, which the policies do not
  restrict.  An error aborts the transaction, and an aborted transaction refuses statements.\<close>

definition call_function ::
    "(database \<Rightarrow> db_error + 'a \<times> database) \<Rightarrow> session \<Rightarrow> (db_error + 'a) \<times> session" where
  "call_function f s =
     (if aborted s then (Inl in_failed_transaction, s)
      else case f (contents s) of
          Inl e \<Rightarrow> (Inl e, s\<lparr>aborted := True\<rparr>)
        | Inr (x, d) \<Rightarrow> (Inr x, s\<lparr>contents := d\<rparr>))"

definition query :: "(database \<Rightarrow> 'a) \<Rightarrow> session \<Rightarrow> (exn + 'a) \<times> session" where
  "query f s = (case call_function (\<lambda>d. Inr (f d, d)) s of
     (Inl e, s1) \<Rightarrow> (Inl (DBAPIError e), s1) | (Inr x, s1) \<Rightarrow> (Inr x, s1))"

definition first_row :: "'a list \<Rightarrow> 'a option" where
  "first_row rows = (case rows of [] \<Rightarrow> None | r # _ \<Rightarrow> Some r)"

text \<open>\<^verbatim>\<open>if not text\<close> on an optional text.\<close>

definition falsy :: "string option \<Rightarrow> bool" where
  "falsy v = (v = None \<or> v = Some [])"

section \<open>The service\<close>

definition is_signup_allowed :: "string \<Rightarrow> session \<Rightarrow> (exn + bool) \<times> session" where
  "is_signup_allowed email = query (app_signup_allowed (Some (normalize_email email)))"

definition find_user ::
    "string option \<Rightarrow> string option \<Rightarrow> session \<Rightarrow> (exn + UserRecord option) \<times> session" where
  "find_user email external_id s =
     (if falsy email \<and> falsy external_id
      then (Inl (ValueError ''find_user requires an email or an external_id''), s)
      else query (\<lambda>d. map_option
             (\<lambda>(i, e, x, st). \<lparr>ur_id = i, ur_email = e, ur_external_id = x, ur_status = st\<rparr>)
             (app_find_user (if falsy email then None else map_option normalize_email email)
               external_id d)) s)"

text \<open>\<^verbatim>\<open>_translate\<close>\<close>

definition translate :: "db_error \<Rightarrow> exn" where
  "translate error =
     (let state = sqlstate error
      in if state = Some INVALID_ARGUMENT then
           IdentityError (InvalidIdentityInput ''identity values were rejected by the bootstrap surface'')
         else if state = Some SUBJECT_CONFLICT then
           IdentityError (ExternalSubjectConflict ''email belongs to a different external subject'')
         else if state = Some EMAIL_CONFLICT then
           IdentityError (EmailAlreadyBound ''email already belongs to another identity'')
         else if state = Some BINDING_REQUIRED then
           IdentityError (SubjectBindingRequired ''account exists without a bound external subject'')
         else if state = Some INSUFFICIENT_PRIVILEGE then
           (if py_in ''identity disabled'' (message error)
            then IdentityError (IdentityDisabled ''identity is disabled'')
            else IdentityError (SignupNotAllowed ''email is not on the signup allowlist''))
         else DBAPIError error)"

text \<open>The SQL function the call reaches is an argument: \<open>provision_0004\<close> at the head of the
  migrations.\<close>

definition provision_personal_tenant ::
    "provision_fn \<Rightarrow> fresh_ids \<Rightarrow> timestamp \<Rightarrow> string \<Rightarrow> string option \<Rightarrow> string option
      \<Rightarrow> session \<Rightarrow> (exn + ProvisionedIdentity) \<times> session" where
  "provision_personal_tenant fn g now email external_id name s =
     (let subject = (case external_id of None \<Rightarrow> [] | Some x \<Rightarrow> strip x)
      in if subject = []
         then (Inl (IdentityError (SubjectRequired ''a verified external subject is required'')), s)
         else (case call_function (fn g now (Some email) (Some subject) name) s of
             (Inl e, s1) \<Rightarrow> (Inl (translate e), s1)
           | (Inr r, s1) \<Rightarrow> (Inr \<lparr>pi_user_id = out_user_id r, pi_tenant_id = out_tenant_id r,
                 pi_membership_id = out_membership_id r, pi_created = out_created r\<rparr>, s1)))"

definition list_memberships ::
    "(string \<Rightarrow> 'k::linorder) \<Rightarrow> uuid \<Rightarrow> session \<Rightarrow> (exn + TenantMembership list) \<times> session" where
  "list_memberships collate user_id = query (\<lambda>d. map
     (\<lambda>(m, t, n, k, r). \<lparr>tm_membership_id = m, tm_tenant_id = t, tm_tenant_name = n,
        tm_tenant_kind = k, tm_role = r\<rparr>) (app_list_memberships collate user_id d))"

definition resolve_membership ::
    "uuid \<Rightarrow> uuid \<Rightarrow> session \<Rightarrow> (exn + MembershipRecord option) \<times> session" where
  "resolve_membership user_id tenant_id = query (\<lambda>d. map_option
     (\<lambda>(m, u, t, r). \<lparr>mm_membership_id = m, mm_user_id = u, mm_tenant_id = t, mm_role = r\<rparr>)
     (first_row (app_resolve_membership user_id tenant_id d)))"

section \<open>Reading on an open transaction\<close>

lemma query_ok [simp]: "\<not> aborted s \<Longrightarrow> query f s = (Inr (f (contents s)), s)"
  by (simp add: query_def call_function_def)

lemma query_aborted: "aborted s \<Longrightarrow> query f s = (Inl (DBAPIError in_failed_transaction), s)"
  by (simp add: query_def call_function_def)

section \<open>Normalisation\<close>

text \<open>The two normalisations agree on every address whose outer white space is only blanks;
  they differ on the others.\<close>

lemma normalize_email_sql:
  assumes "strip email = btrim email"
  shows "Some (normalize_email email) = app_normalize_email (Some email)"
  by (simp add: normalize_email_def app_normalize_email_def assms)

text \<open>What the backend sends is a fixed point of the SQL normalisation.\<close>

lemma normalize_email_fixed: "lower (btrim (normalize_email email)) = normalize_email email"
proof -
  have "btrim (lower (strip email)) = lower (strip email)"
    using btrim_strip strip_lower by metis
  then show ?thesis by (simp add: normalize_email_def)
qed

lemma signup_allowed_normalize:
  "app_signup_allowed (Some (normalize_email email)) db
     \<longleftrightarrow> (\<exists>a\<in>set (signup_allowlist db). alw_email_normalized a = normalize_email email)"
  by (auto simp: app_signup_allowed_def app_normalize_email_def list_ex_iff normalize_email_fixed)

section \<open>The translation of errors\<close>

text \<open>Each error the function raises deliberately becomes its own typed error.\<close>

lemma translate_raised [simp]:
  "translate email_required = IdentityError (InvalidIdentityInput ''identity values were rejected by the bootstrap surface'')"
  "translate subject_required = IdentityError (InvalidIdentityInput ''identity values were rejected by the bootstrap surface'')"
  "translate signup_not_allowed = IdentityError (SignupNotAllowed ''email is not on the signup allowlist'')"
  "translate identity_disabled = IdentityError (IdentityDisabled ''identity is disabled'')"
  "translate email_already_bound = IdentityError (EmailAlreadyBound ''email already belongs to another identity'')"
  "translate subject_binding_required = IdentityError (SubjectBindingRequired ''account exists without a bound external subject'')"
  "translate external_subject_conflict = IdentityError (ExternalSubjectConflict ''email belongs to a different external subject'')"
  by code_simp+

section \<open>A provisioning call on an open transaction\<close>

definition subject_text :: "string option \<Rightarrow> string" where
  "subject_text x = (case x of None \<Rightarrow> [] | Some v \<Rightarrow> strip v)"

lemma nullif_blank_subject: "subject_text x \<noteq> [] \<Longrightarrow> nullif_blank (Some (subject_text x)) = Some (subject_text x)"
  by (cases x) (simp_all add: subject_text_def)

lemma service_call:
  assumes "\<not> aborted s" and "subject_text x \<noteq> []"
  shows "provision_personal_tenant fn g now e x n s =
    (case fn g now (Some e) (Some (subject_text x)) n (contents s) of
       Inl err \<Rightarrow> (Inl (translate err), s\<lparr>aborted := True\<rparr>)
     | Inr (r, d) \<Rightarrow> (Inr \<lparr>pi_user_id = out_user_id r, pi_tenant_id = out_tenant_id r,
           pi_membership_id = out_membership_id r, pi_created = out_created r\<rparr>, s\<lparr>contents := d\<rparr>))"
  using assms
  by (cases "fn g now (Some e) (Some (subject_text x)) n (contents s)")
     (auto simp: provision_personal_tenant_def call_function_def subject_text_def)

end
