(* ===== verification/IdentityProps.thy ===== *)
theory IdentityProps
  imports Identity Samples
begin

text \<open>
  Properties of the identity service: what provisioning does to the session and which typed
  error each binding rule becomes, where the two email normalisations agree, and that access
  resolution and the membership list return active rows and nothing else.
\<close>

section \<open>Provisioning through the service\<close>

text \<open>Provisioning through the service either changes nothing in the database, or hands out
  active rows: the user bound to exactly the presented subject and address, the personal tenant
  that user owns, and the membership joining them.  Without a subject no statement runs at all.\<close>

lemma service_provisions_own_account:
  assumes "schema_ok (contents s)" and "\<not> aborted s"
    and "provision_personal_tenant (provision_0004 quiet) g now e x n s = (res, s')"
  shows "case res of
      Inl err \<Rightarrow> contents s' = contents s \<and> (subject_text x = [] \<longrightarrow> s' = s
        \<and> err = IdentityError (SubjectRequired ''a verified external subject is required''))
    | Inr p \<Rightarrow> \<not> aborted s' \<and> schema_ok (contents s') \<and> subject_text x \<noteq> []
        \<and> app_signup_allowed (Some e) (contents s)
        \<and> (\<exists>m u t. (m, u, t) \<in> set (joined (contents s')) \<and> all_active (m, u, t)
            \<and> usr_id u = pi_user_id p \<and> usr_external_id u = Some (subject_text x)
            \<and> email_normalized u = lower (btrim e) \<and> mbr_id m = pi_membership_id p
            \<and> tnt_id t = pi_tenant_id p \<and> is_personal t \<and> tnt_owner_user_id t = pi_user_id p)"
proof (cases "subject_text x = []")
  case True
  with assms(3) show ?thesis
    by (auto simp: provision_personal_tenant_def subject_text_def)
next
  case False
  show ?thesis
  proof (cases "provision_0004 quiet g now (Some e) (Some (subject_text x)) n (contents s)")
    case (Inl err)
    with assms(3) False show ?thesis by (auto simp: service_call [OF assms(2) False])
  next
    case (Inr p)
    obtain r d where p: "p = (r, d)" by (cases p)
    have s': "s' = s\<lparr>contents := d\<rparr>" and res: "res = Inr \<lparr>pi_user_id = out_user_id r,
        pi_tenant_id = out_tenant_id r, pi_membership_id = out_membership_id r,
        pi_created = out_created r\<rparr>"
      using assms(3) unfolding service_call [OF assms(2) False] Inr p by auto
    show ?thesis
    proof (rule provision_0004_Inr [OF Inr [unfolded p] quiet_ok [OF assms(1)]])
      fix v u m t
      assume v: "nullif_blank (Some (subject_text x)) = Some v"
        and h: "lower (btrim e) \<noteq> []" "app_signup_allowed (Some e) (contents s)" "schema_ok d"
        and b: "bound_row d (out_user_id r) (lower (btrim e)) (Some v) ''active'' u"
        and rows: "provisioned_rows d r m u t" "all_active (m, u, t)"
      have "v = subject_text x" using v nullif_blank_subject [OF False] by simp
      then have u: "usr_id u = out_user_id r" "usr_external_id u = Some (subject_text x)"
        "email_normalized u = lower (btrim e)"
        using b by (simp_all add: bound_row_def)
      have "(m, u, t) \<in> set (joined d)" "mbr_id m = out_membership_id r" "tnt_id t = out_tenant_id r"
        "is_personal t" "tnt_owner_user_id t = out_user_id r"
        using rows(1) by (simp_all add: provisioned_rows_def set_joined)
      with u h rows(2) False assms(2) show ?thesis unfolding res s' by fastforce
    qed
  qed
qed

lemma service_provisions_own_account_witness:
  "\<exists>p s'. provision_personal_tenant (provision_0004 quiet) ids_a 5 '' ann@x.io'' (Some '' sub_a '') None
       (open_session db_empty) = (Inr p, s') \<and> schema_ok (contents s') \<and> pi_user_id p = 11"
proof -
  have a: "schema_ok (contents (open_session db_empty))" "\<not> aborted (open_session db_empty)"
    by (simp_all add: open_session_def)
  have f: "subject_text (Some '' sub_a '') = ''sub_a''" by code_simp
  have "provision_0004 quiet ids_a 5 (Some '' ann@x.io'') (Some ''sub_a'') None db_empty
      = Inr (result_a, db_one)"
    by code_simp
  then have c: "provision_personal_tenant (provision_0004 quiet) ids_a 5 '' ann@x.io''
      (Some '' sub_a '') None (open_session db_empty)
    = (Inr \<lparr>pi_user_id = 11, pi_tenant_id = 12, pi_membership_id = 13, pi_created = True\<rparr>,
       open_session db_one)"
    using service_call [OF a(2), of "Some '' sub_a ''"] f
    by (simp add: open_session_def result_a_def)
  from service_provisions_own_account [OF a c] c show ?thesis by auto
qed

text \<open>C13: On an allowlisted address the service answers exactly as the binding rules say, with a
  typed error of its own for every refusal: an address of another identity, a subject conflict
  and an account that was never bound are told apart, and none of them is a database error.  The
  account of the subject is handed over unless it, its personal tenant or the membership in it is
  disabled, and then the answer is that.\<close>

theorem service_follows_rules:
  assumes "schema_ok (contents s)" and "\<not> aborted s" and "subject_text x \<noteq> []"
    and "app_signup_allowed (Some e) (contents s)" and "lower (btrim e) \<noteq> []"
    and "gen_user g \<notin> usr_id ` set (users (contents s))"
    and "gen_tenant g \<notin> tnt_id ` set (tenants (contents s))"
    and "gen_membership g \<notin> mbr_id ` set (memberships (contents s))"
  shows "case binding_decision (contents s) (lower (btrim e)) (subject_text x) of
      Refuse err \<Rightarrow> provision_personal_tenant (provision_0004 quiet) g now e x n s
          = (Inl (translate err), s\<lparr>aborted := True\<rparr>)
        \<and> translate err \<in> {IdentityError (EmailAlreadyBound ''email already belongs to another identity''),
             IdentityError (SubjectBindingRequired ''account exists without a bound external subject''),
             IdentityError (ExternalSubjectConflict ''email belongs to a different external subject'')}
    | Hand_over i \<Rightarrow> if disabled_account (contents s) i
        then fst (provision_personal_tenant (provision_0004 quiet) g now e x n s)
          = Inl (IdentityError (IdentityDisabled ''identity is disabled''))
        else \<exists>p. fst (provision_personal_tenant (provision_0004 quiet) g now e x n s) = Inr p \<and> pi_user_id p = i
    | Create \<Rightarrow> fst (provision_personal_tenant (provision_0004 quiet) g now e x n s)
        = Inr \<lparr>pi_user_id = gen_user g, pi_tenant_id = gen_tenant g,
            pi_membership_id = gen_membership g, pi_created = True\<rparr>"
proof (cases "binding_decision (contents s) (lower (btrim e)) (subject_text x)")
  case (Refuse err)
  have "provision_0004 quiet g now (Some e) (Some (subject_text x)) n (contents s) = Inl err"
    using resolve_user_0004_follows_rules [OF assms(1,6), where e = e and s = "subject_text x" and now = now] Refuse
      nullif_blank_subject [OF assms(3)] assms(4,5)
    by (simp add: provision_0004_def signup_allowed_normalized)
  moreover have "err \<in> {email_already_bound, subject_binding_required, external_subject_conflict}"
    using Refuse by (auto simp: binding_decision_def split: option.splits if_splits)
  ultimately show ?thesis
    using Refuse by (auto simp: service_call [OF assms(2,3)])
next
  case (Hand_over i)
  obtain st d where res: "resolve_user_0004 quiet (gen_user g) now e (lower (btrim e))
      (subject_text x) (contents s) = Inr (i, st, d)"
    using resolve_user_0004_follows_rules [OF assms(1,6), where e = e and s = "subject_text x" and now = now] Hand_over by auto
  obtain u where d: "schema_ok d" and u: "u \<in> set (users d)" "usr_id u = i" "usr_status u = st"
    using resolve_user_0004_Inr [OF res quiet_seen [OF assms(1)]] by (auto simp: bound_row_def)
  obtain v where v: "v \<in> set (users (contents s))" "usr_id v = i"
    using Hand_over bindings_Some by (auto simp: binding_decision_def split: option.splits if_splits)
  note rest = resolve_user_0004_rest [OF res]
  have same: "disabled_account d i \<longleftrightarrow> disabled_account (contents s) i"
    using disabled_account_growth [OF resolve_user_0004_growth(1) [OF res] d v(1)] rest v(2) by simp
  have "gen_tenant g \<notin> tnt_id ` set (tenants d)" "gen_membership g \<notin> mbr_id ` set (memberships d)"
    using assms(7,8) rest by simp_all
  from finish_0004_decides [OF d u(1) this, of now n]
  have "if disabled_account (contents s) i then finish_0004 g now n (i, st, d) = Inl identity_disabled
      else \<exists>r db'. finish_0004 g now n (i, st, d) = Inr (r, db') \<and> out_user_id r = i"
    unfolding u(2,3) same .
  moreover have "provision_0004 quiet g now (Some e) (Some (subject_text x)) n (contents s)
      = finish_0004 g now n (i, st, d)"
    using res assms(4,5) nullif_blank_subject [OF assms(3)]
    by (simp add: provision_0004_def signup_allowed_normalized)
  ultimately show ?thesis
    using Hand_over by (auto simp: service_call [OF assms(2,3)])
next
  case Create
  obtain d where "provision_0004 quiet g now (Some e) (Some (subject_text x)) n (contents s)
      = Inr (\<lparr>out_user_id = gen_user g, out_tenant_id = gen_tenant g,
          out_membership_id = gen_membership g, out_created = True\<rparr>, d)"
    using first_sign_in_creates [OF assms(1,4,5) nullif_blank_subject [OF assms(3)] Create assms(6-8)]
    by blast
  with Create show ?thesis by (simp add: service_call [OF assms(2,3)])
qed

theorem service_follows_rules_witness:
  "provision_personal_tenant (provision_0004 quiet) ids_b 6 ''ann@x.io'' (Some ''sub_z'') None
       (open_session db_one)
     = (Inl (IdentityError (ExternalSubjectConflict ''email belongs to a different external subject'')),
        (open_session db_one)\<lparr>aborted := True\<rparr>)
   \<and> fst (provision_personal_tenant (provision_0004 quiet) ids_b 6 ''bob@x.io'' (Some ''sub_b'') None
       (open_session db_one))
     = Inr \<lparr>pi_user_id = 21, pi_tenant_id = 22, pi_membership_id = 23, pi_created = True\<rparr>"
proof -
  have s: "schema_ok (contents (open_session db_one))" "\<not> aborted (open_session db_one)"
    by (simp_all add: open_session_def)
  have t: "subject_text (Some ''sub_z'') \<noteq> []" "subject_text (Some ''sub_b'') \<noteq> []" by code_simp+
  have a: "app_signup_allowed (Some ''ann@x.io'') (contents (open_session db_one))"
    "app_signup_allowed (Some ''bob@x.io'') (contents (open_session db_one))"
    "lower (btrim ''ann@x.io'') \<noteq> []" "lower (btrim ''bob@x.io'') \<noteq> []" by code_simp+
  have g: "gen_user ids_b \<notin> usr_id ` set (users (contents (open_session db_one)))"
    "gen_tenant ids_b \<notin> tnt_id ` set (tenants (contents (open_session db_one)))"
    "gen_membership ids_b \<notin> mbr_id ` set (memberships (contents (open_session db_one)))" by code_simp+
  have d: "binding_decision (contents (open_session db_one)) (lower (btrim ''ann@x.io''))
      (subject_text (Some ''sub_z'')) = Refuse external_subject_conflict"
    "binding_decision (contents (open_session db_one)) (lower (btrim ''bob@x.io''))
      (subject_text (Some ''sub_b'')) = Create" by code_simp+
  show ?thesis
    using service_follows_rules [OF s t(1) a(1,3) g, of 6 None]
      service_follows_rules [OF s t(2) a(2,4) g, of 6 None] unfolding d
    by (simp add: ids_b_def)
qed

section \<open>Normalisation and lookups\<close>

text \<open>The backend's normalisation of an address is the database's exactly when the white space
  around the address is made of blanks only; for any other address the two differ.\<close>

lemma normalize_email_agreement:
  "Some (normalize_email e) = app_normalize_email (Some e) \<longleftrightarrow> strip e = btrim e"
proof
  assume "Some (normalize_email e) = app_normalize_email (Some e)"
  then have "length (lower (strip e)) = length (lower (btrim e))"
    by (simp add: normalize_email_def app_normalize_email_def)
  then show "strip e = btrim e"
    unfolding strip_def btrim_def length_lower
    by (intro length_trim_trim [where P = py_space and Q = blank]) (rule blank_py_space)
qed (simp add: normalize_email_def app_normalize_email_def)

text \<open>C17: Access resolution succeeds exactly for an active membership of an active user in an
  active tenant, and then returns that membership; disabling any one of the three revokes it.\<close>

theorem resolve_membership_authorizes:
  assumes "schema_ok (contents s)" and "\<not> aborted s"
  shows "\<exists>r. resolve_membership i k s = (Inr r, s)
    \<and> (\<forall>rec. r = Some rec \<longleftrightarrow> (\<exists>m u t. (m, u, t) \<in> set (joined (contents s)) \<and> all_active (m, u, t)
        \<and> mbr_user_id m = i \<and> mbr_tenant_id m = k
        \<and> rec = \<lparr>mm_membership_id = mbr_id m, mm_user_id = i, mm_tenant_id = k, mm_role = mbr_role m\<rparr>))"
proof -
  let ?d = "contents s"
  have "resolve_membership i k s = (Inr (map_option
     (\<lambda>(m, u, t, r). \<lparr>mm_membership_id = m, mm_user_id = u, mm_tenant_id = t, mm_role = r\<rparr>)
     (first_row (app_resolve_membership i k ?d))), s)"
    using assms(2) by (simp add: resolve_membership_def)
  moreover consider (none) "app_resolve_membership i k ?d = []"
      "\<forall>m u t. (m, u, t) \<in> set (joined ?d) \<and> all_active (m, u, t) \<longrightarrow>
        \<not> (mbr_user_id m = i \<and> mbr_tenant_id m = k)"
    | (one) m u t where "app_resolve_membership i k ?d = [(mbr_id m, i, k, mbr_role m)]"
      "(m, u, t) \<in> set (joined ?d)" "all_active (m, u, t)" "mbr_user_id m = i" "mbr_tenant_id m = k"
    using resolve_membership_cases [OF assms(1)] by blast
  then show ?thesis
  proof cases
    case none
    then show ?thesis by (auto simp: calculation first_row_def)
  next
    case one
    have "m' = m" if "(m', u', t') \<in> set (joined ?d)" "mbr_user_id m' = i" "mbr_tenant_id m' = k" for m' u' t'
      by (rule membership_pair_key [OF assms(1)]) (use one that in \<open>simp_all add: set_joined\<close>)
    then have "(\<exists>m' u' t'. (m', u', t') \<in> set (joined ?d) \<and> all_active (m', u', t')
        \<and> mbr_user_id m' = i \<and> mbr_tenant_id m' = k \<and> Q m') \<longleftrightarrow> Q m" for Q
      using one(2-5) by blast
    then show ?thesis
      unfolding calculation one(1) by (simp add: first_row_def eq_commute)
  qed
qed

definition revoked :: "database \<Rightarrow> database" where
  "revoked d = d\<lparr>memberships := map (\<lambda>m. m\<lparr>mbr_status := DISABLED\<rparr>) (memberships d)\<rparr>"

theorem resolve_membership_authorizes_witness:
  "resolve_membership 11 12 (open_session (revoked db_two)) = (Inr None, open_session (revoked db_two))"
proof -
  have s: "schema_ok (contents (open_session (revoked db_two)))" by code_simp
  have n: "\<not> aborted (open_session (revoked db_two))" by (simp add: open_session_def)
  have "list_all (\<lambda>x. \<not> all_active x) (joined (contents (open_session (revoked db_two))))" by code_simp
  then have no: "(m, u, t) \<in> set (joined (contents (open_session (revoked db_two))))
      \<Longrightarrow> \<not> all_active (m, u, t)" for m u t
    by (simp add: list_all_iff)
  from resolve_membership_authorizes [OF s n, of 11 12]
  obtain r where r: "resolve_membership 11 12 (open_session (revoked db_two))
      = (Inr r, open_session (revoked db_two))"
    and iff: "\<forall>rec. r = Some rec \<longleftrightarrow> (\<exists>m u t.
        (m, u, t) \<in> set (joined (contents (open_session (revoked db_two)))) \<and> all_active (m, u, t)
        \<and> mbr_user_id m = 11 \<and> mbr_tenant_id m = 12 \<and> rec = \<lparr>mm_membership_id = mbr_id m,
            mm_user_id = 11, mm_tenant_id = 12, mm_role = mbr_role m\<rparr>)"
    by (elim exE conjE)
  have "r = None"
  proof (cases r)
    case (Some rec)
    with iff obtain m u t where "(m, u, t) \<in> set (joined (contents (open_session (revoked db_two))))"
      "all_active (m, u, t)" by metis
    with no show ?thesis by blast
  qed
  with r show ?thesis by simp
qed

text \<open>C29: The membership list of a user names each tenant at most once, the personal tenant first,
  and holds exactly the active memberships of that user in active tenants.\<close>

theorem list_memberships_exact:
  fixes collate :: "string \<Rightarrow> 'k::linorder"
  assumes "schema_ok (contents s)" and "\<not> aborted s"
  shows "\<exists>rows. list_memberships collate i s = (Inr rows, s) \<and> distinct (map tm_tenant_id rows)
    \<and> sorted (map (\<lambda>r. (tm_tenant_kind r \<noteq> KIND_PERSONAL, collate (tm_tenant_name r))) rows)
    \<and> (\<forall>r. r \<in> set rows \<longleftrightarrow> (\<exists>m u t. (m, u, t) \<in> set (joined (contents s)) \<and> all_active (m, u, t)
        \<and> mbr_user_id m = i \<and> r = \<lparr>tm_membership_id = mbr_id m, tm_tenant_id = tnt_id t,
            tm_tenant_name = tnt_name t, tm_tenant_kind = tnt_kind t, tm_role = mbr_role m\<rparr>))"
proof -
  let ?mk = "\<lambda>(m, t, n, k, r). \<lparr>tm_membership_id = m, tm_tenant_id = t, tm_tenant_name = n,
        tm_tenant_kind = k, tm_role = r\<rparr>"
  let ?rows = "map ?mk (app_list_memberships collate i (contents s))"
  have "list_memberships collate i s = (Inr ?rows, s)"
    using assms(2) by (simp add: list_memberships_def)
  moreover have "distinct (map tm_tenant_id ?rows)"
    using list_memberships_distinct [OF assms(1), of collate i]
    by (simp add: case_prod_unfold comp_def)
  moreover have "sorted (map (\<lambda>r. (tm_tenant_kind r \<noteq> KIND_PERSONAL, collate (tm_tenant_name r))) ?rows)"
    using sorted_list_memberships [of collate i "contents s"]
    by (simp add: case_prod_unfold comp_def)
  moreover have "r \<in> set ?rows \<longleftrightarrow> (\<exists>m u t. (m, u, t) \<in> set (joined (contents s))
      \<and> all_active (m, u, t) \<and> mbr_user_id m = i \<and> r = \<lparr>tm_membership_id = mbr_id m,
          tm_tenant_id = tnt_id t, tm_tenant_name = tnt_name t, tm_tenant_kind = tnt_kind t,
          tm_role = mbr_role m\<rparr>)" for r
  proof -
    have "r \<in> set ?rows \<longleftrightarrow> (\<exists>mi ti tn tk ro.
        (mi, ti, tn, tk, ro) \<in> set (app_list_memberships collate i (contents s)) \<and> r = ?mk (mi, ti, tn, tk, ro))"
      unfolding set_map image_iff Bex_def by (simp only: split_paired_Ex)
    then show ?thesis unfolding set_list_memberships prod.case by blast
  qed
  ultimately show ?thesis by blast
qed

theorem list_memberships_exact_witness:
  "\<exists>rows. list_memberships length 11 (open_session db_two) = (Inr rows, open_session db_two)
     \<and> distinct (map tm_tenant_id rows)"
proof -
  have "schema_ok (contents (open_session db_two))" "\<not> aborted (open_session db_two)"
    by (simp_all add: open_session_def)
  from list_memberships_exact [OF this, of length 11] show ?thesis by blast
qed

end
