(* ===== verification/RateLimit.thy ===== *)
theory RateLimit
  imports Prelude Complex_Main "HOL-Library.AList"
begin

text \<open>
  The in-process limiter of \<^verbatim>\<open>backend/auth/ratelimit.py\<close>.  A check holds the lock for its whole
  effect and the routes call it from one event loop, so a run is a list of attempts in the order
  of their clock readings.  The abstract specification keeps every accepted attempt for ever and
  counts those younger than the window; the limiter with its bounded memory refines it as long as
  no more keys are presented than it may hold.
\<close>

section \<open>The limiter\<close>

text \<open>The clock is exact: readings of \<^verbatim>\<open>monotonic()\<close> and the window are rational seconds.  The
  dictionary is its items in insertion order.\<close>

record FixedWindowLimiter =
  lim_limit :: int
  lim_window :: rat
  lim_max_keys :: nat
  lim_hits :: "(string \<times> rat list) list"

definition FixedWindowLimiter_init :: "int \<Rightarrow> rat \<Rightarrow> nat \<Rightarrow> FixedWindowLimiter" where
  "FixedWindowLimiter_init limit window_seconds max_keys =
     \<lparr>lim_limit = max 1 limit, lim_window = window_seconds, lim_max_keys = max_keys, lim_hits = []\<rparr>"

text \<open>\<^verbatim>\<open>{k: v for k, v in hits.items() if v and now - v[-1] < window}\<close>\<close>

definition live_items :: "rat \<Rightarrow> rat \<Rightarrow> (string \<times> rat list) list \<Rightarrow> (string \<times> rat list) list" where
  "live_items window now hits = filter (\<lambda>(k, v). v \<noteq> [] \<and> now - last v < window) hits"

definition pruned_hits :: "rat \<Rightarrow> FixedWindowLimiter \<Rightarrow> (string \<times> rat list) list" where
  "pruned_hits now l =
     (if length (lim_hits l) > lim_max_keys l
      then let kept = live_items (lim_window l) now (lim_hits l)
           in if length kept > lim_max_keys l then [] else kept
      else lim_hits l)"

definition check :: "string \<Rightarrow> rat \<Rightarrow> FixedWindowLimiter \<Rightarrow> bool \<times> FixedWindowLimiter" where
  "check key now l =
     (let hits = pruned_hits now l;
          stored = (case map_of hits key of None \<Rightarrow> [] | Some v \<Rightarrow> v);
          queue = dropWhile (\<lambda>h. now - h \<ge> lim_window l) stored
      in if int (length queue) \<ge> lim_limit l
         then (False, l\<lparr>lim_hits := AList.update key queue hits\<rparr>)
         else (True, l\<lparr>lim_hits := AList.update key (queue @ [now]) hits\<rparr>))"

text \<open>A run of attempts, of any limiter.\<close>

primrec run_attempts ::
    "(string \<Rightarrow> rat \<Rightarrow> 's \<Rightarrow> bool \<times> 's) \<Rightarrow> (string \<times> rat) list \<Rightarrow> 's \<Rightarrow> bool list \<times> 's" where
  "run_attempts chk [] s = ([], s)"
| "run_attempts chk (a # as) s =
     (let (ok, s1) = chk (fst a) (snd a) s; (oks, s2) = run_attempts chk as s1 in (ok # oks, s2))"

abbreviation run_checks ::
    "(string \<times> rat) list \<Rightarrow> FixedWindowLimiter \<Rightarrow> bool list \<times> FixedWindowLimiter" where
  "run_checks \<equiv> run_attempts check"

text \<open>The accepted attempts of a run.\<close>

definition accepted :: "string \<Rightarrow> (string \<times> rat) list \<Rightarrow> bool list \<Rightarrow> rat list" where
  "accepted k as oks = map (\<lambda>(a, ok). snd a) (filter (\<lambda>(a, ok). ok \<and> fst a = k) (zip as oks))"

section \<open>What a route relies on\<close>

text \<open>A limiter that counts accepted attempts only, and accepts a key none of whose pending
  attempts is younger than its window.\<close>

locale attempt_limiter =
  fixes chk :: "string \<Rightarrow> rat \<Rightarrow> 's \<Rightarrow> bool \<times> 's"
    and good :: "rat \<Rightarrow> 's \<Rightarrow> bool"
    and pending :: "'s \<Rightarrow> string \<Rightarrow> rat list"
    and width :: "'s \<Rightarrow> rat"
  assumes good_step: "good prev s \<Longrightarrow> prev \<le> now \<Longrightarrow> good now (snd (chk k now s))"
    and pending_step: "good prev s \<Longrightarrow> prev \<le> now \<Longrightarrow> set (pending (snd (chk k now s)) j)
      \<subseteq> set (pending s j) \<union> (if fst (chk k now s) \<and> j = k then {now} else {})"
    and width_step: "width (snd (chk k now s)) = width s"
    and accepts_idle: "good prev s \<Longrightarrow> prev \<le> now \<Longrightarrow> \<forall>h\<in>set (pending s k). now - h \<ge> width s
      \<Longrightarrow> fst (chk k now s)"
begin

lemma run_width: "width (snd (run_attempts chk as s)) = width s"
  by (induction "as" arbitrary: s) (simp_all add: split_beta Let_def width_step)

lemma run_good: "good prev s \<Longrightarrow> sorted (prev # map snd as)
    \<Longrightarrow> good (foldl max prev (map snd as)) (snd (run_attempts chk as s))"
proof (induction "as" arbitrary: prev s)
  case (Cons a as)
  have "good (snd a) (snd (chk (fst a) (snd a) s))"
    using good_step [OF Cons.prems(1), of "snd a" "fst a"] Cons.prems(2) by simp
  from Cons.IH [OF this] Cons.prems(2) show ?case by (simp add: split_beta Let_def max_def)
qed simp

lemma run_pending:
  "good prev s \<Longrightarrow> sorted (prev # map snd as) \<Longrightarrow> set (pending (snd (run_attempts chk as s)) k)
    \<subseteq> set (pending s k) \<union> set (accepted k as (fst (run_attempts chk as s)))"
proof (induction "as" arbitrary: prev s)
  case (Cons a as)
  let ?s = "snd (chk (fst a) (snd a) s)"
  have le: "prev \<le> snd a" using Cons.prems(2) by simp
  have "set (pending (snd (run_attempts chk as ?s)) k)
      \<subseteq> set (pending ?s k) \<union> set (accepted k as (fst (run_attempts chk as ?s)))"
    by (rule Cons.IH [OF good_step [OF Cons.prems(1) le]]) (use Cons.prems(2) in simp)
  moreover have "set (accepted k (a # as) (fst (run_attempts chk (a # as) s)))
      = (if fst (chk (fst a) (snd a) s) \<and> k = fst a then {snd a} else {})
        \<union> set (accepted k as (fst (run_attempts chk as ?s)))"
    by (auto simp: accepted_def split_beta Let_def)
  moreover have "snd (run_attempts chk (a # as) s) = snd (run_attempts chk as ?s)"
    by (simp add: split_beta Let_def)
  ultimately show ?case
    using pending_step [OF Cons.prems(1) le, of "fst a" k] by auto
qed simp

text \<open>Recovery: refused attempts do not count.\<close>

lemma recovers:
  assumes "good prev s" and "sorted (prev # map snd as @ [now])" and "pending s k = []"
    and "\<forall>h\<in>set (accepted k as (fst (run_attempts chk as s))). now - h \<ge> width s"
  shows "fst (chk k now (snd (run_attempts chk as s)))"
proof -
  have s: "sorted (prev # map snd as)" using assms(2) by (simp add: sorted_append)
  have "\<forall>h\<in>set (map snd as). h \<le> now" and "prev \<le> now"
    using assms(2) by (simp_all add: sorted_append)
  then have "foldl max prev (map snd as) \<le> now"
    using foldl_max_le [where m = prev and xs = "map snd as" and b = now] by simp
  moreover have "\<forall>h\<in>set (pending (snd (run_attempts chk as s)) k).
      now - h \<ge> width (snd (run_attempts chk as s))"
    using run_pending [OF assms(1) s, of k] assms(3,4) by (auto simp: run_width)
  ultimately show ?thesis by (rule accepts_idle [OF run_good [OF assms(1) s]])
qed

end

section \<open>The specification\<close>

text \<open>The log of accepted attempts per key, and the rule: accept while fewer than the limit are
  younger than the window.\<close>

definition young :: "rat \<Rightarrow> rat \<Rightarrow> rat list \<Rightarrow> rat list" where
  "young window now hs = filter (\<lambda>h. now - h < window) hs"

definition spec_check ::
    "int \<Rightarrow> rat \<Rightarrow> string \<Rightarrow> rat \<Rightarrow> (string \<Rightarrow> rat list) \<Rightarrow> bool \<times> (string \<Rightarrow> rat list)" where
  "spec_check limit window key now past =
     (if int (length (young window now (past key))) < limit
      then (True, past(key := past key @ [now])) else (False, past))"

primrec spec_run ::
    "int \<Rightarrow> rat \<Rightarrow> (string \<times> rat) list \<Rightarrow> (string \<Rightarrow> rat list) \<Rightarrow> bool list \<times> (string \<Rightarrow> rat list)"
where
  "spec_run limit window [] past = ([], past)"
| "spec_run limit window (a # as) past =
     (let (ok, past1) = spec_check limit window (fst a) (snd a) past;
          (oks, past2) = spec_run limit window as past1 in (ok # oks, past2))"

section \<open>The specification bounds every window\<close>

definition spec_inv :: "int \<Rightarrow> rat \<Rightarrow> rat \<Rightarrow> (string \<Rightarrow> rat list) \<Rightarrow> bool" where
  "spec_inv limit window now past = (\<forall>k. (\<forall>h\<in>set (past k). h \<le> now)
     \<and> (\<forall>t. int (length (filter (\<lambda>h. t - window < h \<and> h \<le> t) (past k))) \<le> limit))"

lemma spec_inv_empty: "0 \<le> limit \<Longrightarrow> spec_inv limit window now (\<lambda>_. [])"
  by (simp add: spec_inv_def)

lemma spec_inv_check:
  assumes inv: "spec_inv limit window prev past" and "prev \<le> now"
  shows "spec_inv limit window now (snd (spec_check limit window key now past))"
proof (cases "int (length (young window now (past key))) < limit")
  case False
  with inv assms(2) show ?thesis
    by (fastforce simp: spec_check_def spec_inv_def)
next
  case True
  have old: "h \<le> prev" if "h \<in> set (past k)" for h k
    using inv that by (auto simp: spec_inv_def)
  have "int (length (filter (\<lambda>h. t - window < h \<and> h \<le> t) (past key @ [now]))) \<le> limit" for t
  proof (cases "t - window < now \<and> now \<le> t")
    case False
    then have "filter (\<lambda>h. t - window < h \<and> h \<le> t) (past key @ [now])
        = filter (\<lambda>h. t - window < h \<and> h \<le> t) (past key)" by simp
    with inv show ?thesis by (simp only: spec_inv_def)
  next
    case in_window: True
    have "length (filter (\<lambda>h. t - window < h \<and> h \<le> t) (past key))
        \<le> length (filter (\<lambda>h. now - h < window) (past key))"
    proof (rule length_filter_weaken)
      fix h assume "t - window < h \<and> h \<le> t"
      with in_window show "now - h < window" by linarith
    qed
    with True in_window show ?thesis by (simp add: young_def)
  qed
  with True inv old assms(2) show ?thesis
    by (fastforce simp: spec_check_def spec_inv_def)
qed

lemma spec_inv_run:
  assumes "spec_inv limit window prev past" and "sorted (prev # map snd as)"
  shows "\<exists>now. spec_inv limit window now (snd (spec_run limit window as past))"
  using assms
proof (induction "as" arbitrary: prev past)
  case (Cons a as)
  have inv: "spec_inv limit window (snd a) (snd (spec_check limit window (fst a) (snd a) past))"
    by (rule spec_inv_check [OF Cons.prems(1)]) (use Cons.prems(2) in simp)
  obtain ok past1 where c: "spec_check limit window (fst a) (snd a) past = (ok, past1)"
    by (cases "spec_check limit window (fst a) (snd a) past")
  from Cons.IH [OF inv] Cons.prems(2) show ?case
    by (auto simp: c split: prod.splits)
qed auto

text \<open>The log is the accepted attempts of the run.\<close>

lemma spec_run_accepted:
  "snd (spec_run limit window as past) k = past k @ accepted k as (fst (spec_run limit window as past))"
proof (induction "as" arbitrary: past)
  case (Cons a as)
  obtain ok past1 where c: "spec_check limit window (fst a) (snd a) past = (ok, past1)"
    by (cases "spec_check limit window (fst a) (snd a) past")
  have "past1 k = past k @ (if ok \<and> fst a = k then [snd a] else [])"
    using c by (auto simp: spec_check_def split: if_splits)
  with Cons.IH [of past1] c show ?case
    by (simp add: accepted_def split_beta)
qed (simp add: accepted_def)

section \<open>The limiter's state\<close>

definition stored :: "FixedWindowLimiter \<Rightarrow> string \<Rightarrow> rat list" where
  "stored l k = (case map_of (lim_hits l) k of None \<Rightarrow> [] | Some v \<Rightarrow> v)"

definition limiter_ok :: "rat \<Rightarrow> FixedWindowLimiter \<Rightarrow> bool" where
  "limiter_ok now l = (distinct (map fst (lim_hits l)) \<and> length (lim_hits l) \<le> lim_max_keys l + 1
     \<and> lim_limit l \<ge> 1 \<and> (\<forall>(k, v)\<in>set (lim_hits l). sorted v \<and> (\<forall>h\<in>set v. h \<le> now)
         \<and> int (length v) \<le> lim_limit l))"

lemma limiter_ok_init: "limiter_ok now (FixedWindowLimiter_init limit w m)"
  by (simp add: limiter_ok_def FixedWindowLimiter_init_def)

lemma sorted_dropWhile_young:
  "sorted v \<Longrightarrow> dropWhile (\<lambda>h. now - h \<ge> w) v = young w now (v :: rat list)"
proof (induction v)
  case (Cons a v)
  show ?case
  proof (cases "now - a \<ge> w")
    case False
    then have "\<forall>h\<in>set (a # v). now - h < w" using Cons.prems by fastforce
    with False show ?thesis by (simp add: young_def)
  qed (use Cons in \<open>simp add: young_def\<close>)
qed (simp add: young_def)

text \<open>Filtering the items of a dictionary filters the lookup.\<close>

lemma lookup_live:
  assumes "distinct (map fst items)"
  shows "map_of (filter keep items) key = Option.bind (map_of items key)
    (\<lambda>queue. if keep (key, queue) then Some queue else None)"
  using assms
proof (induction items)
  case (Cons item rest)
  obtain k queue where item: "item = (k, queue)" by (cases item)
  have "map_of rest key = None" if "k = key"
    using Cons.prems that by (auto simp: item map_of_eq_None_iff)
  with Cons show ?case by (auto simp: item)
qed simp

lemma stored_ok:
  assumes "limiter_ok now l"
  shows "sorted (stored l k) \<and> (\<forall>h\<in>set (stored l k). h \<le> now) \<and> int (length (stored l k)) \<le> lim_limit l"
proof (cases "map_of (lim_hits l) k")
  case None
  with assms show ?thesis by (simp add: stored_def limiter_ok_def)
next
  case (Some v)
  then have "(k, v) \<in> set (lim_hits l)" by (rule map_of_SomeD)
  with assms Some show ?thesis by (auto simp: stored_def limiter_ok_def)
qed

lemma set_update_subset: "set (AList.update k v xs) \<subseteq> insert (k, v) (set xs)"
  by (induction xs) auto

lemma length_update_le: "length (AList.update k v xs) \<le> Suc (length xs)"
  by (induction xs) auto

lemma pruned_hits_ok:
  assumes "limiter_ok prev l"
  shows "distinct (map fst (pruned_hits now l)) \<and> length (pruned_hits now l) \<le> lim_max_keys l
    \<and> set (pruned_hits now l) \<subseteq> set (lim_hits l)"
  using assms
  by (auto simp: pruned_hits_def Let_def live_items_def limiter_ok_def prefix_map_filter_distinct)

lemma stored_check:
  assumes "limiter_ok prev l"
  shows "stored (snd (check key now l)) k =
    (if k = key then young (lim_window l) now (stored (l\<lparr>lim_hits := pruned_hits now l\<rparr>) key)
        @ (if fst (check key now l) then [now] else [])
     else stored (l\<lparr>lim_hits := pruned_hits now l\<rparr>) k)"
proof -
  let ?v = "stored (l\<lparr>lim_hits := pruned_hits now l\<rparr>) key"
  have "sorted ?v"
    using pruned_hits_ok [OF assms, of now] assms
    by (auto simp: stored_def limiter_ok_def split: option.splits dest!: map_of_SomeD)
  then have "dropWhile (\<lambda>h. now - h \<ge> lim_window l) ?v = young (lim_window l) now ?v"
    by (rule sorted_dropWhile_young)
  then show ?thesis
    by (simp add: check_def Let_def stored_def update_conv')
qed

text \<open>A check keeps the state well formed: at most one key more than the bound, and at most the
  limit of clock readings per key, in order.\<close>

lemma limiter_ok_check:
  assumes ok: "limiter_ok prev l" and "prev \<le> now"
  shows "limiter_ok now (snd (check key now l))"
proof -
  let ?h = "pruned_hits now l"
  have p: "distinct (map fst ?h)" "length ?h \<le> lim_max_keys l" "set ?h \<subseteq> set (lim_hits l)"
    using pruned_hits_ok [OF ok] by blast+
  have each: "sorted v \<and> (\<forall>h\<in>set v. h \<le> now) \<and> int (length v) \<le> lim_limit l" if "(k, v) \<in> set ?h" for k v
    using ok p(3) that assms(2) by (fastforce simp: limiter_ok_def)
  define q where "q = dropWhile (\<lambda>h. now - h \<ge> lim_window l)
    (case map_of ?h key of None \<Rightarrow> [] | Some v \<Rightarrow> v)"
  have s: "sorted (case map_of ?h key of None \<Rightarrow> [] | Some v \<Rightarrow> v)
      \<and> (\<forall>h\<in>set (case map_of ?h key of None \<Rightarrow> [] | Some v \<Rightarrow> v). h \<le> now)
      \<and> int (length (case map_of ?h key of None \<Rightarrow> [] | Some v \<Rightarrow> v)) \<le> lim_limit l"
    using each ok by (auto split: option.splits dest!: map_of_SomeD simp: limiter_ok_def)
  then have q: "sorted q" "\<forall>h\<in>set q. h \<le> now" "int (length q) \<le> lim_limit l"
    unfolding q_def using length_dropWhile_le [of "\<lambda>h. now - h \<ge> lim_window l"]
    by (auto simp: sorted_dropWhile dest: set_dropWhileD intro: order.trans) (metis int_ops(1) of_nat_le_iff order.trans)
  obtain w where c: "snd (check key now l) = l\<lparr>lim_hits := AList.update key w ?h\<rparr>"
    and w: "sorted w" "\<forall>h\<in>set w. h \<le> now" "int (length w) \<le> lim_limit l"
  proof (cases "int (length q) \<ge> lim_limit l")
    case True
    with q show thesis by (intro that [of q]) (simp_all add: check_def Let_def q_def)
  next
    case False
    with q show thesis
      by (intro that [of "q @ [now]"]) (simp_all add: check_def Let_def q_def sorted_append)
  qed
  have "length (AList.update key w ?h) \<le> lim_max_keys l + 1"
    using length_update_le [of key w ?h] p(2) by simp
  with w p(1) ok each show ?thesis
    unfolding limiter_ok_def c using set_update_subset [of key w ?h]
    by (auto simp: distinct_update dest!: subsetD)
qed

section \<open>Refinement\<close>

text \<open>The keys with an attempt younger than the window; a run is within capacity when at each
  attempt there are no more of them than the limiter may hold.\<close>

definition live_keys :: "rat \<Rightarrow> rat \<Rightarrow> (string \<times> rat) list \<Rightarrow> string list" where
  "live_keys window now seen = remdups (map fst (filter (\<lambda>(k, h). now - h < window) seen))"

primrec within_capacity ::
    "nat \<Rightarrow> rat \<Rightarrow> (string \<times> rat) list \<Rightarrow> (string \<times> rat) list \<Rightarrow> bool" where
  "within_capacity m window seen [] = True"
| "within_capacity m window seen (a # as) =
     (length (live_keys window (snd a) seen) \<le> m \<and> within_capacity m window (seen @ [a]) as)"

definition simulates ::
    "rat \<Rightarrow> (string \<times> rat) list \<Rightarrow> FixedWindowLimiter \<Rightarrow> (string \<Rightarrow> rat list) \<Rightarrow> bool" where
  "simulates now seen l past = (limiter_ok now l
     \<and> (\<forall>k t. now \<le> t \<longrightarrow> young (lim_window l) t (stored l k) = young (lim_window l) t (past k))
     \<and> (\<forall>k. \<forall>h\<in>set (stored l k). (k, h) \<in> set seen))"

lemma simulates_init: "simulates now [] (FixedWindowLimiter_init limit w m) (\<lambda>_. [])"
  unfolding simulates_def
  by (simp add: limiter_ok_init) (simp add: stored_def young_def FixedWindowLimiter_init_def)

lemma pruned_within_capacity:
  assumes ok: "limiter_ok prev l" and seen: "\<forall>k. \<forall>h\<in>set (stored l k). (k, h) \<in> set seen"
    and cap: "length (live_keys (lim_window l) now seen) \<le> lim_max_keys l"
  shows "pruned_hits now l = lim_hits l \<or> pruned_hits now l = live_items (lim_window l) now (lim_hits l)"
proof -
  let ?kept = "live_items (lim_window l) now (lim_hits l)"
  have d: "distinct (map fst (lim_hits l))" using ok by (simp add: limiter_ok_def)
  then have "distinct (map fst ?kept)" by (simp add: live_items_def prefix_map_filter_distinct)
  moreover have "set (map fst ?kept) \<subseteq> set (live_keys (lim_window l) now seen)"
  proof
    fix k assume "k \<in> set (map fst ?kept)"
    then obtain v where v: "(k, v) \<in> set (lim_hits l)" "v \<noteq> []" "now - last v < lim_window l"
      by (auto simp: live_items_def)
    then have "stored l k = v" using d by (simp add: stored_def)
    with seen v have "(k, last v) \<in> set seen" by auto
    with v(3) show "k \<in> set (live_keys (lim_window l) now seen)"
      by (force simp: live_keys_def)
  qed
  ultimately have "length (map fst ?kept) \<le> length (live_keys (lim_window l) now seen)"
    by (metis card_length card_mono distinct_card finite_set order.trans)
  with cap show ?thesis by (simp add: pruned_hits_def Let_def)
qed

lemma young_young: "now \<le> t \<Longrightarrow> young w t (young w now v) = young w t v"
  unfolding young_def by (rule filter_stronger) simp

lemma young_Nil_later: "now \<le> t \<Longrightarrow> young w now v = [] \<Longrightarrow> young w t v = []"
  using young_young [of now t w v] by (simp add: young_def)

text \<open>Dropping the keys whose newest attempt has expired loses nothing that still counts.\<close>

lemma young_live_items:
  assumes ok: "limiter_ok prev l" and "now \<le> t"
  shows "young (lim_window l) t (stored (l\<lparr>lim_hits := live_items (lim_window l) now (lim_hits l)\<rparr>) k)
    = young (lim_window l) t (stored l k)"
proof (cases "map_of (lim_hits l) k")
  case None
  then show ?thesis
    using ok by (simp add: stored_def live_items_def limiter_ok_def lookup_live)
next
  case (Some v)
  then have v: "sorted v" using ok by (auto simp: limiter_ok_def dest!: map_of_SomeD)
  have "young (lim_window l) now v = []" if "v = [] \<or> \<not> now - last v < lim_window l"
  proof (cases "v = []")
    case False
    have "h \<le> last v" if "h \<in> set v" for h
      using v that by (rule sorted_le_last)
    with that False show ?thesis by (fastforce simp: young_def filter_empty_conv)
  qed (simp add: young_def)
  with Some ok show ?thesis
    using young_Nil_later [OF assms(2), of "lim_window l" v]
    by (auto simp: stored_def live_items_def limiter_ok_def lookup_live young_def)
qed

lemma check_fields [simp]:
  "lim_limit (snd (check k now l)) = lim_limit l" "lim_window (snd (check k now l)) = lim_window l"
  "lim_max_keys (snd (check k now l)) = lim_max_keys l"
  by (simp_all add: check_def Let_def)

lemma fst_check:
  assumes "limiter_ok prev l"
  shows "fst (check key now l) \<longleftrightarrow> int (length (young (lim_window l) now
    (stored (l\<lparr>lim_hits := pruned_hits now l\<rparr>) key))) < lim_limit l"
proof -
  let ?v = "stored (l\<lparr>lim_hits := pruned_hits now l\<rparr>) key"
  have "sorted ?v"
    using pruned_hits_ok [OF assms, of now] assms
    by (auto simp: stored_def limiter_ok_def split: option.splits dest!: map_of_SomeD)
  then have "dropWhile (\<lambda>h. now - h \<ge> lim_window l) ?v = young (lim_window l) now ?v"
    by (rule sorted_dropWhile_young)
  then show ?thesis by (auto simp: check_def Let_def stored_def)
qed

lemma stored_pruned_subset:
  assumes "limiter_ok prev l"
  shows "set (stored (l\<lparr>lim_hits := pruned_hits now l\<rparr>) k) \<subseteq> set (stored l k)"
proof (cases "map_of (pruned_hits now l) k")
  case (Some v)
  then have "(k, v) \<in> set (lim_hits l)"
    using pruned_hits_ok [OF assms, of now] by (auto dest: map_of_SomeD)
  with Some assms show ?thesis by (simp add: stored_def limiter_ok_def)
qed (simp add: stored_def)

lemma simulates_check:
  assumes sim: "simulates prev seen l past" and "prev \<le> now"
    and cap: "length (live_keys (lim_window l) now seen) \<le> lim_max_keys l"
  shows "fst (check key now l) = fst (spec_check (lim_limit l) (lim_window l) key now past)
    \<and> simulates now (seen @ [(key, now)]) (snd (check key now l))
        (snd (spec_check (lim_limit l) (lim_window l) key now past))"
proof -
  let ?w = "lim_window l" and ?p = "l\<lparr>lim_hits := pruned_hits now l\<rparr>"
  have ok: "limiter_ok prev l" and seen: "\<forall>k. \<forall>h\<in>set (stored l k). (k, h) \<in> set seen"
    and eq: "\<And>k t. prev \<le> t \<Longrightarrow> young ?w t (stored l k) = young ?w t (past k)"
    using sim by (simp_all add: simulates_def)
  have pr: "young ?w t (stored ?p k) = young ?w t (past k)" if "now \<le> t" for k t
  proof -
    have "young ?w t (stored ?p k) = young ?w t (stored l k)"
      using pruned_within_capacity [OF ok seen cap] young_live_items [OF ok that, of k] by auto
    with eq [of t k] that assms(2) show ?thesis by simp
  qed
  have f: "fst (check key now l) = fst (spec_check (lim_limit l) ?w key now past)"
    using pr [of now key] by (simp add: fst_check [OF ok] spec_check_def)
  have y: "young ?w t (stored (snd (check key now l)) k)
      = young ?w t (snd (spec_check (lim_limit l) ?w key now past) k)" if "now \<le> t" for k t
  proof (cases "k = key")
    case True
    have "young ?w t (young ?w now (stored ?p key) @ ys) = young ?w t (past key @ ys)" for ys
      using pr [OF that, of key] young_young [OF that, of ?w "stored ?p key"] by (simp add: young_def)
    with True f show ?thesis
      by (auto simp: stored_check [OF ok] spec_check_def split: if_splits)
  next
    case False
    with pr [OF that, of k] show ?thesis
      by (auto simp: stored_check [OF ok] spec_check_def)
  qed
  have "(k, h) \<in> set (seen @ [(key, now)])" if "h \<in> set (stored (snd (check key now l)) k)" for k h
    using that seen stored_pruned_subset [OF ok, of now k]
    by (auto simp: stored_check [OF ok] young_def split: if_splits)
  with f y limiter_ok_check [OF ok assms(2)] show ?thesis by (simp add: simulates_def)
qed

lemma simulates_run:
  assumes "simulates prev seen l past" and "sorted (prev # map snd as)"
    and "within_capacity (lim_max_keys l) (lim_window l) seen as"
  shows "fst (run_checks as l) = fst (spec_run (lim_limit l) (lim_window l) as past)"
  using assms
proof (induction "as" arbitrary: prev seen l past)
  case (Cons a as)
  obtain key now where a: "a = (key, now)" by (cases a)
  have step: "fst (check key now l) = fst (spec_check (lim_limit l) (lim_window l) key now past)"
      "simulates now (seen @ [(key, now)]) (snd (check key now l))
        (snd (spec_check (lim_limit l) (lim_window l) key now past))"
    using simulates_check [OF Cons.prems(1), of now key] Cons.prems(2,3) by (simp_all add: a)
  have "fst (run_checks as (snd (check key now l)))
      = fst (spec_run (lim_limit l) (lim_window l) as (snd (spec_check (lim_limit l) (lim_window l) key now past)))"
    using Cons.IH [OF step(2)] Cons.prems(2,3) by (simp add: a)
  with step(1) show ?case by (simp add: a split_beta Let_def)
qed simp

lemma FixedWindowLimiter_init_sel [simp]:
  "lim_limit (FixedWindowLimiter_init limit w m) = max 1 limit"
  "lim_window (FixedWindowLimiter_init limit w m) = w"
  "lim_max_keys (FixedWindowLimiter_init limit w m) = m"
  "lim_hits (FixedWindowLimiter_init limit w m) = []"
  "stored (FixedWindowLimiter_init limit w m) k = []"
  by (simp_all add: FixedWindowLimiter_init_def stored_def)

lemma fresh_run:
  assumes "sorted (prev # map snd as)" and "within_capacity m w [] as"
  shows "fst (run_checks as (FixedWindowLimiter_init limit w m))
    = fst (spec_run (max 1 limit) w as (\<lambda>_. []))"
  using simulates_run [OF simulates_init assms(1), of limit w m] assms(2)
  by (simp only: FixedWindowLimiter_init_sel)

section \<open>The limiter meets the interface\<close>

interpretation fixed_window: attempt_limiter check limiter_ok stored lim_window
proof
  fix prev now :: rat and l k
  assume l: "limiter_ok prev l" "prev \<le> now"
  show "limiter_ok now (snd (check k now l))" by (rule limiter_ok_check [OF l])
  show "set (stored (snd (check k now l)) j)
      \<subseteq> set (stored l j) \<union> (if fst (check k now l) \<and> j = k then {now} else {})" for j
    using stored_pruned_subset [OF l(1), of now j]
    by (auto simp: stored_check [OF l(1)] young_def split: if_splits)
  show "fst (check k now l)" if "\<forall>h\<in>set (stored l k). now - h \<ge> lim_window l"
  proof -
    have "young (lim_window l) now (stored (l\<lparr>lim_hits := pruned_hits now l\<rparr>) k) = []"
      using that stored_pruned_subset [OF l(1), of now k]
      by (auto simp: young_def filter_empty_conv not_less)
    with l(1) show ?thesis by (simp add: fst_check [OF l(1)] limiter_ok_def)
  qed
qed simp

end
