(* ===== verification/Config.thy ===== *)
theory Config
  imports PyText
begin

text \<open>
  The settings of \<^verbatim>\<open>backend/config.py\<close>: field validators, model validators in the order
  pydantic runs them, the derived WorkOS values, and the startup diagnostic.  Parsing of the
  environment into typed fields is pydantic's; the model starts from typed field values.
\<close>

section \<open>Field types\<close>

datatype environment = Development | Test | Production

fun environment_text :: "environment \<Rightarrow> string" where
  "environment_text Development = ''development''"
| "environment_text Test = ''test''"
| "environment_text Production = ''production''"

record PostgresDsn =
  dsn_scheme :: string
  dsn_path :: "string option"

text \<open>The fields as the environment gives them; secrets are their plain values.\<close>

record Settings =
  environment :: environment
  database_url :: PostgresDsn
  dbos_system_database_url :: PostgresDsn
  log_level :: string
  initial_allowlist :: "string list"
  encryption_key :: "string option"
  recovery_probe_enabled :: bool
  workos_client_id :: "string option"
  workos_api_key :: "string option"
  workos_api_base :: string
  workos_issuers :: "string list"
  workos_audience :: "string option"
  workos_jwks_url_override :: "string option"
  workos_algorithms :: "string list"
  workos_leeway_seconds :: int
  auth_rate_limit_per_minute :: int

text \<open>Truth of an optional text or secret: neither absent nor empty.\<close>

definition truthy :: "string option \<Rightarrow> bool" where
  "truthy v = (case v of None \<Rightarrow> False | Some s \<Rightarrow> s \<noteq> [])"

section \<open>Field validators\<close>

definition blank_is_unset :: "string option \<Rightarrow> string option" where
  "blank_is_unset v = (case v of None \<Rightarrow> None | Some s \<Rightarrow> if strip s = [] then None else Some s)"

definition supported_driver :: "PostgresDsn \<Rightarrow> bool" where
  "supported_driver value = (dsn_scheme value = ''postgresql+psycopg'')"

definition database_fields :: "Settings \<Rightarrow> (string \<times> PostgresDsn) list" where
  "database_fields s = [(''database_url'', database_url s),
     (''dbos_system_database_url'', dbos_system_database_url s)]"

section \<open>Derived WorkOS values\<close>

definition workos_configured :: "Settings \<Rightarrow> bool" where
  "workos_configured s = (truthy (workos_client_id s) \<and> truthy (workos_api_key s))"

text \<open>\<^verbatim>\<open>f"{...}"\<close> of an optional text\<close>

definition optional_text :: "string option \<Rightarrow> string" where
  "optional_text v = (case v of None \<Rightarrow> ''None'' | Some s \<Rightarrow> s)"

definition workos_jwks_url :: "Settings \<Rightarrow> string" where
  "workos_jwks_url s =
     (if truthy (workos_jwks_url_override s) then the (workos_jwks_url_override s)
      else rstrip_slash (workos_api_base s) @ ''/sso/jwks/'' @ optional_text (workos_client_id s))"

definition derived_issuers :: "Settings \<Rightarrow> string list" where
  "derived_issuers s =
     (if \<not> truthy (workos_client_id s) then []
      else [rstrip_slash (workos_api_base s) @ ''/user_management/'' @ the (workos_client_id s)])"

fun add_candidates :: "string list \<Rightarrow> string list \<Rightarrow> string list" where
  "add_candidates [] accepted = accepted"
| "add_candidates (c # cs) accepted =
     add_candidates cs (if c \<notin> set accepted then accepted @ [c] else accepted)"

fun accept_issuers :: "string list \<Rightarrow> string list \<Rightarrow> string list" where
  "accept_issuers [] accepted = accepted"
| "accept_issuers (issuer # issuers) accepted =
     (let value = strip issuer
      in if value = [] then accept_issuers issuers accepted
         else accept_issuers issuers
                (add_candidates [rstrip_slash value, rstrip_slash value @ ''/''] accepted))"

definition workos_accepted_issuers :: "Settings \<Rightarrow> string list" where
  "workos_accepted_issuers s =
     accept_issuers (if workos_issuers s \<noteq> [] then workos_issuers s else derived_issuers s) []"

section \<open>Model validators\<close>

definition environment_databases :: "Settings \<Rightarrow> string + Settings" where
  "environment_databases s =
     (if \<forall>(name, value)\<in>set (database_fields s).
           endswith (case dsn_path value of None \<Rightarrow> [] | Some p \<Rightarrow> p)
             (CHR ''_'' # environment_text (environment s))
      then Inr s else Inl ''Database name must match environment'')"

definition safe_auth_configuration :: "Settings \<Rightarrow> string + Settings" where
  "safe_auth_configuration s =
     (if \<exists>algorithm\<in>set (workos_algorithms s). startswith (upper algorithm) ''HS''
           \<or> startswith (upper algorithm) ''NONE''
      then Inl ''Asymmetric signing algorithms only''
      else if environment s = Production \<and> \<not> workos_configured s
      then Inl ''Production requires WorkOS client id and API key''
      else if environment s = Production \<and> \<not> startswith (workos_api_base s) ''https://''
      then Inl ''Production requires an HTTPS WorkOS API base''
      else if environment s = Production \<and> \<not> startswith (workos_jwks_url s) ''https://''
      then Inl ''Production requires an HTTPS WorkOS JWKS URL''
      else if environment s = Production
          \<and> \<not> (\<forall>issuer\<in>set (workos_accepted_issuers s). startswith issuer ''https://'')
      then Inl ''Production requires HTTPS WorkOS issuers''
      else if workos_configured s \<and> workos_accepted_issuers s = []
      then Inl ''At least one WorkOS issuer is required''
      else Inr s)"

definition separate_databases :: "Settings \<Rightarrow> string + Settings" where
  "separate_databases s =
     (if dsn_path (database_url s) = dsn_path (dbos_system_database_url s)
      then Inl ''Application and DBOS databases must be separate''
      else if environment s = Production \<and> \<not> truthy (encryption_key s)
      then Inl ''Production requires an external encryption key''
      else if recovery_probe_enabled s \<and> environment s \<noteq> Test
      then Inl ''Recovery probe is test-only''
      else Inr s)"

section \<open>Construction\<close>

primrec join :: "string \<Rightarrow> string list \<Rightarrow> string" where
  "join sep [] = []"
| "join sep (x # xs) = (if xs = [] then x else x @ sep @ join sep xs)"

definition diagnostic_hint :: string where
  "diagnostic_hint = ''Check .env.example; use postgresql+psycopg URLs, valid ports, '' @
     ''matching environment suffixes, '' @
     ''separate app/DBOS databases, and a production encryption key.''"

text \<open>\<^verbatim>\<open>SafeSettings.__init__\<close>: the field validators run first and their failures name the
  fields, sorted; a model validator's failure names none.  The value of \<open>Inl\<close> is the message of
  the \<^verbatim>\<open>ConfigurationError\<close>.\<close>

definition configuration_error :: "string list \<Rightarrow> string" where
  "configuration_error names =
     ''Invalid configuration: '' @
     (if names = [] then ''environment/database separation/encryption_key'' else join '', '' names)
     @ ''. '' @ diagnostic_hint"

definition SafeSettings_init :: "Settings \<Rightarrow> string + Settings" where
  "SafeSettings_init raw =
     (let s = raw\<lparr>workos_audience := blank_is_unset (workos_audience raw),
                  workos_jwks_url_override := blank_is_unset (workos_jwks_url_override raw),
                  workos_api_key := blank_is_unset (workos_api_key raw)\<rparr>;
          rejected = map fst (filter (\<lambda>(name, value). \<not> supported_driver value) (database_fields s))
      in if rejected \<noteq> [] then Inl (configuration_error rejected)
         else case and_then (environment_databases s)
                (\<lambda>s. and_then (safe_auth_configuration s) separate_databases) of
             Inl e \<Rightarrow> Inl (configuration_error [])
           | Inr s \<Rightarrow> Inr s)"

section \<open>The migrations' settings and the cache\<close>

record MigrationSettings =
  migration_environment :: environment
  migration_database_url :: PostgresDsn

definition MigrationSettings_init :: "MigrationSettings \<Rightarrow> string + MigrationSettings" where
  "MigrationSettings_init raw =
     (if \<not> supported_driver (migration_database_url raw)
      then Inl (configuration_error [''migration_database_url''])
      else if \<not> endswith (case dsn_path (migration_database_url raw) of None \<Rightarrow> [] | Some p \<Rightarrow> p)
          (CHR ''_'' # environment_text (migration_environment raw))
      then Inl (configuration_error [])
      else Inr raw)"

text \<open>\<^verbatim>\<open>get_settings\<close> under \<^verbatim>\<open>lru_cache\<close>: the first settings that load are kept; an exception is not.\<close>

definition get_settings ::
    "string + Settings \<Rightarrow> Settings option \<Rightarrow> (string + Settings) \<times> Settings option" where
  "get_settings loaded cache = (case cache of
     Some s \<Rightarrow> (Inr s, cache)
   | None \<Rightarrow> (case loaded of Inl e \<Rightarrow> (Inl e, None) | Inr s \<Rightarrow> (Inr s, Some s)))"

lemma get_settings_stable:
  "get_settings loaded cache = (Inr s, cache') \<Longrightarrow> get_settings later cache' = (Inr s, cache')"
  by (auto simp: get_settings_def split: option.splits sum.splits)

section \<open>Issuers\<close>

lemma set_add_candidates: "set (add_candidates cs accepted) = set accepted \<union> set cs"
  by (induction cs accepted rule: add_candidates.induct) auto

lemma distinct_add_candidates: "distinct accepted \<Longrightarrow> distinct (add_candidates cs accepted)"
  by (induction cs accepted rule: add_candidates.induct) auto

lemma set_accept_issuers:
  "set (accept_issuers issuers accepted) = set accepted
     \<union> (\<Union>i\<in>{i \<in> set issuers. strip i \<noteq> []}. {rstrip_slash (strip i), rstrip_slash (strip i) @ ''/''})"
  by (induction issuers accepted rule: accept_issuers.induct)
     (auto simp: Let_def set_add_candidates)

lemma distinct_accept_issuers: "distinct accepted \<Longrightarrow> distinct (accept_issuers issuers accepted)"
  by (induction issuers accepted rule: accept_issuers.induct)
     (auto simp: Let_def distinct_add_candidates simp del: add_candidates.simps)

lemma blank_is_unset_Some: "blank_is_unset v = Some s \<Longrightarrow> v = Some s \<and> strip s \<noteq> []"
  by (auto simp: blank_is_unset_def split: option.splits if_splits)

lemma SafeSettings_init_Inr:
  assumes "SafeSettings_init raw = Inr s"
  shows "environment_databases s = Inr s" and "safe_auth_configuration s = Inr s"
    and "separate_databases s = Inr s" and "supported_driver (database_url s)"
    and "supported_driver (dbos_system_database_url s)"
    and "workos_audience s = blank_is_unset (workos_audience raw)"
proof -
  let ?s = "raw\<lparr>workos_audience := blank_is_unset (workos_audience raw),
      workos_jwks_url_override := blank_is_unset (workos_jwks_url_override raw),
      workos_api_key := blank_is_unset (workos_api_key raw)\<rparr>"
  have v: "environment_databases ?s = Inr s'" "safe_auth_configuration s' = Inr s''"
      "separate_databases s'' = Inr s \<Longrightarrow> s' = ?s \<and> s'' = ?s \<and> s = ?s"
    if "environment_databases ?s = Inr s'" "safe_auth_configuration s' = Inr s''" for s' s''
    using that
    by (auto simp: environment_databases_def safe_auth_configuration_def separate_databases_def
        split: if_splits)
  have "supported_driver (database_url ?s) \<and> supported_driver (dbos_system_database_url ?s)
      \<and> (\<exists>s' s''. environment_databases ?s = Inr s' \<and> safe_auth_configuration s' = Inr s''
            \<and> separate_databases s'' = Inr s)"
    using assms
    by (auto simp: SafeSettings_init_def Let_def database_fields_def filter_empty_conv
        split: if_splits sum.splits)
  with v have "s = ?s" "environment_databases s = Inr s" "safe_auth_configuration s = Inr s"
    "separate_databases s = Inr s" "supported_driver (database_url s)"
    "supported_driver (dbos_system_database_url s)" by metis+
  then show "environment_databases s = Inr s" "safe_auth_configuration s = Inr s"
    "separate_databases s = Inr s" "supported_driver (database_url s)"
    "supported_driver (dbos_system_database_url s)"
    "workos_audience s = blank_is_unset (workos_audience raw)"
    by simp_all
qed

end
