(* ===== verification/ConfigProps.thy ===== *)
theory ConfigProps
  imports Config
begin

text \<open>
  Properties of the settings: what a production configuration that starts guarantees, which
  token issuers are accepted, and that a startup diagnostic cannot carry a value.
\<close>

definition dsn :: "string \<Rightarrow> PostgresDsn" where
  "dsn p = \<lparr>dsn_scheme = ''postgresql+psycopg'', dsn_path = Some p\<rparr>"

definition production_settings :: Settings where
  "production_settings = \<lparr>environment = Production, database_url = dsn ''/vespers_production'',
     dbos_system_database_url = dsn ''/dbos_production'', log_level = ''INFO'',
     initial_allowlist = [], encryption_key = Some ''k'', recovery_probe_enabled = False,
     workos_client_id = Some ''client_1'', workos_api_key = Some ''sk'',
     workos_api_base = ''https://api.workos.com'', workos_issuers = [],
     workos_audience = Some '' '', workos_jwks_url_override = Some '''',
     workos_algorithms = [''RS256''], workos_leeway_seconds = 60, auth_rate_limit_per_minute = 10\<rparr>"

definition production_started :: Settings where
  "production_started = production_settings\<lparr>workos_audience := None, workos_jwks_url_override := None\<rparr>"

lemma production_starts: "SafeSettings_init production_settings = Inr production_started"
  by code_simp

text \<open>C33: A production process that starts has its databases separate and named for production,
  an encryption key, WorkOS configured, every WorkOS address and every accepted issuer on HTTPS,
  no symmetric or unsigned token algorithm, a blank audience treated as absent, and the recovery
  probe off.\<close>

theorem production_settings_safe:
  assumes "SafeSettings_init raw = Inr s" and "environment s = Production"
  shows "dsn_path (database_url s) \<noteq> dsn_path (dbos_system_database_url s)
    \<and> (\<forall>d\<in>{database_url s, dbos_system_database_url s}. dsn_scheme d = ''postgresql+psycopg''
        \<and> (\<exists>p. dsn_path d = Some p \<and> suffix ''_production'' p))
    \<and> truthy (encryption_key s) \<and> workos_configured s \<and> \<not> recovery_probe_enabled s
    \<and> prefix ''https://'' (workos_api_base s) \<and> prefix ''https://'' (workos_jwks_url s)
    \<and> workos_accepted_issuers s \<noteq> [] \<and> (\<forall>i\<in>set (workos_accepted_issuers s). prefix ''https://'' i)
    \<and> (\<forall>a\<in>set (workos_algorithms s). \<not> prefix ''HS'' (upper a) \<and> \<not> prefix ''NONE'' (upper a))
    \<and> (\<forall>a. workos_audience s = Some a \<longrightarrow> strip a \<noteq> [])"
proof -
  note v = SafeSettings_init_Inr [OF assms(1)]
  have e: "endswith (case dsn_path d of None \<Rightarrow> [] | Some p \<Rightarrow> p) ''_production''"
    if "d \<in> {database_url s, dbos_system_database_url s}" for d
    using v(1) that assms(2)
    by (auto simp: environment_databases_def database_fields_def split: if_splits)
  have db: "\<exists>p. dsn_path d = Some p \<and> suffix ''_production'' p"
    if "d \<in> {database_url s, dbos_system_database_url s}" for d
    using e [OF that] by (auto simp: endswith_def split: option.splits)
  have aud: "strip a \<noteq> []" if "workos_audience s = Some a" for a
    using v(6) that blank_is_unset_Some by metis
  show ?thesis
    using v(2-5) assms(2) db aud
    by (auto simp: safe_auth_configuration_def separate_databases_def supported_driver_def
        startswith_def split: if_splits)
qed

theorem production_settings_safe_witness:
  "workos_configured production_started \<and> workos_audience production_started = None
   \<and> workos_accepted_issuers production_started \<noteq> []"
proof -
  have "environment production_started = Production" "workos_audience production_started = None"
    by code_simp+
  with production_settings_safe [OF production_starts] show ?thesis by blast
qed

text \<open>A configured application that starts accepts exactly the issuers configured - or, when
  none is, the one scoped to its client id - each with and without a trailing slash, each once,
  and there is at least one, so that issuer verification is never off.\<close>

lemma accepted_issuers_exact:
  assumes "SafeSettings_init raw = Inr s" and "workos_configured s"
  shows "workos_accepted_issuers s \<noteq> [] \<and> distinct (workos_accepted_issuers s)
    \<and> (\<forall>x. x \<in> set (workos_accepted_issuers s) \<longleftrightarrow> (\<exists>i\<in>set (if workos_issuers s \<noteq> [] then workos_issuers s
          else [rstrip_slash (workos_api_base s) @ ''/user_management/'' @ the (workos_client_id s)]).
        strip i \<noteq> [] \<and> (x = rstrip_slash (strip i) \<or> x = rstrip_slash (strip i) @ ''/'')))"
proof -
  have "derived_issuers s
      = [rstrip_slash (workos_api_base s) @ ''/user_management/'' @ the (workos_client_id s)]"
    using assms(2) by (simp add: derived_issuers_def workos_configured_def)
  moreover have "workos_accepted_issuers s \<noteq> []"
    using SafeSettings_init_Inr(2) [OF assms(1)] assms(2)
    by (auto simp: safe_auth_configuration_def split: if_splits)
  moreover have "distinct (workos_accepted_issuers s)"
    unfolding workos_accepted_issuers_def by (rule distinct_accept_issuers) simp
  ultimately show ?thesis
    by (auto simp: workos_accepted_issuers_def set_accept_issuers)
qed

lemma accepted_issuers_exact_witness:
  "''https://api.workos.com/user_management/client_1'' \<in> set (workos_accepted_issuers production_started)
   \<and> ''https://api.workos.com'' \<notin> set (workos_accepted_issuers production_started)"
proof -
  have c: "workos_configured production_started" "workos_issuers production_started = []"
    "rstrip_slash (workos_api_base production_started) @ ''/user_management/''
       @ the (workos_client_id production_started) = ''https://api.workos.com/user_management/client_1''"
    "strip ''https://api.workos.com/user_management/client_1'' = ''https://api.workos.com/user_management/client_1''"
    "rstrip_slash ''https://api.workos.com/user_management/client_1'' = ''https://api.workos.com/user_management/client_1''"
    by code_simp+
  from accepted_issuers_exact [OF production_starts c(1)] show ?thesis
    unfolding c(2,3) by (simp add: c(4,5))
qed

text \<open>A refused configuration is reported by the names of the rejected database fields or by
  one fixed text: two configurations that differ in any other value, secrets included, cannot be
  told apart by the message.\<close>

lemma configuration_diagnostic_is_safe:
  assumes "SafeSettings_init raw = Inl msg"
  shows "\<exists>what \<in> {''database_url'', ''dbos_system_database_url'',
      ''database_url, dbos_system_database_url'', ''environment/database separation/encryption_key''}.
    msg = ''Invalid configuration: '' @ what @ ''. '' @ diagnostic_hint"
proof -
  let ?s = "raw\<lparr>workos_audience := blank_is_unset (workos_audience raw),
      workos_jwks_url_override := blank_is_unset (workos_jwks_url_override raw),
      workos_api_key := blank_is_unset (workos_api_key raw)\<rparr>"
  let ?bad = "map fst (filter (\<lambda>(name, value). \<not> supported_driver value) (database_fields ?s))"
  have "msg = configuration_error ?bad \<or> msg = configuration_error []"
    using assms by (auto simp: SafeSettings_init_def Let_def split: if_splits sum.splits)
  moreover have "?bad \<in> {[], [''database_url''], [''dbos_system_database_url''],
      [''database_url'', ''dbos_system_database_url'']}"
    by (simp add: database_fields_def)
  ultimately show ?thesis
    by (auto simp: configuration_error_def)
qed

lemma configuration_diagnostic_is_safe_witness:
  "\<exists>what \<in> {''database_url'', ''dbos_system_database_url'',
      ''database_url, dbos_system_database_url'', ''environment/database separation/encryption_key''}.
    configuration_error [] = ''Invalid configuration: '' @ what @ ''. '' @ diagnostic_hint"
proof -
  have "SafeSettings_init (production_settings\<lparr>encryption_key := None\<rparr>) = Inl (configuration_error [])"
    by code_simp
  from configuration_diagnostic_is_safe [OF this] show ?thesis .
qed

end
