(* ===== verification/Tokens.thy ===== *)
theory Tokens
  imports Exceptions Config Complex_Main
begin

text \<open>
  Access-token validation of \<^verbatim>\<open>backend/auth/tokens.py\<close>.  PyJWT and its key-set client are
  third-party code: a parameter \<open>pyjwt\<close> of the validator, with what the validator relies on as
  the predicate \<open>pyjwt_contract\<close> over an abstract signature relation.
\<close>

section \<open>Claims and errors of PyJWT\<close>

datatype json = JNull | JBool bool | JInt int | JFloat rat | JStr string | JList "json list"
  | JObj "(string \<times> json) list"

type_synonym claims = "(string \<times> json) list"

text \<open>\<^verbatim>\<open>claims.get(key)\<close>\<close>

definition get_claim :: "claims \<Rightarrow> string \<Rightarrow> json option" where
  "get_claim claims key = map_of claims key"

text \<open>The subclasses of \<^verbatim>\<open>PyJWTError\<close> the validator tells apart; any other one by its class name.\<close>

datatype jwt_error =
    ExpiredSignatureError
  | InvalidIssuerError
  | InvalidAudienceError
  | InvalidAlgorithmError
  | InvalidSignatureError
  | MissingRequiredClaimError string
  | OtherPyJWTError string

datatype key_error = KeyPyJWTError string | KeyOtherError string

record decode_options =
  opt_algorithms :: "string list"
  opt_issuer :: "string list"
  opt_audience :: "string option"
  opt_leeway :: int
  opt_require :: "string list"
  opt_verify_aud :: bool

record 'key pyjwt =
  get_signing_key_from_jwt :: "string \<Rightarrow> key_error + 'key"
  decode_unverified :: "string \<Rightarrow> jwt_error + claims"
  decode :: "string \<Rightarrow> 'key \<Rightarrow> decode_options \<Rightarrow> jwt_error + claims"

section \<open>The validator\<close>

record VerifiedSubject =
  vs_subject :: string
  vs_session_id :: "string option"
  vs_expires_at :: int

text \<open>\<^verbatim>\<open>int(x)\<close> of a JSON value: a float is truncated toward zero, a text is read as a decimal
  literal with an optional sign, outer white space and single underscores between digits.\<close>

fun read_digits :: "bool \<Rightarrow> int \<Rightarrow> string \<Rightarrow> int option" where
  "read_digits after_digit acc [] = (if after_digit then Some acc else None)"
| "read_digits after_digit acc (c # s) =
     (if 48 \<le> code c \<and> code c \<le> 57 then read_digits True (acc * 10 + int (code c - 48)) s
      else if c = CHR ''_'' \<and> after_digit then read_digits False acc s else None)"

definition int_of_text :: "string \<Rightarrow> int option" where
  "int_of_text v = (case strip v of
       [] \<Rightarrow> None
     | c # s \<Rightarrow> if c = CHR ''-'' then map_option uminus (read_digits False 0 s)
                else if c = CHR ''+'' then read_digits False 0 s
                else read_digits False 0 (c # s))"

definition int_of_json :: "json \<Rightarrow> int option" where
  "int_of_json v = (case v of
       JInt i \<Rightarrow> Some i
     | JBool b \<Rightarrow> Some (if b then 1 else 0)
     | JFloat x \<Rightarrow> Some (if x < 0 then \<lceil>x\<rceil> else \<lfloor>x\<rfloor>)
     | JStr s \<Rightarrow> int_of_text s
     | _ \<Rightarrow> None)"

definition verify_options :: "Settings \<Rightarrow> decode_options" where
  "verify_options settings = \<lparr>opt_algorithms = workos_algorithms settings,
     opt_issuer = workos_accepted_issuers settings, opt_audience = workos_audience settings,
     opt_leeway = workos_leeway_seconds settings, opt_require = [''exp'', ''iss'', ''sub''],
     opt_verify_aud = (workos_audience settings \<noteq> None)\<rparr>"

definition key_label :: "key_error \<Rightarrow> string" where
  "key_label e = (case e of KeyPyJWTError n \<Rightarrow> ''unresolvable-signing-key:'' @ n
     | KeyOtherError n \<Rightarrow> ''jwks-unavailable:'' @ n)"

definition jwt_label :: "jwt_error \<Rightarrow> string" where
  "jwt_label e = (case e of
       ExpiredSignatureError \<Rightarrow> ''expired''
     | InvalidIssuerError \<Rightarrow> ''wrong-issuer''
     | InvalidAudienceError \<Rightarrow> ''wrong-audience''
     | InvalidAlgorithmError \<Rightarrow> ''unsupported-algorithm''
     | InvalidSignatureError \<Rightarrow> ''invalid-signature''
     | MissingRequiredClaimError c \<Rightarrow> ''missing-claim:'' @ c
     | OtherPyJWTError n \<Rightarrow> ''invalid-token:'' @ n)"

definition unexpected_audience ::
    "'key pyjwt \<Rightarrow> Settings \<Rightarrow> string \<Rightarrow> exn + unit" where
  "unexpected_audience lib settings token =
     (if workos_audience settings \<noteq> None then Inr ()
      else case decode_unverified lib token of
          Inl e \<Rightarrow> Inl (TokenErrorExn (TokenError ''invalid-token:DecodeError''))
        | Inr unverified \<Rightarrow>
            if get_claim unverified ''aud'' \<noteq> None
            then Inl (TokenErrorExn (TokenError ''unexpected-audience'')) else Inr ())"

definition subject_of_claims :: "claims \<Rightarrow> exn + VerifiedSubject" where
  "subject_of_claims claims =
     (case get_claim claims ''sub'' of
        Some (JStr subject) \<Rightarrow>
          if strip subject = [] then Inl (TokenErrorExn (TokenError ''missing-claim:sub''))
          else (case get_claim claims ''exp'' of
              None \<Rightarrow> Inl (OtherException ''KeyError'')
            | Some e \<Rightarrow> (case int_of_json e of
                  None \<Rightarrow> Inl (OtherException ''ValueError'')
                | Some expires_at \<Rightarrow> Inr \<lparr>vs_subject = strip subject,
                    vs_session_id = (case get_claim claims ''sid'' of Some (JStr i) \<Rightarrow> Some i | _ \<Rightarrow> None),
                    vs_expires_at = expires_at\<rparr>))
      | _ \<Rightarrow> Inl (TokenErrorExn (TokenError ''missing-claim:sub'')))"

text \<open>The key-set client a validator makes for itself, when WorkOS is configured: the set is cached
  for five minutes, single keys are not cached, so that a withdrawn key does not outlive the set.\<close>

record jwk_client_options =
  jwk_uri :: string
  cache_keys :: bool
  cache_jwk_set :: bool
  jwk_lifespan :: int
  cooldown_duration :: int
  jwk_timeout :: int

definition AccessTokenValidator_init :: "Settings \<Rightarrow> jwk_client_options option" where
  "AccessTokenValidator_init settings =
     (if workos_configured settings
      then Some \<lparr>jwk_uri = workos_jwks_url settings, cache_keys = False, cache_jwk_set = True,
             jwk_lifespan = 300, cooldown_duration = 30, jwk_timeout = 10\<rparr>
      else None)"

lemma no_jwk_client [simp]: "AccessTokenValidator_init settings = None \<longleftrightarrow> \<not> workos_configured settings"
  by (simp add: AccessTokenValidator_init_def)

definition verify ::
    "'key pyjwt \<Rightarrow> Settings \<Rightarrow> string \<Rightarrow> exn + VerifiedSubject" where
  "verify lib settings token =
     (if AccessTokenValidator_init settings = None
      then Inl (TokenErrorExn (AuthNotConfigured ''workos-not-configured''))
      else if token = [] \<or> strip token = [] then Inl (TokenErrorExn (TokenError ''missing-token''))
      else case get_signing_key_from_jwt lib token of
          Inl e \<Rightarrow> Inl (TokenErrorExn (TokenError (key_label e)))
        | Inr signing_key \<Rightarrow>
            and_then (unexpected_audience lib settings token) (\<lambda>_.
            case decode lib token signing_key (verify_options settings) of
              Inl e \<Rightarrow> Inl (TokenErrorExn (TokenError (jwt_label e)))
            | Inr claims \<Rightarrow> subject_of_claims claims))"

section \<open>What is relied on\<close>

text \<open>
  The documented behaviour of \<^verbatim>\<open>jwt.decode\<close>: the claims it returns are the token's payload; with
  a key, some algorithm of the given list verifies the token's signature under that key, the
  required claims are there, the expiry is an integer that has not passed by more than the leeway,
  the issuer is one of the given ones, and with \<^verbatim>\<open>verify_aud\<close> the audience matches.  The keys it
  is given are the ones of the configured key set.
\<close>

definition audience_matches :: "string option \<Rightarrow> json option \<Rightarrow> bool" where
  "audience_matches expected aud = (case (expected, aud) of
     (Some a, Some (JStr x)) \<Rightarrow> x = a
   | (Some a, Some (JList xs)) \<Rightarrow> JStr a \<in> set xs
   | _ \<Rightarrow> False)"

definition pyjwt_contract ::
    "(string \<Rightarrow> 'key \<Rightarrow> string \<Rightarrow> bool) \<Rightarrow> (string \<Rightarrow> claims) \<Rightarrow> 'key set \<Rightarrow> int \<Rightarrow> 'key pyjwt \<Rightarrow> bool" where
  "pyjwt_contract sig_ok payload keys now lib = (
     (\<forall>token key. get_signing_key_from_jwt lib token = Inr key \<longrightarrow> key \<in> keys)
   \<and> (\<forall>token c. decode_unverified lib token = Inr c \<longrightarrow> c = payload token)
   \<and> (\<forall>token key opts c. decode lib token key opts = Inr c \<longrightarrow> c = payload token
        \<and> (\<exists>alg\<in>set (opt_algorithms opts). sig_ok token key alg)
        \<and> (\<forall>r\<in>set (opt_require opts). get_claim c r \<noteq> None \<and> get_claim c r \<noteq> Some JNull)
        \<and> (\<exists>v e. get_claim c ''exp'' = Some v \<and> int_of_json v = Some e \<and> now - opt_leeway opts < e)
        \<and> (\<exists>i\<in>set (opt_issuer opts). get_claim c ''iss'' = Some (JStr i))
        \<and> (opt_verify_aud opts \<longrightarrow> audience_matches (opt_audience opts) (get_claim c ''aud'')))
   \<and> (\<forall>token key opts c. decode lib token key opts = Inl (MissingRequiredClaimError c)
        \<longrightarrow> c \<in> set (opt_require opts)))"

text \<open>A library that meets the contract: one key, a token that is its own name.\<close>

definition sample_claims :: claims where
  "sample_claims = [(''sub'', JStr ''sub_a''), (''exp'', JInt 100),
     (''iss'', JStr ''https://api.workos.com/user_management/client_1''), (''sid'', JStr ''s1'')]"

definition sample_pyjwt :: "nat pyjwt" where
  "sample_pyjwt = \<lparr>
     get_signing_key_from_jwt = (\<lambda>token. if token = ''tok'' then Inr 0 else Inl (KeyPyJWTError ''PyJWKClientError'')),
     decode_unverified = (\<lambda>token. if token = ''tok'' then Inr sample_claims else Inl (OtherPyJWTError ''DecodeError'')),
     decode = (\<lambda>token key opts.
       if token \<noteq> ''tok'' \<or> key \<noteq> 0 then Inl (OtherPyJWTError ''DecodeError'')
       else if ''RS256'' \<notin> set (opt_algorithms opts) then Inl InvalidAlgorithmError
       else if \<not> 50 - opt_leeway opts < 100 then Inl ExpiredSignatureError
       else if ''https://api.workos.com/user_management/client_1'' \<notin> set (opt_issuer opts) then Inl InvalidIssuerError
       else if opt_verify_aud opts then Inl (InvalidAudienceError)
       else if \<exists>r\<in>set (opt_require opts). get_claim sample_claims r = None
       then Inl (OtherPyJWTError ''PyJWTError'')
       else Inr sample_claims)\<rparr>"

definition sample_signed :: "string \<Rightarrow> nat \<Rightarrow> string \<Rightarrow> bool" where
  "sample_signed token key alg = (token = ''tok'' \<and> key = 0 \<and> alg = ''RS256'')"

lemma sample_pyjwt_contract: "pyjwt_contract sample_signed (\<lambda>_. sample_claims) {0} 50 sample_pyjwt"
  unfolding pyjwt_contract_def
proof (intro conjI allI impI)
  fix token key opts c
  assume d: "decode sample_pyjwt token key opts = Inr c"
  then have c: "token = ''tok''" "key = 0" "''RS256'' \<in> set (opt_algorithms opts)"
    "50 - opt_leeway opts < 100"
    "''https://api.workos.com/user_management/client_1'' \<in> set (opt_issuer opts)"
    "\<not> opt_verify_aud opts" "c = sample_claims"
    "\<forall>r\<in>set (opt_require opts). get_claim sample_claims r \<noteq> None"
    by (auto simp: sample_pyjwt_def split: if_splits)
  show "c = sample_claims" by (rule c)
  show "\<exists>alg\<in>set (opt_algorithms opts). sample_signed token key alg"
    using c by (auto simp: sample_signed_def)
  show "\<forall>r\<in>set (opt_require opts). get_claim c r \<noteq> None \<and> get_claim c r \<noteq> Some JNull"
    using c(7,8) by (auto simp: get_claim_def sample_claims_def split: if_splits)
  show "\<exists>v e. get_claim c ''exp'' = Some v \<and> int_of_json v = Some e \<and> 50 - opt_leeway opts < e"
    using c by (simp add: get_claim_def sample_claims_def int_of_json_def)
  show "\<exists>i\<in>set (opt_issuer opts). get_claim c ''iss'' = Some (JStr i)"
    using c by (simp add: get_claim_def sample_claims_def)
  show "audience_matches (opt_audience opts) (get_claim c ''aud'')" if "opt_verify_aud opts"
    using c that by simp
qed (auto simp: sample_pyjwt_def split: if_splits)

section \<open>Shape of the results\<close>

lemma subject_of_claims_Inr:
  assumes "subject_of_claims c = Inr v"
  shows "\<exists>s e. get_claim c ''sub'' = Some (JStr s) \<and> strip s \<noteq> [] \<and> vs_subject v = strip s
    \<and> get_claim c ''exp'' = Some e \<and> int_of_json e = Some (vs_expires_at v)"
  using assms
  by (auto simp: subject_of_claims_def split: option.splits json.splits if_splits)

lemma verify_Inr:
  assumes "verify lib settings token = Inr v"
  obtains key claims where "workos_configured settings"
    and "get_signing_key_from_jwt lib token = Inr key"
    and "unexpected_audience lib settings token = Inr ()"
    and "decode lib token key (verify_options settings) = Inr claims"
    and "subject_of_claims claims = Inr v"
proof -
  have c: "workos_configured settings" "\<not> (token = [] \<or> strip token = [])"
    using assms by (auto simp: verify_def split: if_splits)
  obtain key where k: "get_signing_key_from_jwt lib token = Inr key"
    using assms c by (cases "get_signing_key_from_jwt lib token") (auto simp: verify_def)
  have u: "unexpected_audience lib settings token = Inr ()"
    and d: "(case decode lib token key (verify_options settings) of
        Inl e \<Rightarrow> Inl (TokenErrorExn (TokenError (jwt_label e)))
      | Inr claims \<Rightarrow> subject_of_claims claims) = Inr v"
    using assms c k by (auto simp: verify_def)
  from d obtain claims where "decode lib token key (verify_options settings) = Inr claims"
    "subject_of_claims claims = Inr v"
    by (cases "decode lib token key (verify_options settings)") auto
  with c(1) k u show thesis by (rule that)
qed

section \<open>The contract, fact by fact\<close>

lemma contract_key:
  "pyjwt_contract sig_ok payload keys now lib \<Longrightarrow> get_signing_key_from_jwt lib token = Inr key \<Longrightarrow> key \<in> keys"
  by (simp add: pyjwt_contract_def)

lemma contract_unverified:
  "pyjwt_contract sig_ok payload keys now lib \<Longrightarrow> decode_unverified lib token = Inr c \<Longrightarrow> c = payload token"
  by (simp add: pyjwt_contract_def)

lemma contract_missing:
  "pyjwt_contract sig_ok payload keys now lib
    \<Longrightarrow> decode lib token key opts = Inl (MissingRequiredClaimError c) \<Longrightarrow> c \<in> set (opt_require opts)"
  unfolding pyjwt_contract_def by blast

lemma contract_decode:
  assumes "pyjwt_contract sig_ok payload keys now lib"
    and "decode lib token key (verify_options settings) = Inr c"
  shows "c = payload token"
    and "\<exists>alg\<in>set (workos_algorithms settings). sig_ok token key alg"
    and "\<exists>i\<in>set (workos_accepted_issuers settings). get_claim c ''iss'' = Some (JStr i)"
    and "\<exists>v e. get_claim c ''exp'' = Some v \<and> int_of_json v = Some e
      \<and> now - workos_leeway_seconds settings < e"
    and "workos_audience settings = Some a \<Longrightarrow> audience_matches (Some a) (get_claim c ''aud'')"
proof -
  have all: "\<forall>token key opts c. decode lib token key opts = Inr c \<longrightarrow> c = payload token
        \<and> (\<exists>alg\<in>set (opt_algorithms opts). sig_ok token key alg)
        \<and> (\<forall>r\<in>set (opt_require opts). get_claim c r \<noteq> None \<and> get_claim c r \<noteq> Some JNull)
        \<and> (\<exists>v e. get_claim c ''exp'' = Some v \<and> int_of_json v = Some e \<and> now - opt_leeway opts < e)
        \<and> (\<exists>i\<in>set (opt_issuer opts). get_claim c ''iss'' = Some (JStr i))
        \<and> (opt_verify_aud opts \<longrightarrow> audience_matches (opt_audience opts) (get_claim c ''aud''))"
    using assms(1) unfolding pyjwt_contract_def by (elim conjE)
  have sel: "opt_algorithms (verify_options settings) = workos_algorithms settings"
    "opt_leeway (verify_options settings) = workos_leeway_seconds settings"
    "opt_issuer (verify_options settings) = workos_accepted_issuers settings"
    "opt_audience (verify_options settings) = workos_audience settings"
    "opt_verify_aud (verify_options settings) = (workos_audience settings \<noteq> None)"
    by (simp_all add: verify_options_def)
  note c = all [rule_format, OF assms(2), unfolded sel]
  show "c = payload token" "\<exists>alg\<in>set (workos_algorithms settings). sig_ok token key alg"
    "\<exists>i\<in>set (workos_accepted_issuers settings). get_claim c ''iss'' = Some (JStr i)"
    "\<exists>v e. get_claim c ''exp'' = Some v \<and> int_of_json v = Some e
      \<and> now - workos_leeway_seconds settings < e"
    using c by blast+
  have "workos_audience settings \<noteq> None \<longrightarrow> audience_matches (workos_audience settings) (get_claim c ''aud'')"
    using c by blast
  then show "audience_matches (Some a) (get_claim c ''aud'')" if "workos_audience settings = Some a"
    using that by simp
qed

section \<open>The interface to a route\<close>

text \<open>What a route assumes of a validator: a verified subject is a text without outer white space
  and not blank, so that it selects a row by subject and never falls back to the address.\<close>

locale subject_verifier =
  fixes ver :: "string \<Rightarrow> exn + VerifiedSubject"
  assumes subject_clean: "ver token = Inr v \<Longrightarrow> vs_subject v \<noteq> [] \<and> strip (vs_subject v) = vs_subject v"

interpretation access_token: subject_verifier "verify lib settings" for lib settings
proof
  fix token v
  assume "verify lib settings token = Inr v"
  then obtain c where "subject_of_claims c = Inr v" by (rule verify_Inr)
  from subject_of_claims_Inr [OF this] show "vs_subject v \<noteq> [] \<and> strip (vs_subject v) = vs_subject v"
    by auto
qed

end
