(* ===== verification/Workos.thy ===== *)
theory Workos
  imports Tokens
begin

text \<open>
  The WorkOS user lookup of \<^verbatim>\<open>backend/auth/workos.py\<close>, over an HTTP client that is a parameter:
  the response to a request, or the class name of the transport error.  \<open>profile_source\<close> is the
  protocol the account routes depend on, and \<open>WorkOSDirectory\<close> its implementation.
\<close>

record VerifiedProfile =
  vp_subject :: string
  vp_email :: string
  vp_email_verified :: bool

text \<open>A response: its status and its body as JSON, \<^verbatim>\<open>None\<close> when it does not parse.\<close>

record http_response =
  status_code :: int
  body_json :: "json option"

type_synonym http_client = "string \<Rightarrow> (string \<times> string) list \<Rightarrow> string + http_response"

primrec decimal :: "nat \<Rightarrow> nat \<Rightarrow> string" where
  "decimal 0 n = []"
| "decimal (Suc k) n =
     (if n < 10 then [char_of (48 + n)] else decimal k (n div 10) @ [char_of (48 + n mod 10)])"

text \<open>\<^verbatim>\<open>f"{i}"\<close> of an integer\<close>

definition int_text :: "int \<Rightarrow> string" where
  "int_text i = (if i < 0 then CHR ''-'' # decimal (Suc (nat (- i))) (nat (- i))
                 else decimal (Suc (nat i)) (nat i))"

definition json_get :: "json \<Rightarrow> string \<Rightarrow> json option" where
  "json_get v key = (case v of JObj items \<Rightarrow> map_of items key | _ \<Rightarrow> None)"

definition is_object :: "json \<Rightarrow> bool" where
  "is_object v = (case v of JObj _ \<Rightarrow> True | _ \<Rightarrow> False)"

text \<open>The checks of a parsed payload.\<close>

definition profile_of_payload :: "string \<Rightarrow> json \<Rightarrow> auth_error + VerifiedProfile" where
  "profile_of_payload subject payload =
     (if \<not> is_object payload then Inl (ProfileUnavailable ''workos-malformed-profile'')
      else case json_get payload ''email'' of
          Some (JStr email) \<Rightarrow>
            if strip email = [] then Inl (ProfileUnavailable ''workos-missing-email'')
            else (case json_get payload ''email_verified'' of
                Some (JBool verified) \<Rightarrow>
                  if json_get payload ''id'' \<noteq> Some (JStr subject)
                  then Inl (ProfileUnavailable ''workos-subject-mismatch'')
                  else Inr \<lparr>vp_subject = subject, vp_email = strip email, vp_email_verified = verified\<rparr>
              | _ \<Rightarrow> Inl (ProfileUnavailable ''workos-missing-email-verified''))
        | _ \<Rightarrow> Inl (ProfileUnavailable ''workos-missing-email''))"

definition fetch_profile ::
    "Settings \<Rightarrow> http_client \<Rightarrow> string \<Rightarrow> auth_error + VerifiedProfile" where
  "fetch_profile settings client subject =
     (if \<not> workos_configured settings \<or> workos_api_key settings = None
      then Inl (ProfileUnavailable ''workos-not-configured'')
      else case client (rstrip_slash (workos_api_base settings) @ ''/user_management/users/'' @ subject)
             [(''Authorization'', ''Bearer '' @ the (workos_api_key settings)),
              (''Accept'', ''application/json'')] of
          Inl error \<Rightarrow> Inl (ProfileUnavailable (''workos-unreachable:'' @ error))
        | Inr response \<Rightarrow>
            if status_code response \<noteq> 200
            then Inl (ProfileUnavailable (''workos-status:'' @ int_text (status_code response)))
            else (case body_json response of
                None \<Rightarrow> Inl (ProfileUnavailable ''workos-malformed-json'')
              | Some payload \<Rightarrow> profile_of_payload subject payload))"

section \<open>The protocol\<close>

text \<open>What a route may assume of a directory: it answers for the subject it was asked about, with
  an address, or it is unavailable.\<close>

locale profile_source =
  fixes fetch :: "string \<Rightarrow> auth_error + VerifiedProfile"
  assumes answers_for_subject: "fetch subject = Inr p \<Longrightarrow> vp_subject p = subject"
    and answers_with_address: "fetch subject = Inr p \<Longrightarrow> vp_email p \<noteq> [] \<and> strip (vp_email p) = vp_email p"
    and fails_as_unavailable: "fetch subject = Inl e \<Longrightarrow> \<exists>m. e = ProfileUnavailable m"
begin

text \<open>Two subjects never share a profile, and an answer determines the subject.\<close>

lemma profiles_separate: "fetch s1 = Inr p \<Longrightarrow> fetch s2 = Inr p \<Longrightarrow> s1 = s2"
  using answers_for_subject by metis

lemma unavailable_or_own:
  obtains m where "fetch subject = Inl (ProfileUnavailable m)"
    | p where "fetch subject = Inr p" and "vp_subject p = subject" and "nullif_blank (Some (vp_email p)) \<noteq> None"
proof (cases "fetch subject")
  case (Inl e)
  with fails_as_unavailable that(1) show thesis by blast
next
  case (Inr p)
  with answers_with_address [OF Inr] answers_for_subject [OF Inr] that(2) show thesis by simp
qed

end

lemma profile_of_payload_Inr:
  assumes "profile_of_payload subject payload = Inr p"
  shows "vp_subject p = subject \<and> (\<exists>email. json_get payload ''email'' = Some (JStr email)
    \<and> vp_email p = strip email \<and> strip email \<noteq> [])
    \<and> json_get payload ''email_verified'' = Some (JBool (vp_email_verified p))
    \<and> json_get payload ''id'' = Some (JStr subject)"
  using assms
  by (auto simp: profile_of_payload_def split: if_splits option.splits json.splits)

lemma profile_of_payload_Inl:
  "profile_of_payload subject payload = Inl e \<Longrightarrow> \<exists>m. e = ProfileUnavailable m"
  by (auto simp: profile_of_payload_def split: if_splits option.splits json.splits)

lemma fetch_profile_Inr:
  assumes "fetch_profile settings client subject = Inr p"
  obtains response payload where "workos_configured settings"
    and "client (rstrip_slash (workos_api_base settings) @ ''/user_management/users/'' @ subject)
        [(''Authorization'', ''Bearer '' @ the (workos_api_key settings)),
         (''Accept'', ''application/json'')] = Inr response"
    and "status_code response = 200" and "body_json response = Some payload"
    and "profile_of_payload subject payload = Inr p"
  using assms by (auto simp: fetch_profile_def split: if_splits sum.splits option.splits)

interpretation workos: profile_source "fetch_profile settings client" for settings client
proof
  fix subject p
  assume "fetch_profile settings client subject = Inr p"
  then obtain payload where "profile_of_payload subject payload = Inr p"
    by (rule fetch_profile_Inr)
  from profile_of_payload_Inr [OF this]
  show "vp_subject p = subject" "vp_email p \<noteq> [] \<and> strip (vp_email p) = vp_email p" by auto
next
  fix subject e
  assume "fetch_profile settings client subject = Inl e"
  then show "\<exists>m. e = ProfileUnavailable m"
    by (auto simp: fetch_profile_def profile_of_payload_Inl split: if_splits sum.splits option.splits)
qed

end
