(* ===== verification/AuthProps.thy ===== *)
theory AuthProps
  imports Workos ConfigProps
begin

text \<open>
  Properties of authentication: what a verified subject guarantees, that rejections are fixed
  labels, and that a profile is the directory's answer for the subject asked about.
\<close>

lemma verify_evidence:
  assumes "SafeSettings_init raw = Inr settings" and "pyjwt_contract sig_ok payload keys now lib"
    and "verify lib settings token = Inr v"
  shows "workos_configured settings
    \<and> (\<exists>key\<in>keys. \<exists>alg\<in>set (workos_algorithms settings). sig_ok token key alg
        \<and> \<not> prefix ''HS'' (upper alg) \<and> \<not> prefix ''NONE'' (upper alg))
    \<and> (\<exists>i\<in>set (workos_accepted_issuers settings). get_claim (payload token) ''iss'' = Some (JStr i))
    \<and> now - workos_leeway_seconds settings < vs_expires_at v
    \<and> (case workos_audience settings of None \<Rightarrow> get_claim (payload token) ''aud'' = None
        | Some a \<Rightarrow> audience_matches (Some a) (get_claim (payload token) ''aud''))
    \<and> (\<exists>s. get_claim (payload token) ''sub'' = Some (JStr s) \<and> vs_subject v = strip s \<and> vs_subject v \<noteq> [])
    \<and> (\<exists>e. get_claim (payload token) ''exp'' = Some e \<and> int_of_json e = Some (vs_expires_at v))"
proof (rule verify_Inr [OF assms(3)])
  fix key claims
  assume c: "workos_configured settings"
    and k: "get_signing_key_from_jwt lib token = Inr key"
    and u: "unexpected_audience lib settings token = Inr ()"
    and d: "decode lib token key (verify_options settings) = Inr claims"
    and s: "subject_of_claims claims = Inr v"
  note lib = contract_decode [OF assms(2) d]
  have key: "key \<in> keys" by (rule contract_key [OF assms(2) k])
  have dec: "c = payload token" if "decode_unverified lib token = Inr c" for c
    by (rule contract_unverified [OF assms(2) that])
  have alg: "\<not> prefix ''HS'' (upper a) \<and> \<not> prefix ''NONE'' (upper a)"
    if "a \<in> set (workos_algorithms settings)" for a
    using SafeSettings_init_Inr(2) [OF assms(1)] that
    by (auto simp: safe_auth_configuration_def startswith_def split: if_splits)
  have aud: "get_claim (payload token) ''aud'' = None" if "workos_audience settings = None"
    using u that dec by (auto simp: unexpected_audience_def split: sum.splits if_splits)
  obtain x e where x: "get_claim claims ''sub'' = Some (JStr x)" "strip x \<noteq> []" "vs_subject v = strip x"
      "get_claim claims ''exp'' = Some e" "int_of_json e = Some (vs_expires_at v)"
    using subject_of_claims_Inr [OF s] by blast
  have "now - workos_leeway_seconds settings < vs_expires_at v"
    using lib(4) x(4,5) by auto
  moreover have "case workos_audience settings of None \<Rightarrow> get_claim (payload token) ''aud'' = None
      | Some a \<Rightarrow> audience_matches (Some a) (get_claim (payload token) ''aud'')"
    using aud lib(5) unfolding lib(1) by (cases "workos_audience settings") simp_all
  moreover have "\<exists>s. get_claim (payload token) ''sub'' = Some (JStr s) \<and> vs_subject v = strip s \<and> vs_subject v \<noteq> []"
    using x(1-3) unfolding lib(1) by auto
  moreover have "\<exists>i\<in>set (workos_accepted_issuers settings). get_claim (payload token) ''iss'' = Some (JStr i)"
    using lib(3) unfolding lib(1) .
  moreover have "\<exists>e. get_claim (payload token) ''exp'' = Some e \<and> int_of_json e = Some (vs_expires_at v)"
    using x(4,5) unfolding lib(1) by blast
  ultimately show ?thesis
    using c key lib(2) alg by blast
qed

text \<open>C10: A token that verifies names its subject on evidence: WorkOS is configured; the token's
  signature is valid under a key of the configured key set by an allowlisted algorithm, none of
  them symmetric or unsigned; the issuer is an accepted one; the token has not expired beyond the
  leeway; the audience is the configured one, or there is none at all when none is configured; and
  the subject and the expiry are the token's own, the subject without outer white space and not blank.\<close>

theorem verified_token_sound:
  assumes "SafeSettings_init raw = Inr settings" and "pyjwt_contract sig_ok payload keys now lib"
    and "verify lib settings token = Inr v"
  shows "workos_configured settings
    \<and> (\<exists>key\<in>keys. \<exists>alg\<in>set (workos_algorithms settings). sig_ok token key alg
        \<and> \<not> prefix ''HS'' (upper alg) \<and> \<not> prefix ''NONE'' (upper alg))
    \<and> (\<exists>i\<in>set (workos_accepted_issuers settings). get_claim (payload token) ''iss'' = Some (JStr i))
    \<and> now - workos_leeway_seconds settings < vs_expires_at v
    \<and> (case workos_audience settings of None \<Rightarrow> get_claim (payload token) ''aud'' = None
        | Some a \<Rightarrow> audience_matches (Some a) (get_claim (payload token) ''aud''))
    \<and> (\<exists>s. get_claim (payload token) ''sub'' = Some (JStr s) \<and> vs_subject v = strip s \<and> vs_subject v \<noteq> [])
    \<and> (\<exists>e. get_claim (payload token) ''exp'' = Some e \<and> int_of_json e = Some (vs_expires_at v))"
  by (rule verify_evidence [OF assms])

theorem verified_token_sound_witness:
  "verify sample_pyjwt production_started ''tok''
     = Inr \<lparr>vs_subject = ''sub_a'', vs_session_id = Some ''s1'', vs_expires_at = 100\<rparr>
   \<and> get_claim sample_claims ''aud'' = None"
proof -
  have v: "verify sample_pyjwt production_started ''tok''
      = Inr \<lparr>vs_subject = ''sub_a'', vs_session_id = Some ''s1'', vs_expires_at = 100\<rparr>"
    by code_simp
  have "workos_audience production_started = None" by code_simp
  with verified_token_sound [OF production_starts sample_pyjwt_contract v] v show ?thesis by simp
qed

definition fixed_labels :: "string list" where
  "fixed_labels = [''missing-token'', ''unexpected-audience'', ''expired'', ''wrong-issuer'',
     ''wrong-audience'', ''unsupported-algorithm'', ''invalid-signature'', ''invalid-token:DecodeError'',
     ''missing-claim:exp'', ''missing-claim:iss'', ''missing-claim:sub'']"

definition rejection_label :: "'key pyjwt \<Rightarrow> Settings \<Rightarrow> string \<Rightarrow> string \<Rightarrow> bool" where
  "rejection_label lib settings token m = (m \<in> set fixed_labels
    \<or> (\<exists>name. m = ''invalid-token:'' @ name
        \<and> (\<exists>key. decode lib token key (verify_options settings) = Inl (OtherPyJWTError name)))
    \<or> (\<exists>name. m = ''unresolvable-signing-key:'' @ name
        \<and> get_signing_key_from_jwt lib token = Inl (KeyPyJWTError name))
    \<or> (\<exists>name. m = ''jwks-unavailable:'' @ name
        \<and> get_signing_key_from_jwt lib token = Inl (KeyOtherError name)))"

text \<open>A rejected token is rejected with one of the fixed labels: nothing of the token or of a
  claim's value gets into the message that reaches the response and the log, only the class name
  of an exception or the name of a required claim.\<close>

lemma token_rejections_are_labels:
  assumes "pyjwt_contract sig_ok payload keys now lib"
    and "verify lib settings token = Inl (TokenErrorExn (TokenError m))"
  shows "rejection_label lib settings token m"
proof (cases "get_signing_key_from_jwt lib token")
  case (Inl e)
  with assms(2) show ?thesis
    by (cases e) (auto simp: verify_def key_label_def rejection_label_def fixed_labels_def split: if_splits)
next
  case (Inr key)
  have req: "c \<in> {''exp'', ''iss'', ''sub''}"
    if "decode lib token key (verify_options settings) = Inl (MissingRequiredClaimError c)" for c
    using contract_missing [OF assms(1) that] by (simp add: verify_options_def)
  have no_sub: "x = ''missing-claim:sub''"
    if "subject_of_claims c = Inl (TokenErrorExn (TokenError x))" for c x
    using that by (auto simp: subject_of_claims_def split: option.splits json.splits if_splits)
  consider (aud) "m = ''invalid-token:DecodeError'' \<or> m = ''unexpected-audience'' \<or> m = ''missing-token''"
    | (jwt) e where "decode lib token key (verify_options settings) = Inl e" "m = jwt_label e"
    | (sub) "m = ''missing-claim:sub''"
  proof (cases "unexpected_audience lib settings token")
    case (Inl e)
    with assms(2) Inr aud show thesis
      by (auto simp: verify_def unexpected_audience_def split: if_splits sum.splits)
  next
    case u: (Inr u)
    note k = Inr
    show thesis
    proof (cases "token = [] \<or> strip token = []")
      case True
      with assms(2) show thesis by (intro aud) (auto simp: verify_def split: if_splits)
    next
      case blank: False
      have v: "verify lib settings token = (case decode lib token key (verify_options settings) of
          Inl e \<Rightarrow> Inl (TokenErrorExn (TokenError (jwt_label e)))
        | Inr claims \<Rightarrow> subject_of_claims claims)"
        using blank assms(2) k u by (auto simp: verify_def split: if_splits)
      show thesis
      proof (cases "decode lib token key (verify_options settings)")
        case (Inl e)
        with v assms(2) show thesis by (intro jwt [of e]) simp_all
      next
        case (Inr c)
        with v assms(2) have "subject_of_claims c = Inl (TokenErrorExn (TokenError m))" by simp
        then show thesis by (intro that(3)) (rule no_sub)
      qed
    qed
  qed
  then show ?thesis
  proof cases
    case (jwt e)
    then show ?thesis using req by (cases e) (auto simp: jwt_label_def rejection_label_def fixed_labels_def)
  qed (auto simp: rejection_label_def fixed_labels_def)
qed

lemma token_rejections_are_labels_witness:
  "rejection_label sample_pyjwt production_started ''evil'' ''unresolvable-signing-key:PyJWKClientError''
   \<and> ''evil'' \<noteq> ''tok''"
proof -
  have "verify sample_pyjwt production_started ''evil''
      = Inl (TokenErrorExn (TokenError ''unresolvable-signing-key:PyJWKClientError''))"
    by code_simp
  from token_rejections_are_labels [OF sample_pyjwt_contract this] show ?thesis by simp
qed

text \<open>A profile is the directory's answer, with status 200, for exactly the subject asked
  about, and its verification flag is the one WorkOS sent: a missing or ill-typed flag is an error,
  never \<^verbatim>\<open>True\<close>.\<close>

lemma profile_is_the_subjects:
  assumes "fetch_profile settings client subject = Inr p"
  shows "vp_subject p = subject \<and> strip (vp_email p) = vp_email p \<and> vp_email p \<noteq> []
    \<and> (\<exists>response payload. client (rstrip_slash (workos_api_base settings) @ ''/user_management/users/'' @ subject)
          [(''Authorization'', ''Bearer '' @ the (workos_api_key settings)), (''Accept'', ''application/json'')]
          = Inr response
        \<and> status_code response = 200 \<and> body_json response = Some payload
        \<and> json_get payload ''id'' = Some (JStr subject)
        \<and> json_get payload ''email_verified'' = Some (JBool (vp_email_verified p)))"
proof (rule fetch_profile_Inr [OF assms])
  fix response payload
  assume "client (rstrip_slash (workos_api_base settings) @ ''/user_management/users/'' @ subject)
      [(''Authorization'', ''Bearer '' @ the (workos_api_key settings)), (''Accept'', ''application/json'')]
      = Inr response" "status_code response = 200" "body_json response = Some payload"
    and "profile_of_payload subject payload = Inr p"
  with profile_of_payload_Inr [of subject payload p] show ?thesis by auto
qed

definition sample_client :: http_client where
  "sample_client url headers =
     (if url = ''https://api.workos.com/user_management/users/sub_a''
      then Inr \<lparr>status_code = 200, body_json = Some (JObj [(''id'', JStr ''sub_a''),
        (''email'', JStr '' ann@x.io''), (''email_verified'', JBool True)])\<rparr>
      else Inr \<lparr>status_code = 404, body_json = None\<rparr>)"

lemma profile_is_the_subjects_witness:
  "fetch_profile production_started sample_client ''sub_a''
     = Inr \<lparr>vp_subject = ''sub_a'', vp_email = ''ann@x.io'', vp_email_verified = True\<rparr>
   \<and> strip ''ann@x.io'' = ''ann@x.io''"
proof -
  have f: "fetch_profile production_started sample_client ''sub_a''
      = Inr \<lparr>vp_subject = ''sub_a'', vp_email = ''ann@x.io'', vp_email_verified = True\<rparr>"
    by code_simp
  from profile_is_the_subjects [OF f] f show ?thesis by simp
qed

end
