(* ===== verification/Account.thy ===== *)
theory Account
  imports Identity Workos RateLimit TenantFacts
begin

text \<open>
  The account routes of \<^verbatim>\<open>backend/api/account.py\<close>: the authentication and authorization
  dependencies and the two handlers.  A handler takes the state of the application and the
  database and returns its response or exception with the new state.  Between the statements of
  authorization and between the two transactions of a request other transactions may commit:
  \<open>pauses\<close> are what they make of the database there, and \<open>steady\<close> is nothing.
\<close>

section \<open>State and responses\<close>

record AccountResponse =
  ar_user_id :: uuid
  ar_email :: string
  ar_tenant_id :: uuid
  ar_tenant_name :: string
  ar_tenant_kind :: string
  ar_role :: string
  ar_created :: bool

record AuthenticatedAccount =
  aa_user_id :: uuid
  aa_email :: string
  aa_membership :: TenantMembership

text \<open>\<^verbatim>\<open>request.app.state\<close>: an attribute that is missing or of the wrong type is \<^verbatim>\<open>None\<close>.\<close>

record app_state =
  token_validator :: "(string \<Rightarrow> exn + VerifiedSubject) option"
  workos_directory :: "(string \<Rightarrow> auth_error + VerifiedProfile) option"
  auth_limiter :: FixedWindowLimiter

definition not_configured :: exn where
  "not_configured = HTTPException 503 ''authentication-not-configured''"

definition validator_of :: "app_state \<Rightarrow> exn + (string \<Rightarrow> exn + VerifiedSubject)" where
  "validator_of st = (case token_validator st of None \<Rightarrow> Inl not_configured | Some v \<Rightarrow> Inr v)"

definition directory_of :: "app_state \<Rightarrow> exn + (string \<Rightarrow> auth_error + VerifiedProfile)" where
  "directory_of st = (case workos_directory st of None \<Rightarrow> Inl not_configured | Some f \<Rightarrow> Inr f)"

section \<open>Authentication\<close>

definition require_subject ::
    "app_state \<Rightarrow> rat \<Rightarrow> string option \<Rightarrow> (exn + string) \<times> app_state" where
  "require_subject st now authorization =
     (case validator_of st of
        Inl e \<Rightarrow> (Inl e, st)
      | Inr ver \<Rightarrow>
          if \<not> truthy authorization \<or> \<not> startswith (lower (the authorization)) ''bearer ''
          then (Inl (HTTPException 401 ''missing-bearer-token''), st)
          else (case ver (strip (drop 7 (the authorization))) of
              Inl (TokenErrorExn (AuthNotConfigured m)) \<Rightarrow> (Inl not_configured, st)
            | Inl (TokenErrorExn (TokenError m)) \<Rightarrow> (Inl (HTTPException 401 m), st)
            | Inl e \<Rightarrow> (Inl e, st)
            | Inr verified \<Rightarrow>
                let (ok, limiter) = check (''subject:'' @ vs_subject verified) now (auth_limiter st)
                in (if ok then Inr (vs_subject verified) else Inl (HTTPException 429 ''rate-limited''),
                    st\<lparr>auth_limiter := limiter\<rparr>)))"

definition verified_profile :: "app_state \<Rightarrow> string \<Rightarrow> exn + VerifiedProfile" where
  "verified_profile st subject =
     and_then (directory_of st) (\<lambda>fetch.
     case fetch subject of
       Inl (ProfileUnavailable m) \<Rightarrow> Inl (HTTPException 502 m)
     | Inl e \<Rightarrow> Inl (AuthError e)
     | Inr profile \<Rightarrow> if \<not> vp_email_verified profile then Inl (HTTPException 403 ''email-not-verified'')
                      else Inr profile)"

section \<open>Authorization\<close>

record pauses =
  before_allowlist :: "database \<Rightarrow> database"
  before_memberships :: "database \<Rightarrow> database"
  between_transactions :: "database \<Rightarrow> database"

definition steady :: pauses where
  "steady = \<lparr>before_allowlist = (\<lambda>d. d), before_memberships = (\<lambda>d. d), between_transactions = (\<lambda>d. d)\<rparr>"

lemma steady_simps [simp]:
  "before_allowlist steady d = d" "before_memberships steady d = d" "between_transactions steady d = d"
  by (simp_all add: steady_def)

text \<open>Others commit: the next statement sees it.\<close>

definition pause :: "(database \<Rightarrow> database) \<Rightarrow> session \<Rightarrow> (exn + unit) \<times> session" where
  "pause others s = (Inr (), s\<lparr>contents := others (contents s)\<rparr>)"

definition authorize_local_access ::
    "(string \<Rightarrow> 'k::linorder) \<Rightarrow> pauses \<Rightarrow> string \<Rightarrow> session
      \<Rightarrow> (exn + UserRecord \<times> TenantMembership list) \<times> session" where
  "authorize_local_access collate w subject =
     bind_state (find_user None (Some subject)) (\<lambda>found.
     case found of
       None \<Rightarrow> raise_state (HTTPException 403 ''not-provisioned'')
     | Some user \<Rightarrow>
         if \<not> is_active user then raise_state (HTTPException 403 ''identity-disabled'')
         else bind_state (pause (before_allowlist w)) (\<lambda>_. bind_state (is_signup_allowed (ur_email user)) (\<lambda>allowed.
           if \<not> allowed then raise_state (HTTPException 403 ''not-allowlisted'')
           else bind_state (pause (before_memberships w)) (\<lambda>_. bind_state (list_memberships collate (ur_id user)) (\<lambda>members.
             if members = [] then raise_state (HTTPException 403 ''no-active-membership'')
             else return_state (user, members))))))"

definition select_membership ::
    "uuid option \<Rightarrow> TenantMembership list \<Rightarrow> exn + TenantMembership" where
  "select_membership tenant_id members =
     (case tenant_id of
        None \<Rightarrow> Inr (hd members)
      | Some t \<Rightarrow> (case filter (\<lambda>m. tm_tenant_id m = t) members of
            [] \<Rightarrow> Inl (HTTPException 403 ''tenant-not-permitted'')
          | m # _ \<Rightarrow> Inr m))"

definition require_account ::
    "(string \<Rightarrow> 'k::linorder) \<Rightarrow> pauses \<Rightarrow> string \<Rightarrow> uuid option \<Rightarrow> database
      \<Rightarrow> (exn + AuthenticatedAccount) \<times> database" where
  "require_account collate w subject tenant_id = with_transaction
     (bind_state (authorize_local_access collate w subject) (\<lambda>(user, members).
      case select_membership tenant_id members of
        Inl e \<Rightarrow> raise_state e
      | Inr m \<Rightarrow> return_state \<lparr>aa_user_id = ur_id user, aa_email = ur_email user, aa_membership = m\<rparr>))"

section \<open>GET /api/account\<close>

definition visible_tenant :: "session \<Rightarrow> (exn + TenantRecord) \<times> session" where
  "visible_tenant = TenantRepository (bind_state get_tenant (\<lambda>tenant.
     case tenant of None \<Rightarrow> raise_state (HTTPException 403 ''tenant-not-visible'')
     | Some t \<Rightarrow> return_state t))"

definition read_account ::
    "(string \<Rightarrow> 'k::linorder) \<Rightarrow> pauses \<Rightarrow> rat \<Rightarrow> string option \<Rightarrow> uuid option
      \<Rightarrow> app_state \<times> database \<Rightarrow> (exn + AccountResponse) \<times> app_state \<times> database" where
  "read_account collate w now authorization tenant_id = (\<lambda>(st, d).
     case require_subject st now authorization of
       (Inl e, st1) \<Rightarrow> (Inl e, st1, d)
     | (Inr subject, st1) \<Rightarrow>
        (case require_account collate w subject tenant_id d of
           (Inl e, d1) \<Rightarrow> (Inl e, st1, d1)
         | (Inr account, d1) \<Rightarrow>
            (case tenant_transaction (PyUUID (tm_tenant_id (aa_membership account))) visible_tenant (between_transactions w d1) of
               (Inl e, d2) \<Rightarrow> (Inl e, st1, d2)
             | (Inr tenant, d2) \<Rightarrow>
                 (Inr \<lparr>ar_user_id = aa_user_id account, ar_email = aa_email account,
                    ar_tenant_id = tr_id tenant, ar_tenant_name = tr_name tenant,
                    ar_tenant_kind = tr_kind tenant, ar_role = tm_role (aa_membership account),
                    ar_created = False\<rparr>, st1, d2))))"

section \<open>POST /api/account/provision\<close>

text \<open>The \<^verbatim>\<open>except\<close> clauses around the provisioning transaction.\<close>

definition provisioning_error :: "exn \<Rightarrow> exn" where
  "provisioning_error e = (case e of
       IdentityError (SignupNotAllowed _) \<Rightarrow> HTTPException 403 ''not-allowlisted''
     | IdentityError (IdentityDisabled _) \<Rightarrow> HTTPException 403 ''identity-disabled''
     | IdentityError (ExternalSubjectConflict _) \<Rightarrow> HTTPException 409 ''external-subject-conflict''
     | IdentityError (EmailAlreadyBound _) \<Rightarrow> HTTPException 409 ''email-already-bound''
     | IdentityError (SubjectBindingRequired _) \<Rightarrow> HTTPException 409 ''subject-binding-required''
     | IdentityError (SubjectRequired _) \<Rightarrow> HTTPException 401 ''missing-claim:sub''
     | IdentityError (InvalidIdentityInput _) \<Rightarrow> HTTPException 400 ''invalid-identity-input''
     | DBAPIError _ \<Rightarrow> HTTPException 503 ''provisioning-unavailable''
     | AuthError (RateLimited _) \<Rightarrow> HTTPException 503 ''provisioning-unavailable''
     | _ \<Rightarrow> e)"

definition provision_account ::
    "(string \<Rightarrow> 'k::linorder) \<Rightarrow> provision_fn \<Rightarrow> fresh_ids \<Rightarrow> timestamp \<Rightarrow> pauses
      \<Rightarrow> rat \<Rightarrow> string option \<Rightarrow> app_state \<times> database
      \<Rightarrow> (exn + AccountResponse) \<times> app_state \<times> database" where
  "provision_account collate fn g stamp w now authorization = (\<lambda>(st, d).
     case require_subject st now authorization of
       (Inl e, st1) \<Rightarrow> (Inl e, st1, d)
     | (Inr subject, st1) \<Rightarrow>
        (case verified_profile st1 subject of
           Inl e \<Rightarrow> (Inl e, st1, d)
         | Inr profile \<Rightarrow>
            (case with_transaction (provision_personal_tenant fn g stamp (vp_email profile)
                    (Some (vp_subject profile)) None) d of
               (Inl e, d1) \<Rightarrow> (Inl (provisioning_error e), st1, d1)
             | (Inr provisioned, d1) \<Rightarrow>
                (case with_transaction (authorize_local_access collate w subject) (between_transactions w d1) of
                   (Inl e, d2) \<Rightarrow> (Inl e, st1, d2)
                 | (Inr (user, members), d2) \<Rightarrow>
                     let membership = (case find (\<lambda>m. tm_tenant_id m = pi_tenant_id provisioned) members of
                           Some m \<Rightarrow> m | None \<Rightarrow> hd members)
                     in (Inr \<lparr>ar_user_id = pi_user_id provisioned, ar_email = vp_email profile,
                          ar_tenant_id = tm_tenant_id membership,
                          ar_tenant_name = tm_tenant_name membership,
                          ar_tenant_kind = tm_tenant_kind membership, ar_role = tm_role membership,
                          ar_created = pi_created provisioned\<rparr>, st1, d2)))))"

end
