(* ===== verification/AccountFacts.thy ===== *)
theory AccountFacts
  imports Account
begin

text \<open>
  The account routes step by step: authorization as a decision on the database, the two
  transactions of each handler as functions of it, and the agreement of provisioning with
  authorization.
\<close>

section \<open>Sequences of session operations\<close>

lemma open_session_simps [simp]:
  "\<not> aborted (open_session d)" "contents (open_session d) = d" "in_transaction (open_session d)"
  by (simp_all add: open_session_def)

section \<open>Authorization as a decision\<close>

definition user_record :: "User \<Rightarrow> UserRecord" where
  "user_record u = \<lparr>ur_id = usr_id u, ur_email = usr_email u, ur_external_id = usr_external_id u,
     ur_status = usr_status u\<rparr>"

definition active_member :: "database \<Rightarrow> uuid \<Rightarrow> Membership \<times> User \<times> Tenant \<Rightarrow> bool" where
  "active_member d i x = (x \<in> set (joined d) \<and> mbr_user_id (fst x) = i \<and> all_active x)"

text \<open>Who is refused, and with which label.\<close>

definition access_decision :: "database \<Rightarrow> string \<Rightarrow> string + User" where
  "access_decision d subject =
     (case find (\<lambda>u. usr_external_id u = Some subject) (users d) of
        None \<Rightarrow> Inl ''not-provisioned''
      | Some u \<Rightarrow>
          if usr_status u \<noteq> ACTIVE then Inl ''identity-disabled''
          else if \<not> (\<exists>a\<in>set (signup_allowlist d). alw_email_normalized a = normalize_email (usr_email u))
          then Inl ''not-allowlisted''
          else if \<not> (\<exists>x\<in>set (joined d). active_member d (usr_id u) x) then Inl ''no-active-membership''
          else Inr u)"

definition membership_rows ::
    "(string \<Rightarrow> 'k::linorder) \<Rightarrow> uuid \<Rightarrow> database \<Rightarrow> TenantMembership list" where
  "membership_rows collate i d = map
     (\<lambda>(m, t, n, k, r). \<lparr>tm_membership_id = m, tm_tenant_id = t, tm_tenant_name = n,
        tm_tenant_kind = k, tm_role = r\<rparr>) (app_list_memberships collate i d)"

lemma set_membership_rows:
  "r \<in> set (membership_rows collate i d) \<longleftrightarrow> (\<exists>m u t. active_member d i (m, u, t)
     \<and> r = \<lparr>tm_membership_id = mbr_id m, tm_tenant_id = tnt_id t, tm_tenant_name = tnt_name t,
         tm_tenant_kind = tnt_kind t, tm_role = mbr_role m\<rparr>)"
proof -
  have "r \<in> set (membership_rows collate i d) \<longleftrightarrow> (\<exists>mi ti tn tk ro.
      (mi, ti, tn, tk, ro) \<in> set (app_list_memberships collate i d)
      \<and> r = \<lparr>tm_membership_id = mi, tm_tenant_id = ti, tm_tenant_name = tn, tm_tenant_kind = tk, tm_role = ro\<rparr>)"
    unfolding membership_rows_def set_map image_iff Bex_def by (simp only: split_paired_Ex prod.case)
  then show ?thesis
    unfolding set_list_memberships active_member_def fst_conv by blast
qed

lemma membership_rows_Nil:
  "membership_rows collate i d = [] \<longleftrightarrow> \<not> (\<exists>x\<in>set (joined d). active_member d i x)"
proof
  assume "membership_rows collate i d = []"
  then have "\<not> active_member d i (m, u, t)" for m u t
    using set_membership_rows [of _ collate i d] by auto
  then show "\<not> (\<exists>x\<in>set (joined d). active_member d i x)" by auto
next
  assume n: "\<not> (\<exists>x\<in>set (joined d). active_member d i x)"
  have "r \<notin> set (membership_rows collate i d)" for r
    using n unfolding set_membership_rows active_member_def by blast
  then show "membership_rows collate i d = []"
    by (cases "membership_rows collate i d") auto
qed

lemma find_user_subject:
  assumes "\<not> aborted s" and "subject \<noteq> []"
  shows "find_user None (Some subject) s
    = (Inr (map_option user_record (find (\<lambda>u. usr_external_id u = Some subject) (users (contents s)))), s)"
proof -
  have "find_user_where None (Some subject) = (\<lambda>u. usr_external_id u = Some subject)"
    by (auto simp: find_user_where_def)
  with assms show ?thesis
    by (cases "find (\<lambda>u. usr_external_id u = Some subject) (users (contents s))")
       (simp_all add: find_user_def falsy_def app_find_user_def user_record_def)
qed

text \<open>The same decision while others commit: each statement sees a database of its own.  The last one
  seen comes with it.\<close>

definition seen :: "pauses \<Rightarrow> database \<Rightarrow> database" where
  "seen w d = before_memberships w (before_allowlist w d)"

definition decided :: "pauses \<Rightarrow> database \<Rightarrow> string \<Rightarrow> (string + User) \<times> database" where
  "decided w d subject =
     (case find (\<lambda>u. usr_external_id u = Some subject) (users d) of
        None \<Rightarrow> (Inl ''not-provisioned'', d)
      | Some u \<Rightarrow>
          if usr_status u \<noteq> ACTIVE then (Inl ''identity-disabled'', d)
          else if \<not> (\<exists>a\<in>set (signup_allowlist (before_allowlist w d)).
              alw_email_normalized a = normalize_email (usr_email u))
          then (Inl ''not-allowlisted'', before_allowlist w d)
          else if \<not> (\<exists>x\<in>set (joined (seen w d)). active_member (seen w d) (usr_id u) x)
          then (Inl ''no-active-membership'', seen w d)
          else (Inr u, seen w d))"

lemma decided_steady: "decided steady d subject = (access_decision d subject, d)"
  by (simp add: decided_def access_decision_def seen_def split: option.split)

lemma decided_Inr:
  assumes "decided w d subject = (Inr u, d')"
  shows "d' = seen w d \<and> u \<in> set (users d) \<and> usr_external_id u = Some subject \<and> usr_status u = ACTIVE
    \<and> (\<exists>a\<in>set (signup_allowlist (before_allowlist w d)). alw_email_normalized a = normalize_email (usr_email u))
    \<and> (\<exists>x. active_member (seen w d) (usr_id u) x)"
  using assms by (auto simp: decided_def split: option.splits if_splits dest!: find_Some_D)

lemma authorize_while:
  assumes "\<not> aborted s" and "subject \<noteq> []"
  shows "authorize_local_access collate w subject s =
    (case decided w (contents s) subject of
       (Inl why, d) \<Rightarrow> (Inl (HTTPException 403 why), s\<lparr>contents := d\<rparr>)
     | (Inr u, d) \<Rightarrow> (Inr (user_record u, membership_rows collate (usr_id u) d), s\<lparr>contents := d\<rparr>))"
proof (cases "find (\<lambda>u. usr_external_id u = Some subject) (users (contents s))")
  case None
  with find_user_subject [OF assms] show ?thesis
    by (simp add: authorize_local_access_def bind_state_def raise_state_def decided_def)
next
  case (Some u)
  have f: "find_user None (Some subject) s = (Inr (Some (user_record u)), s)"
    using find_user_subject [OF assms] Some by simp
  have a: "is_signup_allowed (usr_email u) (s\<lparr>contents := d\<rparr>) = (Inr (\<exists>a\<in>set (signup_allowlist d).
      alw_email_normalized a = normalize_email (usr_email u)), s\<lparr>contents := d\<rparr>)" for d
    using assms(1) by (simp add: is_signup_allowed_def signup_allowed_normalize)
  have l: "list_memberships collate (usr_id u) (s\<lparr>contents := d\<rparr>)
      = (Inr (membership_rows collate (usr_id u) d), s\<lparr>contents := d\<rparr>)" for d
    using assms(1) by (simp add: list_memberships_def membership_rows_def)
  show ?thesis
    unfolding authorize_local_access_def decided_def Some
    using f a l
    by (simp add: user_record_def is_active_def bind_state_def raise_state_def pause_def seen_def
        return_state_def membership_rows_Nil)
qed

lemma authorize_decides:
  assumes "\<not> aborted s" and "subject \<noteq> []"
  shows "authorize_local_access collate steady subject s =
    (case access_decision (contents s) subject of
       Inl why \<Rightarrow> Inl (HTTPException 403 why)
     | Inr u \<Rightarrow> Inr (user_record u, membership_rows collate (usr_id u) (contents s)), s)"
  unfolding authorize_while [OF assms] decided_steady by (simp split: sum.split)

lemma access_decision_Inr:
  assumes "access_decision d subject = Inr u"
  shows "u \<in> set (users d) \<and> usr_external_id u = Some subject \<and> usr_status u = ACTIVE
    \<and> (\<exists>a\<in>set (signup_allowlist d). alw_email_normalized a = normalize_email (usr_email u))
    \<and> (\<exists>x. active_member d (usr_id u) x)"
  using assms
  by (auto simp: access_decision_def split: option.splits if_splits dest!: find_Some_D)

section \<open>The transactions of the handlers\<close>

lemma require_account_decides:
  assumes "subject \<noteq> []"
  shows "require_account collate w subject tenant_id d =
    (case decided w d subject of
       (Inl why, _) \<Rightarrow> (Inl (HTTPException 403 why), d)
     | (Inr u, d') \<Rightarrow> (case select_membership tenant_id (membership_rows collate (usr_id u) d') of
           Inl e \<Rightarrow> (Inl e, d)
         | Inr m \<Rightarrow> (Inr \<lparr>aa_user_id = usr_id u, aa_email = usr_email u, aa_membership = m\<rparr>, d')))"
proof -
  note a = authorize_while [where s = "open_session d" and collate = collate and w = w,
      OF open_session_simps(1) assms, unfolded open_session_simps]
  obtain dec d' where dec: "decided w d subject = (dec, d')" by (cases "decided w d subject")
  show ?thesis
  proof (cases dec)
    case (Inl why)
    with dec show ?thesis
      using a by (simp add: require_account_def with_transaction_def bind_state_def)
  next
    case (Inr u)
    with dec show ?thesis
      using a by (cases "select_membership tenant_id (membership_rows collate (usr_id u) d')")
        (simp_all add: require_account_def with_transaction_def bind_state_def raise_state_def
          return_state_def user_record_def)
  qed
qed

lemma authorize_transaction_while:
  assumes "subject \<noteq> []"
  shows "with_transaction (authorize_local_access collate w subject) d =
    (case decided w d subject of
       (Inl why, _) \<Rightarrow> (Inl (HTTPException 403 why), d)
     | (Inr u, d') \<Rightarrow> (Inr (user_record u, membership_rows collate (usr_id u) d'), d'))"
  using authorize_while [where s = "open_session d" and collate = collate and w = w,
      OF open_session_simps(1) assms]
  by (auto simp: with_transaction_def split: prod.splits sum.splits)

lemma authorized_Inr:
  assumes "subject \<noteq> []" and "with_transaction (authorize_local_access collate w subject) d = (Inr (user, rows), d')"
  shows "\<exists>u. decided w d subject = (Inr u, seen w d) \<and> rows = membership_rows collate (usr_id u) (seen w d)"
proof -
  obtain dec d3 where dec: "decided w d subject = (dec, d3)" by (cases "decided w d subject")
  then obtain u where u: "dec = Inr u"
    using assms(2) unfolding authorize_transaction_while [OF assms(1)] by (cases dec) auto
  with dec decided_Inr [of w d subject u d3] assms(2) show ?thesis
    unfolding authorize_transaction_while [OF assms(1)] by auto
qed

lemma authorize_transaction:
  assumes "subject \<noteq> []"
  shows "with_transaction (authorize_local_access collate steady subject) d =
    (case access_decision d subject of
       Inl why \<Rightarrow> Inl (HTTPException 403 why)
     | Inr u \<Rightarrow> Inr (user_record u, membership_rows collate (usr_id u) d), d)"
  unfolding authorize_transaction_while [OF assms] decided_steady by (simp split: sum.split)

interpretation visible: scoped_op visible_tenant
  unfolding visible_tenant_def
  by (intro scoped_op_repository scoped_op_bind get_op.scoped_op_axioms)
     (auto intro: scoped_op_raise scoped_op_return split: option.split)

lemma visible_tenant_transaction:
  "tenant_transaction (PyUUID t) visible_tenant d =
    (case filter (\<lambda>x. tnt_id x = t) (tenants d) of
       [] \<Rightarrow> Inl (HTTPException 403 ''tenant-not-visible'')
     | x # _ \<Rightarrow> Inr (tenant_record x), d)"
proof -
  let ?s = "(open_session d)\<lparr>guc_tenant_id := Some (uuid_str t), info := (\<lambda>_. None)(SCOPE_KEY \<mapsto> PyUUID t)\<rparr>"
  have sc: "in_scope t ?s" by (rule visible.open_scope)
  have P: "tenants_select_policy (Some t) = (\<lambda>x. tnt_id x = t)"
    by (auto simp: tenants_select_policy_def)
  have "visible_tenant ?s = (case filter (\<lambda>x. tnt_id x = t) (tenants d) of
      [] \<Rightarrow> Inl (HTTPException 403 ''tenant-not-visible'') | x # _ \<Rightarrow> Inr (tenant_record x), ?s)"
    unfolding visible_tenant_def TenantRepository_in_scope [OF sc] bind_state_def get_tenant_def
      execute_in_scope [OF sc]
    by (simp add: P raise_state_def return_state_def open_session_def split: list.split)
  then show ?thesis
    by (cases "filter (\<lambda>x. tnt_id x = t) (tenants d)")
       (simp_all add: visible.transaction_eq open_session_def)
qed

lemma select_membership_Inr:
  assumes "select_membership tenant_id rows = Inr m" and "rows \<noteq> []"
  shows "m \<in> set rows \<and> (tenant_id = None \<or> tenant_id = Some (tm_tenant_id m))"
proof (cases tenant_id)
  case (Some t)
  with assms(1) obtain ys where "filter (\<lambda>m. tm_tenant_id m = t) rows = m # ys"
    by (auto simp: select_membership_def split: list.splits)
  then have "m \<in> set (filter (\<lambda>m. tm_tenant_id m = t) rows)" by simp
  with Some show ?thesis by simp
qed (use assms in \<open>auto simp: select_membership_def\<close>)

section \<open>Authentication\<close>

context subject_verifier
begin

lemma require_subject_verified:
  assumes "token_validator st = Some ver" and "require_subject st now authorization = (Inr subject, st1)"
  shows "\<exists>header v limiter. authorization = Some header \<and> startswith (lower header) ''bearer ''
    \<and> ver (strip (drop 7 header)) = Inr v \<and> subject = vs_subject v \<and> subject \<noteq> [] \<and> strip subject = subject
    \<and> check (''subject:'' @ subject) now (auth_limiter st) = (True, limiter)
    \<and> st1 = st\<lparr>auth_limiter := limiter\<rparr>"
proof -
  have h: "truthy authorization" "startswith (lower (the authorization)) ''bearer ''"
    using assms by (auto simp: require_subject_def validator_of_def split: if_splits)
  then obtain header where header: "authorization = Some header"
    by (auto simp: truthy_def split: option.splits)
  show ?thesis
  proof (cases "ver (strip (drop 7 header))")
    case (Inl e)
    with assms h header show ?thesis
      by (auto simp: require_subject_def validator_of_def split: exn.splits token_error.splits)
  next
    case (Inr v)
    obtain ok limiter where c: "check (''subject:'' @ vs_subject v) now (auth_limiter st) = (ok, limiter)"
      by (cases "check (''subject:'' @ vs_subject v) now (auth_limiter st)")
    have "ok \<and> subject = vs_subject v \<and> st1 = st\<lparr>auth_limiter := limiter\<rparr>"
      using assms h header Inr c
      by (auto simp: require_subject_def validator_of_def Let_def split: if_splits)
    with h header Inr c subject_clean [OF Inr] show ?thesis by auto
  qed
qed

end

section \<open>Provisioning agrees with authorization\<close>

lemma normalize_stored_email:
  assumes "email_normalized u = lower (btrim e)" and "strip e = e"
  shows "normalize_email (usr_email u) = lower e"
proof -
  let ?x = "usr_email u"
  have "strip ?x = strip (btrim ?x)"
    unfolding strip_def btrim_def by (rule trim_trim_stronger [symmetric]) (rule blank_py_space)
  then have "normalize_email ?x = strip (lower (btrim ?x))"
    by (simp add: normalize_email_def strip_lower)
  also have "lower (btrim ?x) = lower e"
    using assms btrim_id_if_stripped [OF assms(2)]
    by (simp add: email_normalized_def EMAIL_NORMALIZATION_SQL_def)
  finally show ?thesis using assms(2) by (simp add: strip_lower)
qed

text \<open>What a committed provisioning call leaves behind authorizes its subject.\<close>

lemma provisioned_is_authorized:
  assumes ok: "schema_ok d" and clean: "strip e = e" "strip subject = subject" "subject \<noteq> []"
    and run: "with_transaction (provision_personal_tenant (provision_0004 quiet) g stamp e (Some subject) n) d
      = (Inr p, d')"
  shows "\<exists>m u t. access_decision d' subject = Inr u \<and> usr_id u = pi_user_id p
    \<and> email_normalized u = lower e \<and> active_member d' (usr_id u) (m, u, t)
    \<and> tnt_id t = pi_tenant_id p \<and> is_personal t \<and> tnt_owner_user_id t = usr_id u \<and> schema_ok d'"
proof -
  have st: "subject_text (Some subject) = subject" using clean(2) by (simp add: subject_text_def)
  then have ne: "subject_text (Some subject) \<noteq> []" using clean(3) by simp
  note call = service_call [where s = "open_session d" and fn = "provision_0004 quiet",
      OF open_session_simps(1) ne, unfolded st open_session_simps]
  obtain r where r: "provision_0004 quiet g stamp (Some e) (Some subject) n d = Inr (r, d')"
    and p: "pi_user_id p = out_user_id r" "pi_tenant_id p = out_tenant_id r"
    using run unfolding with_transaction_def call
    by (cases "provision_0004 quiet g stamp (Some e) (Some subject) n d")
       (auto simp: open_session_def)
  have al: "signup_allowlist d' = signup_allowlist d"
    using v4.prov_growth [OF ok r] by (simp add: growth_def)
  show ?thesis
  proof (rule provision_0004_Inr [OF r quiet_ok [OF ok]])
    fix v u m t
    assume v: "nullif_blank (Some subject) = Some v" and allowed: "app_signup_allowed (Some e) d"
      and ok': "schema_ok d'"
      and b: "bound_row d' (out_user_id r) (lower (btrim e)) (Some v) ''active'' u"
      and rows: "provisioned_rows d' r m u t" "all_active (m, u, t)"
    have "v = subject" using v clean(2,3) by simp
    then have u: "u \<in> set (users d')" "usr_external_id u = Some subject" "usr_status u = ACTIVE"
      "usr_id u = out_user_id r" "email_normalized u = lower (btrim e)"
      using b by (simp_all add: bound_row_def)
    have find: "find (\<lambda>u. usr_external_id u = Some subject) (users d') = Some u"
      by (rule find_unique) (use u ok' in \<open>auto intro: user_subject_key\<close>)
    have norm: "normalize_email (usr_email u) = lower e"
      by (rule normalize_stored_email [OF u(5) clean(1)])
    have e: "btrim e = e" by (rule btrim_id_if_stripped [OF clean(1)])
    have "\<exists>a\<in>set (signup_allowlist d'). alw_email_normalized a = normalize_email (usr_email u)"
      using allowed norm e unfolding al signup_allowed_iff EMAIL_NORMALIZATION_SQL_def by simp
    moreover have member: "active_member d' (usr_id u) (m, u, t)"
      using rows u(4) by (auto simp: active_member_def provisioned_rows_def)
    moreover from this have "\<exists>x\<in>set (joined d'). active_member d' (usr_id u) x"
      by (intro bexI [of _ "(m, u, t)"]) (simp_all add: active_member_def)
    ultimately have "access_decision d' subject = Inr u"
      using find u(3) by (simp add: access_decision_def)
    moreover have "tnt_id t = out_tenant_id r" "is_personal t" "tnt_owner_user_id t = out_user_id r"
      using rows(1) by (simp_all add: provisioned_rows_def set_joined)
    ultimately show ?thesis using u(4,5) p e ok' member by auto
  qed
qed

section \<open>The read handler\<close>

lemma membership_rows_nonempty:
  assumes "access_decision d subject = Inr u"
  shows "membership_rows collate (usr_id u) d \<noteq> []"
proof -
  obtain x where "active_member d (usr_id u) x" using access_decision_Inr [OF assms] by blast
  moreover from this have "x \<in> set (joined d)" by (simp add: active_member_def)
  ultimately show ?thesis unfolding membership_rows_Nil by blast
qed

lemma read_account_decides:
  assumes "require_subject st now authorization = (Inr subject, st1)" and "subject \<noteq> []"
  shows "read_account collate w now authorization tenant_id (st, d) =
    (case decided w d subject of
       (Inl why, _) \<Rightarrow> (Inl (HTTPException 403 why), st1, d)
     | (Inr u, d') \<Rightarrow> (case select_membership tenant_id (membership_rows collate (usr_id u) d') of
           Inl e \<Rightarrow> (Inl e, st1, d)
         | Inr m \<Rightarrow> (case filter (\<lambda>x. tnt_id x = tm_tenant_id m) (tenants (between_transactions w d')) of
               [] \<Rightarrow> (Inl (HTTPException 403 ''tenant-not-visible''), st1, between_transactions w d')
             | t # _ \<Rightarrow> (Inr \<lparr>ar_user_id = usr_id u, ar_email = usr_email u, ar_tenant_id = tnt_id t,
                   ar_tenant_name = tnt_name t, ar_tenant_kind = tnt_kind t, ar_role = tm_role m,
                   ar_created = False\<rparr>, st1, between_transactions w d'))))"
proof -
  note acc = require_account_decides [where collate = collate and tenant_id = tenant_id and d = d and w = w,
      OF assms(2)]
  obtain dec d' where dec: "decided w d subject = (dec, d')" by (cases "decided w d subject")
  show ?thesis
  proof (cases dec)
    case (Inl why)
    with dec show ?thesis using acc assms(1) by (simp add: read_account_def)
  next
    case u: (Inr u)
    show ?thesis
    proof (cases "select_membership tenant_id (membership_rows collate (usr_id u) d')")
      case (Inl e)
      then show ?thesis using acc assms(1) u dec by (simp add: read_account_def)
    next
      case m: (Inr m)
      let ?acc = "\<lparr>aa_user_id = usr_id u, aa_email = usr_email u, aa_membership = m\<rparr>"
      have a: "require_account collate w subject tenant_id d = (Inr ?acc, d')"
        using acc u m dec by simp
      show ?thesis
        by (cases "filter (\<lambda>x. tnt_id x = tm_tenant_id m) (tenants (between_transactions w d'))")
          (simp_all add: read_account_def assms(1) a u m dec visible_tenant_transaction tenant_record_def)
    qed
  qed
qed

lemma decided_rows:
  assumes "decided w d subject = (Inr u, d')"
  shows "membership_rows collate (usr_id u) d' \<noteq> []"
  using assms unfolding membership_rows_Nil by (auto simp: decided_def split: option.splits if_splits)

lemma read_account_Inr:
  assumes "require_subject st now authorization = (Inr subject, st1)" and "subject \<noteq> []"
    and "read_account collate w now authorization tenant_id (st, d) = (Inr r, st', d')"
  shows "d' = between_transactions w (seen w d) \<and> (\<exists>u m t. decided w d subject = (Inr u, seen w d)
    \<and> select_membership tenant_id (membership_rows collate (usr_id u) (seen w d)) = Inr m
    \<and> t \<in> set (tenants d') \<and> tnt_id t = tm_tenant_id m
    \<and> r = \<lparr>ar_user_id = usr_id u, ar_email = usr_email u, ar_tenant_id = tnt_id t, ar_tenant_name = tnt_name t,
        ar_tenant_kind = tnt_kind t, ar_role = tm_role m, ar_created = False\<rparr>)"
proof -
  note run = assms(3) [unfolded read_account_decides [OF assms(1,2)]]
  obtain u where u: "decided w d subject = (Inr u, seen w d)"
    using run decided_Inr by (auto split: prod.splits sum.splits)
  obtain m where m: "select_membership tenant_id (membership_rows collate (usr_id u) (seen w d)) = Inr m"
    using run u by (cases "select_membership tenant_id (membership_rows collate (usr_id u) (seen w d))") auto
  let ?d = "between_transactions w (seen w d)"
  obtain t ts where t: "filter (\<lambda>x. tnt_id x = tm_tenant_id m) (tenants ?d) = t # ts"
    using run u m by (cases "filter (\<lambda>x. tnt_id x = tm_tenant_id m) (tenants ?d)") auto
  have "t \<in> set (tenants ?d) \<and> tnt_id t = tm_tenant_id m" using arg_cong [OF t, of set] by auto
  with run u m t show ?thesis by auto
qed

text \<open>Authorization together with the choice of a tenant and its row: one condition.\<close>

lemma select_membership_cases:
  "select_membership (Some k) rows = Inl e \<Longrightarrow> e = HTTPException 403 ''tenant-not-permitted''
    \<and> (\<forall>r\<in>set rows. tm_tenant_id r \<noteq> k)"
  by (auto simp: select_membership_def filter_empty_conv split: list.splits)

lemma access_decision_complete:
  assumes "schema_ok d" and "u \<in> set (users d)" and "usr_external_id u = Some subject"
    and "usr_status u = ACTIVE"
    and "\<exists>a\<in>set (signup_allowlist d). alw_email_normalized a = normalize_email (usr_email u)"
    and "active_member d (usr_id u) x"
  shows "access_decision d subject = Inr u"
proof -
  have "find (\<lambda>u. usr_external_id u = Some subject) (users d) = Some u"
    by (rule find_unique) (use assms in \<open>auto intro: user_subject_key\<close>)
  moreover have "\<exists>x\<in>set (joined d). active_member d (usr_id u) x"
    using assms(6) by (intro bexI [of _ x]) (simp_all add: active_member_def)
  ultimately show ?thesis using assms(4,5) by (simp add: access_decision_def)
qed

lemma member_tenant_visible:
  assumes "schema_ok d" and "active_member d i (m, w, t)"
  shows "filter (\<lambda>x. tnt_id x = tnt_id t) (tenants d) = [t]"
  using assms filter_unique_key [of tnt_id "tenants d" t]
  by (simp add: active_member_def set_joined schema_ok_def tenants_ok_def)

section \<open>The provisioning handler\<close>

context profile_source
begin

lemma verified_profile_Inr:
  assumes "workos_directory st = Some fetch" and "verified_profile st subject = Inr p"
  shows "fetch subject = Inr p \<and> vp_subject p = subject \<and> strip (vp_email p) = vp_email p
    \<and> vp_email_verified p"
proof -
  have "fetch subject = Inr p \<and> vp_email_verified p"
    using assms
    by (auto simp: verified_profile_def directory_of_def split: sum.splits auth_error.splits if_splits)
  then show ?thesis using answers_for_subject answers_with_address by blast
qed

end

lemma with_transaction_Inl: "with_transaction body d = (Inl e, d') \<Longrightarrow> d' = d"
  by (auto simp: with_transaction_def split: prod.splits sum.splits)

lemma hd_or_found:
  assumes "m \<in> set rows" and "distinct (map tm_tenant_id rows)"
  shows "(case find (\<lambda>x. tm_tenant_id x = tm_tenant_id m) rows of Some x \<Rightarrow> x | None \<Rightarrow> hd rows) = m"
proof -
  have "find (\<lambda>x. tm_tenant_id x = tm_tenant_id m) rows = Some m"
    by (rule find_unique [OF assms(1)]) (use assms in \<open>auto intro: distinct_map_eq\<close>)
  then show ?thesis by simp
qed

lemma membership_rows_distinct: "schema_ok d \<Longrightarrow> distinct (map tm_tenant_id (membership_rows collate i d))"
  using list_memberships_distinct [of d collate i]
  by (simp add: membership_rows_def case_prod_unfold comp_def)

text \<open>The handler after authentication and the profile: provision, then authorize again.\<close>

lemma provision_account_decides:
  assumes "require_subject st now authorization = (Inr subject, st1)"
    and "verified_profile st1 subject = Inr p"
  shows "provision_account collate fn g stamp steady now authorization (st, d) =
    (case with_transaction (provision_personal_tenant fn g stamp (vp_email p) (Some (vp_subject p)) None) d of
       (Inl e, d1) \<Rightarrow> (Inl (provisioning_error e), st1, d1)
     | (Inr provisioned, d1) \<Rightarrow>
        (case with_transaction (authorize_local_access collate steady subject) d1 of
           (Inl e, d2) \<Rightarrow> (Inl e, st1, d2)
         | (Inr (user, rows), d2) \<Rightarrow>
             let m = (case find (\<lambda>m. tm_tenant_id m = pi_tenant_id provisioned) rows of
                 Some m \<Rightarrow> m | None \<Rightarrow> hd rows)
             in (Inr \<lparr>ar_user_id = pi_user_id provisioned, ar_email = vp_email p,
                ar_tenant_id = tm_tenant_id m, ar_tenant_name = tm_tenant_name m,
                ar_tenant_kind = tm_tenant_kind m, ar_role = tm_role m,
                ar_created = pi_created provisioned\<rparr>, st1, d2)))"
  unfolding provision_account_def steady_simps by (simp add: assms)

definition member_row :: "Membership \<Rightarrow> Tenant \<Rightarrow> TenantMembership" where
  "member_row m t = \<lparr>tm_membership_id = mbr_id m, tm_tenant_id = tnt_id t, tm_tenant_name = tnt_name t,
     tm_tenant_kind = tnt_kind t, tm_role = mbr_role m\<rparr>"

lemma member_row_sel [simp]:
  "tm_tenant_id (member_row m t) = tnt_id t" "tm_tenant_name (member_row m t) = tnt_name t"
  "tm_tenant_kind (member_row m t) = tnt_kind t" "tm_role (member_row m t) = mbr_role m"
  by (simp_all add: member_row_def)

lemma member_row_in:
  "active_member d i (m, w, t) \<Longrightarrow> member_row m t \<in> set (membership_rows collate i d)"
  unfolding set_membership_rows member_row_def by blast

text \<open>A member reads the tenant it asks for.\<close>

lemma read_member:
  assumes "schema_ok d" and "access_decision d subject = Inr u"
    and mem: "active_member d (usr_id u) (m, w, t)"
    and "require_subject st now authorization = (Inr subject, st1)" and "subject \<noteq> []"
  shows "read_account collate steady now authorization (Some (tnt_id t)) (st, d) =
    (Inr \<lparr>ar_user_id = usr_id u, ar_email = usr_email u, ar_tenant_id = tnt_id t,
       ar_tenant_name = tnt_name t, ar_tenant_kind = tnt_kind t, ar_role = mbr_role m,
       ar_created = False\<rparr>, st1, d)"
proof -
  let ?rows = "membership_rows collate (usr_id u) d"
  have "filter (\<lambda>r. tm_tenant_id r = tm_tenant_id (member_row m t)) ?rows = [member_row m t]"
    by (rule filter_unique_key [OF membership_rows_distinct [OF assms(1)] member_row_in [OF mem]])
  then have "select_membership (Some (tnt_id t)) ?rows = Inr (member_row m t)"
    by (simp add: select_membership_def)
  with member_tenant_visible [OF assms(1) mem] assms(2) show ?thesis
    by (simp add: read_account_decides [OF assms(4,5)] decided_steady)
qed

lemma provision_account_success:
  assumes "schema_ok d" and s: "require_subject st now authorization = (Inr subject, st1)"
    and clean: "subject \<noteq> []" "strip subject = subject" "strip (vp_email p) = vp_email p"
      "vp_subject p = subject"
    and p: "verified_profile st1 subject = Inr p"
    and tx: "with_transaction (provision_personal_tenant (provision_0004 quiet) g stamp
      (vp_email p) (Some (vp_subject p)) None) d = (Inr prov, d1)"
  shows "\<exists>u m w t. access_decision d1 subject = Inr u \<and> email_normalized u = lower (vp_email p)
    \<and> active_member d1 (usr_id u) (m, w, t) \<and> is_personal t \<and> tnt_owner_user_id t = usr_id u
    \<and> schema_ok d1
    \<and> provision_account collate (provision_0004 quiet) g stamp steady now authorization (st, d)
      = (Inr \<lparr>ar_user_id = usr_id u, ar_email = vp_email p, ar_tenant_id = tnt_id t,
          ar_tenant_name = tnt_name t, ar_tenant_kind = tnt_kind t, ar_role = mbr_role m,
          ar_created = pi_created prov\<rparr>, st1, d1)"
proof -
  obtain m u w t where a: "access_decision d1 subject = Inr u" "usr_id u = pi_user_id prov"
      "email_normalized u = lower (vp_email p)" "active_member d1 (usr_id u) (m, w, t)"
      "tnt_id t = pi_tenant_id prov" "is_personal t" "tnt_owner_user_id t = usr_id u" "schema_ok d1"
    using provisioned_is_authorized [OF assms(1) clean(3,2,1) tx [unfolded clean(4)]] by blast
  let ?rows = "membership_rows collate (usr_id u) d1"
  have auth: "with_transaction (authorize_local_access collate steady subject) d1 = (Inr (user_record u, ?rows), d1)"
    using authorize_transaction [OF clean(1), where collate = collate and d = d1] a(1) by simp
  have pick: "(case find (\<lambda>x. tm_tenant_id x = pi_tenant_id prov) ?rows of Some x \<Rightarrow> x | None \<Rightarrow> hd ?rows)
      = member_row m t"
    using hd_or_found [OF member_row_in [OF a(4)] membership_rows_distinct [OF a(8)]] a(5) by simp
  have "provision_account collate (provision_0004 quiet) g stamp steady now authorization (st, d)
      = (Inr \<lparr>ar_user_id = pi_user_id prov, ar_email = vp_email p, ar_tenant_id = tnt_id t,
          ar_tenant_name = tnt_name t, ar_tenant_kind = tnt_kind t, ar_role = mbr_role m,
          ar_created = pi_created prov\<rparr>, st1, d1)"
    unfolding provision_account_decides [OF s p] tx
    by (simp only: prod.case sum.case auth pick Let_def member_row_sel)
  with a show ?thesis by (metis a(2))
qed

end
