(* ===== verification/AccessCheck.thy ===== *)
theory AccessCheck
  imports AccountFacts Samples
begin

text \<open>
  The command-line report of \<^verbatim>\<open>backend/identity/access_check.py\<close>: what it prints and returns for
  an address, and how far its verdict agrees with the decision a request meets.  Its settings and
  engine are those of the application; the model starts at the database they reach.
\<close>

section \<open>The report\<close>

definition describe ::
    "(string \<Rightarrow> 'k::linorder) \<Rightarrow> string \<Rightarrow> session \<Rightarrow> (exn + string list \<times> string list) \<times> session" where
  "describe collate email =
     bind_state (is_signup_allowed email) (\<lambda>allowed.
     bind_state (find_user (Some email) None) (\<lambda>found.
     let lines = [''allowlisted:      '' @ (if allowed then ''yes'' else ''NO'')];
         reasons = (if allowed then [] else [''not-allowlisted''])
     in case found of
        None \<Rightarrow> return_state (lines @ [''local account:    none (created on first sign-in)''], reasons)
      | Some user \<Rightarrow>
          bind_state (list_memberships collate (ur_id user)) (\<lambda>members.
          return_state
            (lines @ [''local account:    yes (status '' @ ur_status user @ '')'',
               ''external subject: '' @ (if falsy (ur_external_id user) then ''NOT BOUND'' else ''bound''),
               ''active tenants:   '' @ int_text (int (length members))],
             reasons @ (if is_active user then [] else [''identity-disabled''])
               @ (if ur_external_id user = None
                  then [''subject-binding-required (see infra/bind-subject.sql)''] else [])
               @ (if members = [] then [''no-active-membership''] else [])))))"

text \<open>The last line printed, with the reasons joined; the dash before them in \<open>Denied\<close> lies
  beyond the texts of the model.\<close>

datatype verdict = Denied string | Permitted

lemma not_permitted: "v \<noteq> Permitted \<longleftrightarrow> (\<exists>why. v = Denied why)"
  by (cases v) simp_all

definition report ::
    "(string \<Rightarrow> 'k::linorder) \<Rightarrow> string \<Rightarrow> database \<Rightarrow> (exn + int \<times> string \<times> verdict) \<times> database" where
  "report collate email d =
     (case with_transaction (describe collate email) d of
        (Inl e, d1) \<Rightarrow> (Inl e, d1)
      | (Inr (lines, reasons), d1) \<Rightarrow>
          (Inr (if reasons \<noteq> [] then (1, join [CHR 0x0A] lines, Denied (join '', '' reasons))
                else (0, join [CHR 0x0A] lines, Permitted)), d1))"

text \<open>The exit status, with what is printed unless it is the usage line.\<close>

definition access_check_main ::
    "(string \<Rightarrow> 'k::linorder) \<Rightarrow> string list \<Rightarrow> database
      \<Rightarrow> (exn + int \<times> (string \<times> verdict) option) \<times> database" where
  "access_check_main collate argv d =
     (case argv of
        [argument] \<Rightarrow>
          if strip argument = [] then (Inr (2, None), d)
          else (case report collate (strip argument) d of
              (Inl e, d1) \<Rightarrow> (Inl e, d1)
            | (Inr (status, out), d1) \<Rightarrow> (Inr (status, Some out), d1))
      | _ \<Rightarrow> (Inr (2, None), d))"

section \<open>The reasons as a function of the database\<close>

definition listed :: "database \<Rightarrow> string \<Rightarrow> bool" where
  "listed d e = (\<exists>a\<in>set (signup_allowlist d). alw_email_normalized a = e)"

definition denial_reasons :: "database \<Rightarrow> string \<Rightarrow> string list" where
  "denial_reasons d email =
     (if listed d (normalize_email email) then [] else [''not-allowlisted'']) @
     (case find (\<lambda>u. email_normalized u = normalize_email email) (users d) of
        None \<Rightarrow> []
      | Some u \<Rightarrow> (if usr_status u = ACTIVE then [] else [''identity-disabled''])
          @ (if usr_external_id u = None
             then [''subject-binding-required (see infra/bind-subject.sql)''] else [])
          @ (if \<exists>x\<in>set (joined d). active_member d (usr_id u) x then [] else [''no-active-membership'']))"

lemma find_user_address:
  assumes "\<not> aborted s" and "email \<noteq> []"
  shows "find_user (Some email) None s = (Inr (map_option user_record
    (find (\<lambda>u. email_normalized u = normalize_email email) (users (contents s)))), s)"
proof -
  have "find_user_where (Some (normalize_email email)) None
      = (\<lambda>u. email_normalized u = normalize_email email)"
    by (simp add: find_user_where_def app_normalize_email_def normalize_email_fixed fun_eq_iff)
  with assms show ?thesis
    by (cases "find (\<lambda>u. email_normalized u = normalize_email email) (users (contents s))")
       (simp_all add: find_user_def falsy_def app_find_user_def user_record_def)
qed

lemma describe_reasons:
  assumes "\<not> aborted s" and "email \<noteq> []"
  obtains lines where "describe collate email s = (Inr (lines, denial_reasons (contents s) email), s)"
proof -
  have a: "is_signup_allowed email s = (Inr (listed (contents s) (normalize_email email)), s)"
    using assms(1) by (simp add: is_signup_allowed_def signup_allowed_normalize listed_def)
  have l: "list_memberships collate i s = (Inr (membership_rows collate i (contents s)), s)" for i
    using assms(1) by (simp add: list_memberships_def membership_rows_def)
  note f = find_user_address [OF assms]
  have "\<exists>lines. describe collate email s = (Inr (lines, denial_reasons (contents s) email), s)"
  proof (cases "find (\<lambda>u. email_normalized u = normalize_email email) (users (contents s))")
    case None
    then show ?thesis
      unfolding describe_def denial_reasons_def bind_state_def
      by (simp add: return_state_def Let_def a f)
  next
    case (Some u)
    then show ?thesis
      unfolding describe_def denial_reasons_def bind_state_def
      by (simp add: return_state_def Let_def a f l user_record_def is_active_def membership_rows_Nil)
  qed
  with that show thesis by blast
qed

lemma main_reasons:
  assumes "strip argument \<noteq> []"
  obtains out where "access_check_main collate [argument] d =
    (Inr (if denial_reasons d argument = [] then (0, Some (out, Permitted))
          else (1, Some (out, Denied (join '', '' (denial_reasons d argument))))), d)"
proof (rule describe_reasons [of "open_session d" "strip argument" collate])
  fix lines
  assume "describe collate (strip argument) (open_session d)
    = (Inr (lines, denial_reasons (contents (open_session d)) (strip argument)), open_session d)"
  moreover have "denial_reasons d (strip argument) = denial_reasons d argument"
    by (simp add: denial_reasons_def normalize_email_def)
  ultimately show thesis
    using that [of "join [CHR 0x0A] lines"] assms
    by (simp add: access_check_main_def report_def with_transaction_def)
qed (use assms in simp_all)

section \<open>Agreement with the requests\<close>

text \<open>For an account of that address the reasons are empty exactly when its own subject passes
  the access decision.\<close>

lemma reasons_decide:
  assumes ok: "schema_ok d" and u: "u \<in> set (users d)" "email_normalized u = normalize_email argument"
  shows "denial_reasons d argument = []
    \<longleftrightarrow> (\<exists>subject. usr_external_id u = Some subject \<and> access_decision d subject = Inr u)"
proof -
  have e: "find (\<lambda>u. email_normalized u = normalize_email argument) (users d) = Some u"
    by (rule find_unique) (use u ok in \<open>auto intro: user_email_key\<close>)
  have s: "find (\<lambda>u. usr_external_id u = Some subject) (users d) = Some u"
    if "usr_external_id u = Some subject" for subject
    by (rule find_unique) (use u that ok in \<open>auto intro: user_subject_key\<close>)
  have "email_normalized u = lower (btrim (strip argument))"
    using u(2) by (simp add: normalize_email_def)
  then have "normalize_email (usr_email u) = normalize_email argument"
    using normalize_stored_email [of u "strip argument"] by (simp add: normalize_email_def)
  then show ?thesis
    by (cases "usr_external_id u") (auto simp: denial_reasons_def e s access_decision_def listed_def)
qed

text \<open>C26: For an address with a local account the report says permitted, with status 0, exactly when
  a request of the subject bound to that account would be authorized on this database, and denied,
  with status 1, otherwise; it changes nothing.\<close>

theorem report_agrees_with_requests:
  fixes collate :: "string \<Rightarrow> 'k::linorder"
  assumes "schema_ok d" and "strip argument \<noteq> []" and "u \<in> set (users d)"
    and "email_normalized u = normalize_email argument" and "usr_external_id u \<noteq> Some []"
  shows "\<exists>status printed verdict. access_check_main collate [argument] d = (Inr (status, Some (printed, verdict)), d)
    \<and> status \<in> {0, 1} \<and> (status = 0 \<longleftrightarrow> verdict = Permitted)
    \<and> (status = 0 \<longleftrightarrow> (\<exists>subject rows. usr_external_id u = Some subject
        \<and> with_transaction (authorize_local_access collate steady subject) d = (Inr (user_record u, rows), d)))"
proof -
  have "(\<exists>rows. with_transaction (authorize_local_access collate steady subject) d = (Inr (user_record u, rows), d))
      \<longleftrightarrow> access_decision d subject = Inr u" if s: "usr_external_id u = Some subject" for subject
  proof (cases "access_decision d subject")
    case (Inr v)
    then have "v = u" using access_decision_Inr [OF Inr] user_subject_key assms(1,3) s by blast
    with Inr assms(5) s show ?thesis by (simp add: authorize_transaction)
  qed (use assms(5) s in \<open>simp add: authorize_transaction\<close>)
  then have r: "denial_reasons d argument = [] \<longleftrightarrow> (\<exists>subject rows. usr_external_id u = Some subject
      \<and> with_transaction (authorize_local_access collate steady subject) d = (Inr (user_record u, rows), d))"
    unfolding reasons_decide [OF assms(1,3,4)] by blast
  obtain out where "access_check_main collate [argument] d =
      (Inr (if denial_reasons d argument = [] then (0, Some (out, Permitted))
          else (1, Some (out, Denied (join '', '' (denial_reasons d argument))))), d)"
    by (rule main_reasons [OF assms(2)])
  then show ?thesis
    unfolding r [symmetric] by (cases "denial_reasons d argument = []") simp_all
qed

theorem report_agrees_with_requests_witness:
  "(\<exists>rows. with_transaction (authorize_local_access length steady ''sub_a'') db_one = (Inr (user_record user_a, rows), db_one))
   \<and> (\<exists>printed why. access_check_main length ['' Ann@X.io''] db_unbound = (Inr (1, Some (printed, Denied why)), db_unbound))"
proof -
  have one: "strip ''ann@x.io'' \<noteq> []" "user_a \<in> set (users db_one)"
      "email_normalized user_a = normalize_email ''ann@x.io''" "usr_external_id user_a \<noteq> Some []"
      "usr_external_id user_a = Some ''sub_a''"
    and unbound: "strip '' Ann@X.io'' \<noteq> []" "user_a\<lparr>usr_external_id := None\<rparr> \<in> set (users db_unbound)"
      "email_normalized (user_a\<lparr>usr_external_id := None\<rparr>) = normalize_email '' Ann@X.io''"
      "usr_external_id (user_a\<lparr>usr_external_id := None\<rparr>) \<noteq> Some []"
    by code_simp+
  have "map_sum (\<lambda>_. ()) fst (fst (access_check_main length [''ann@x.io''] db_one)) = Inr 0"
    by code_simp
  with report_agrees_with_requests [OF samples_ok(2) one(1-4), of length]
  have "\<exists>rows. with_transaction (authorize_local_access length steady ''sub_a'') db_one
      = (Inr (user_record user_a, rows), db_one)"
    using one(5) by auto
  moreover have "\<exists>printed why. access_check_main length ['' Ann@X.io''] db_unbound
      = (Inr (1, Some (printed, Denied why)), db_unbound)"
    using report_agrees_with_requests [OF samples_ok(3) unbound, of length]
    by (auto simp: not_permitted)
  ultimately show ?thesis by blast
qed

text \<open>For an address without a local account the report is permitted exactly when the address is
  on the allowlist, although no request is authorized for that address before an account has been
  provisioned: there the report and the request disagree.\<close>

lemma report_permits_unprovisioned:
  fixes collate :: "string \<Rightarrow> 'k::linorder"
  assumes "strip argument \<noteq> []" and "\<forall>u\<in>set (users d). email_normalized u \<noteq> normalize_email argument"
  shows "(\<exists>printed. access_check_main collate [argument] d
        = (Inr (if listed d (normalize_email argument) then (0, Some (printed, Permitted))
                else (1, Some (printed, Denied ''not-allowlisted''))), d))
    \<and> \<not> (\<exists>subject user rows d'. subject \<noteq> []
        \<and> with_transaction (authorize_local_access collate steady subject) d = (Inr (user, rows), d')
        \<and> EMAIL_NORMALIZATION_SQL (ur_email user) = normalize_email argument)"
proof
  obtain out where "access_check_main collate [argument] d =
      (Inr (if denial_reasons d argument = [] then (0, Some (out, Permitted))
          else (1, Some (out, Denied (join '', '' (denial_reasons d argument))))), d)"
    by (rule main_reasons [OF assms(1)])
  moreover have "find (\<lambda>u. email_normalized u = normalize_email argument) (users d) = None"
    using assms(2) by (simp add: find_None_iff)
  then have "denial_reasons d argument
      = (if listed d (normalize_email argument) then [] else [''not-allowlisted''])"
    by (simp add: denial_reasons_def)
  ultimately show "\<exists>printed. access_check_main collate [argument] d
      = (Inr (if listed d (normalize_email argument) then (0, Some (printed, Permitted))
              else (1, Some (printed, Denied ''not-allowlisted''))), d)"
    by (cases "listed d (normalize_email argument)") simp_all
next
  show "\<not> (\<exists>subject user rows d'. subject \<noteq> []
      \<and> with_transaction (authorize_local_access collate steady subject) d = (Inr (user, rows), d')
      \<and> EMAIL_NORMALIZATION_SQL (ur_email user) = normalize_email argument)"
  proof safe
    fix subject user rows d'
    assume "subject \<noteq> []" and run: "with_transaction (authorize_local_access collate steady subject) d = (Inr (user, rows), d')"
      and e: "EMAIL_NORMALIZATION_SQL (ur_email user) = normalize_email argument"
    then obtain u where u: "access_decision d subject = Inr u" "user = user_record u"
      using run unfolding authorize_transaction [OF \<open>subject \<noteq> []\<close>] by (auto split: sum.splits)
    with e have "email_normalized u = normalize_email argument"
      by (simp add: user_record_def email_normalized_def)
    with assms(2) access_decision_Inr [OF u(1)] show False by blast
  qed
qed

lemma report_permits_unprovisioned_witness:
  "\<exists>printed. access_check_main length [''bob@x.io''] db_one = (Inr (0, Some (printed, Permitted)), db_one)"
proof -
  have "strip ''bob@x.io'' \<noteq> []" "\<forall>u\<in>set (users db_one). email_normalized u \<noteq> normalize_email ''bob@x.io''"
    by code_simp+
  moreover have "listed db_one (normalize_email ''bob@x.io'')" by code_simp
  ultimately show ?thesis using report_permits_unprovisioned [of "''bob@x.io''" db_one length] by simp
qed

end
