(* ===== verification/LiveSpike.thy ===== *)
theory LiveSpike
  imports Workos
begin

text \<open>
  The bounded live runner of \<^verbatim>\<open>backend/agent/live_spike.py\<close>: the transport that caps what may be
  sent to a provider, the checks of the two provider runs, and the report with its resumption.
  The client libraries (pydantic-ai, google-genai, the Tavily client) are parameters: programs
  that send requests through the transport, look at the answers, and return or raise.
\<close>

section \<open>Exceptions and Python values\<close>

text \<open>An exception: its class, its message, and its attributes \<^verbatim>\<open>status_code\<close> and \<^verbatim>\<open>code\<close> where it has
  them.  \<^verbatim>\<open>CancelledError\<close>, which a timeout delivers, is not an \<^verbatim>\<open>Exception\<close>.\<close>

record live_error =
  le_type :: string
  le_message :: string
  le_status_code :: "json option"
  le_code :: "json option"

definition py_error :: "string \<Rightarrow> string \<Rightarrow> live_error" where
  "py_error t m = \<lparr>le_type = t, le_message = m, le_status_code = None, le_code = None\<rparr>"

abbreviation value_error :: "string \<Rightarrow> live_error" where
  "value_error \<equiv> py_error ''ValueError''"

definition is_exception :: "live_error \<Rightarrow> bool" where
  "is_exception e = (le_type e \<noteq> ''CancelledError'')"

text \<open>\<^verbatim>\<open>body[key]\<close>, the truth of a value, and the number a JSON value compares as.\<close>

definition item :: "json \<Rightarrow> string \<Rightarrow> live_error + json" where
  "item v key = (case v of
       JObj items \<Rightarrow> (case map_of items key of None \<Rightarrow> Inl (py_error ''KeyError'' key) | Some x \<Rightarrow> Inr x)
     | _ \<Rightarrow> Inl (py_error ''TypeError'' ''not a mapping''))"

definition json_truth :: "json \<Rightarrow> bool" where
  "json_truth v = (case v of JNull \<Rightarrow> False | JBool b \<Rightarrow> b | JInt i \<Rightarrow> i \<noteq> 0 | JFloat x \<Rightarrow> x \<noteq> 0
     | JStr s \<Rightarrow> s \<noteq> [] | JList xs \<Rightarrow> xs \<noteq> [] | JObj items \<Rightarrow> items \<noteq> [])"

definition number :: "json \<Rightarrow> rat option" where
  "number v = (case v of JBool b \<Rightarrow> Some (if b then 1 else 0) | JInt i \<Rightarrow> Some (of_int i)
     | JFloat x \<Rightarrow> Some x | _ \<Rightarrow> None)"

definition is_int :: "json \<Rightarrow> bool" where
  "is_int v = (case v of JInt _ \<Rightarrow> True | JBool _ \<Rightarrow> True | _ \<Rightarrow> False)"

section \<open>The transport\<close>

definition MODEL :: string where "MODEL = ''gemini-3.5-flash-lite''"

definition QUERY :: string where "QUERY = ''Python official documentation asyncio library''"

text \<open>A request with the length of its body and the body as JSON (\<^verbatim>\<open>None\<close> where it does not parse);
  a response likewise.  The inner transport answers depending on all it has been sent.\<close>

record http_request =
  rq_method :: string
  rq_host :: string
  rq_path :: string
  rq_size :: int
  rq_json :: "json option"

record provider_response =
  rs_status :: int
  rs_size :: int
  rs_json :: "json option"

record BoundedTransport =
  provider :: string
  inner :: "http_request list \<Rightarrow> http_request \<Rightarrow> live_error + provider_response"
  sent :: "http_request list"
  counts :: "(string \<times> int) list"
  usage :: "json list"

definition BoundedTransport_init ::
    "string \<Rightarrow> (http_request list \<Rightarrow> http_request \<Rightarrow> live_error + provider_response) \<Rightarrow> BoundedTransport" where
  "BoundedTransport_init name net = \<lparr>provider = name, inner = net, sent = [],
     counts = [(''generation'', 0), (''discovery'', 0), (''search'', 0)], usage = []\<rparr>"

definition json_loads :: "json option \<Rightarrow> live_error + json" where
  "json_loads v = (case v of None \<Rightarrow> Inl (py_error ''JSONDecodeError'' []) | Some x \<Rightarrow> Inr x)"

definition approve_generation :: "http_request \<Rightarrow> live_error + string \<times> int" where
  "approve_generation rq =
     and_then (json_loads (rq_json rq)) (\<lambda>body.
     and_then (item body ''generationConfig'') (\<lambda>config.
     and_then (item config ''maxOutputTokens'') (\<lambda>tokens.
     case number tokens of
       None \<Rightarrow> Inl (py_error ''TypeError'' ''not comparable'')
     | Some n \<Rightarrow>
         if \<not> (0 < n \<and> n \<le> 2048) then Inl (value_error ''Output-token cap exceeded'')
         else if rq_size rq \<ge> 20000 then Inl (value_error ''Prompt size cap exceeded'')
         else Inr (''generation'', 6))))"

text \<open>The parameters of a search are tested from left to right, each only if the ones before pass.\<close>

definition approve_search :: "http_request \<Rightarrow> live_error + string \<times> int" where
  "approve_search rq =
     (let unapproved = Inl (value_error ''Unapproved search parameters'')
      in and_then (json_loads (rq_json rq)) (\<lambda>body.
         and_then (item body ''search_depth'') (\<lambda>depth.
         if depth \<noteq> JStr ''basic'' then unapproved
         else and_then (item body ''max_results'') (\<lambda>results.
         if number results \<noteq> Some 3 then unapproved
         else if (case json_get body ''include_images'' of None \<Rightarrow> False | Some v \<Rightarrow> json_truth v)
         then unapproved
         else if (case json_get body ''include_raw_content'' of None \<Rightarrow> False | Some v \<Rightarrow> json_truth v)
         then unapproved
         else and_then (item body ''query'') (\<lambda>query.
         if query \<noteq> JStr QUERY then unapproved else Inr (''search'', 1))))))"

definition approve :: "string \<Rightarrow> http_request \<Rightarrow> live_error + string \<times> int" where
  "approve name rq =
     (if name = ''gemini'' \<and> rq_host rq = ''generativelanguage.googleapis.com'' then
        if rq_method rq = ''POST'' \<and> endswith (rq_path rq) (''/models/'' @ MODEL @ '':generateContent'')
        then approve_generation rq
        else if rq_method rq = ''GET'' \<and> endswith (rq_path rq) (''/models/'' @ MODEL)
        then Inr (''discovery'', 2)
        else Inl (value_error ''Unapproved Gemini request'')
      else if name = ''tavily'' \<and> rq_host rq = ''api.tavily.com'' \<and> rq_path rq = ''/search''
      then approve_search rq
      else Inl (value_error ''Unapproved endpoint''))"

text \<open>The counted usage of a successful response: the integers of \<^verbatim>\<open>usageMetadata\<close>, else \<^verbatim>\<open>usage\<close>.\<close>

definition usage_of :: "provider_response \<Rightarrow> live_error + json" where
  "usage_of response =
     and_then (json_loads (rs_json response)) (\<lambda>payload.
     if \<not> is_object payload then Inl (py_error ''AttributeError'' ''get'')
     else case (case json_get payload ''usageMetadata'' of Some u \<Rightarrow> u
            | None \<Rightarrow> (case json_get payload ''usage'' of Some u \<Rightarrow> u | None \<Rightarrow> JObj [])) of
         JObj items \<Rightarrow> Inr (JObj (filter (\<lambda>(k, v). is_int v) items))
       | _ \<Rightarrow> Inl (py_error ''AttributeError'' ''items''))"

definition count_of :: "BoundedTransport \<Rightarrow> string \<Rightarrow> int" where
  "count_of t kind = the (map_of (counts t) kind)"

definition handle_async_request ::
    "http_request \<Rightarrow> BoundedTransport \<Rightarrow> (live_error + provider_response) \<times> BoundedTransport" where
  "handle_async_request rq t =
     (case approve (provider t) rq of
        Inl e \<Rightarrow> (Inl e, t)
      | Inr (kind, limit) \<Rightarrow>
          if count_of t kind \<ge> limit then (Inl (value_error ''Request cap reached''), t)
          else let t1 = t\<lparr>counts := put kind (count_of t kind + 1) (counts t), sent := sent t @ [rq]\<rparr>
            in case inner t (sent t) rq of
                Inl e \<Rightarrow> (Inl e, t1)
              | Inr response \<Rightarrow>
                  if rs_size response > 256000
                  then (Inl (value_error ''Provider response exceeds byte limit''), t1)
                  else if 200 \<le> rs_status response \<and> rs_status response \<le> 299
                  then (case usage_of response of
                      Inl e \<Rightarrow> (Inl e, t1)
                    | Inr u \<Rightarrow> (Inr response, t1\<lparr>usage := usage t1 @ [u]\<rparr>))
                  else (Inr response, t1))"

section \<open>Client libraries as programs\<close>

text \<open>What a library does while the runner awaits it: it sends requests, it calls the lookup tool with
  a code, and it ends with a value or an exception.\<close>

datatype 'a program =
    Return 'a
  | Throw live_error
  | Send http_request "live_error + provider_response \<Rightarrow> 'a program"
  | CallTool int "live_error + string \<Rightarrow> 'a program"

definition require :: "bool \<Rightarrow> string \<Rightarrow> live_error + unit" where
  "require condition label = guard condition (py_error ''SpikeCheckFailed'' label)"

definition synthetic_lookup :: "int \<Rightarrow> int list \<Rightarrow> (live_error + string) \<times> int list" where
  "synthetic_lookup tool_code executed =
     (case require (tool_code = 17) ''tool-argument-mismatch'' of
        Inl e \<Rightarrow> (Inl e, executed)
      | Inr _ \<Rightarrow> (Inr ''VESPERS_TOOL_731'', executed @ [tool_code]))"

primrec run_program ::
    "'a program \<Rightarrow> BoundedTransport \<times> int list \<Rightarrow> (live_error + 'a) \<times> BoundedTransport \<times> int list" where
  "run_program (Return x) = (\<lambda>s. (Inr x, s))"
| "run_program (Throw e) = (\<lambda>s. (Inl e, s))"
| "run_program (Send rq k) = (\<lambda>(t, ex). case handle_async_request rq t of
     (r, t1) \<Rightarrow> run_program (k r) (t1, ex))"
| "run_program (CallTool c k) = (\<lambda>(t, ex). case synthetic_lookup c ex of
     (r, ex1) \<Rightarrow> run_program (k r) (t, ex1))"

section \<open>Results of a search\<close>

record citation =
  ct_title :: string
  ct_url :: string
  ct_content :: string

text \<open>\<^verbatim>\<open>urllib.parse.urlsplit\<close> as far as scheme and network location go.  The validity of a
  bracketed or non-ASCII location is a check of the library's own, the parameter \<open>valid_netloc\<close>.\<close>

definition scheme_char :: "char \<Rightarrow> bool" where
  "scheme_char c = (let n = code c in (48 \<le> n \<and> n \<le> 57) \<or> (65 \<le> n \<and> n \<le> 90) \<or> (97 \<le> n \<and> n \<le> 122)
     \<or> c = CHR ''+'' \<or> c = CHR ''-'' \<or> c = CHR ''.'')"

definition split_scheme :: "string \<Rightarrow> string \<times> string" where
  "split_scheme url =
     (let s = takeWhile (\<lambda>c. c \<noteq> CHR '':'') url
      in if s \<noteq> url \<and> s \<noteq> [] \<and> (let n = code (hd s) in (65 \<le> n \<and> n \<le> 90) \<or> (97 \<le> n \<and> n \<le> 122))
            \<and> list_all scheme_char s
         then (lower s, drop (length s + 1) url) else ([], url))"

definition urlsplit :: "(string \<Rightarrow> bool) \<Rightarrow> string \<Rightarrow> live_error + string \<times> string" where
  "urlsplit valid_netloc url =
     (let clean = filter (\<lambda>c. code c \<notin> {9, 10, 13}) (dropWhile (\<lambda>c. code c \<le> 32) url);
          (scheme, rest) = split_scheme clean;
          netloc = (if prefix ''//'' rest
                    then takeWhile (\<lambda>c. c \<noteq> CHR ''/'' \<and> c \<noteq> CHR ''?'' \<and> c \<noteq> CHR ''#'') (drop 2 rest) else [])
      in if valid_netloc netloc then Inr (scheme, netloc) else Inl (value_error ''invalid netloc''))"

definition text_field :: "json \<Rightarrow> string \<Rightarrow> string option" where
  "text_field row key = (case json_get row key of
     Some (JStr s) \<Rightarrow> if strip s \<noteq> [] then Some s else None | _ \<Rightarrow> None)"

definition normalize_row :: "(string \<Rightarrow> bool) \<Rightarrow> json \<Rightarrow> live_error + citation" where
  "normalize_row valid_netloc row =
     (if \<not> is_object row then Inl (value_error ''Invalid result'')
      else case (text_field row ''title'', text_field row ''url'', text_field row ''content'') of
        (Some title, Some url, Some content) \<Rightarrow>
          and_then (urlsplit valid_netloc url) (\<lambda>(scheme, netloc).
          if scheme \<notin> {''https'', ''http''} \<or> netloc = [] \<or> int (length url) > 2000
          then Inl (value_error ''Invalid citation URL'')
          else Inr \<lparr>ct_title = take 200 title, ct_url = url, ct_content = take 2000 content\<rparr>)
      | _ \<Rightarrow> Inl (value_error ''Missing citation fields''))"

primrec normalize_rows :: "(string \<Rightarrow> bool) \<Rightarrow> json list \<Rightarrow> live_error + citation list" where
  "normalize_rows valid_netloc [] = Inr []"
| "normalize_rows valid_netloc (row # rows) =
     and_then (normalize_row valid_netloc row) (\<lambda>c.
     and_then (normalize_rows valid_netloc rows) (\<lambda>cs. Inr (c # cs)))"

definition normalize_search :: "(string \<Rightarrow> bool) \<Rightarrow> json \<Rightarrow> live_error + citation list" where
  "normalize_search valid_netloc payload =
     (if \<not> is_object payload then Inl (py_error ''AttributeError'' ''get'')
      else case json_get payload ''results'' of
        Some (JList rows) \<Rightarrow>
          if 1 \<le> length rows \<and> length rows \<le> 3 then normalize_rows valid_netloc rows
          else Inl (value_error ''Invalid result count'')
      | _ \<Rightarrow> Inl (value_error ''Invalid result count''))"

section \<open>Provider runs\<close>

type_synonym dict = "(string \<times> json) list"

definition failure :: "live_error \<Rightarrow> dict" where
  "failure error =
     [(''status'', JStr ''failed''), (''error_type'', JStr (le_type error)),
      (''http_status'',
        case (case le_status_code error of Some v \<Rightarrow> Some v | None \<Rightarrow> le_code error) of
          Some v \<Rightarrow> if is_int v then v else JNull | None \<Rightarrow> JNull)]"

text \<open>A transport that goes on from the counts and the usage of a report.  The model takes both as
  the program writes them, an object of integers and a list; any other shape in a resumed report
  ends the run of the provider with an error.\<close>

primrec read_counts :: "dict \<Rightarrow> (string \<times> int) list option" where
  "read_counts [] = Some []"
| "read_counts (p # d) = (case snd p of
     JInt n \<Rightarrow> map_option (\<lambda>r. (fst p, n) # r) (read_counts d) | _ \<Rightarrow> None)"

definition resume_transport ::
    "string \<Rightarrow> (http_request list \<Rightarrow> http_request \<Rightarrow> live_error + provider_response) \<Rightarrow> dict
      \<Rightarrow> live_error + BoundedTransport" where
  "resume_transport name net report =
     (case (case map_of report ''counts'' of None \<Rightarrow> Some []
            | Some (JObj items) \<Rightarrow> read_counts items | _ \<Rightarrow> None) of
        None \<Rightarrow> Inl (py_error ''TypeError'' ''counts'')
      | Some previous \<Rightarrow>
          (case (case map_of report ''provider_usage'' of None \<Rightarrow> Some []
                 | Some (JList items) \<Rightarrow> Some items | _ \<Rightarrow> None) of
             None \<Rightarrow> Inl (py_error ''TypeError'' ''provider_usage'')
           | Some used \<Rightarrow>
               let t = BoundedTransport_init name net
               in Inr (t\<lparr>counts := update_dict (counts t) previous, usage := usage t @ used\<rparr>)))"

text \<open>The report shares the counts and the usage list with the transport.\<close>

definition share :: "BoundedTransport \<Rightarrow> dict \<Rightarrow> dict" where
  "share t report = put ''provider_usage'' (JList (usage t))
     (put ''counts'' (JObj (map (\<lambda>(k, n). (k, JInt n)) (counts t))) report)"

definition await_program ::
    "'a program \<Rightarrow> BoundedTransport \<times> dict \<Rightarrow> (live_error + 'a \<times> int list) \<times> BoundedTransport \<times> dict" where
  "await_program p = (\<lambda>(t, report). case run_program p (t, []) of
     (r, t1, executed) \<Rightarrow> (case r of Inl e \<Rightarrow> Inl e | Inr x \<Rightarrow> Inr (x, executed), t1, report))"

definition check_that ::
    "bool \<Rightarrow> string \<Rightarrow> BoundedTransport \<times> dict \<Rightarrow> (live_error + unit) \<times> BoundedTransport \<times> dict" where
  "check_that condition label s = (require condition label, s)"

definition mark ::
    "string \<Rightarrow> BoundedTransport \<times> dict \<Rightarrow> (live_error + unit) \<times> BoundedTransport \<times> dict" where
  "mark key = (\<lambda>(t, report). (Inr (), t, put key (JStr ''pass'') report))"

record gemini_client =
  models_get :: "string program"
  text_run :: "string program"
  tool_run :: "string program"
  structured_run :: "(string \<times> int) program"

definition discovery ::
    "gemini_client \<Rightarrow> BoundedTransport \<times> dict \<Rightarrow> (live_error + unit) \<times> BoundedTransport \<times> dict" where
  "discovery client s =
     (if map_of (snd s) ''discovery'' = Some (JStr ''pass'') then return_state () s
      else bind_state (await_program (models_get client)) (\<lambda>(name, _).
           bind_state (check_that (name = ''models/'' @ MODEL) ''discovery-model-mismatch'') (\<lambda>_.
           mark ''discovery'')) s)"

definition gemini_checks ::
    "gemini_client \<Rightarrow> BoundedTransport \<times> dict \<Rightarrow> (live_error + unit) \<times> BoundedTransport \<times> dict" where
  "gemini_checks client =
     bind_state (discovery client) (\<lambda>_.
     bind_state (await_program (text_run client)) (\<lambda>(text_output, _).
     bind_state (check_that (strip text_output = ''VESPERS_OK'') ''text-output-mismatch'') (\<lambda>_.
     bind_state (mark ''text'') (\<lambda>_.
     bind_state (await_program (tool_run client)) (\<lambda>(tool_output, executed).
     bind_state (check_that (executed = [17]) ''tool-not-executed'') (\<lambda>_.
     bind_state (check_that (strip tool_output = ''VESPERS_TOOL_731'') ''tool-final-output-mismatch'') (\<lambda>_.
     bind_state (mark ''tool_and_final'') (\<lambda>_.
     bind_state (await_program (structured_run client)) (\<lambda>(answer, _).
     bind_state (check_that (answer = (''synthetic'', 42)) ''structured-output-mismatch'') (\<lambda>_.
     bind_state (mark ''structured'') (\<lambda>_.
     mark ''status'')))))))))))"

definition tavily_checks ::
    "(string \<Rightarrow> bool) \<Rightarrow> json program \<Rightarrow> BoundedTransport \<times> dict
      \<Rightarrow> (live_error + unit) \<times> BoundedTransport \<times> dict" where
  "tavily_checks valid_netloc search =
     bind_state (await_program search) (\<lambda>(raw, _) (t, report).
       case normalize_search valid_netloc raw of
         Inl e \<Rightarrow> (Inl e, t, report)
       | Inr rows \<Rightarrow> (Inr (), t, update_dict report
           [(''status'', JStr ''pass''), (''results'', JInt (int (length rows))),
            (''relevant'', JBool (\<exists>r\<in>set rows. py_in ''asyncio'' (lower (ct_url r)))),
            (''source_urls'', JList (map (\<lambda>r. JStr (ct_url r)) rows))]))"

text \<open>Both functions share their frame: the transport is resumed and shared with the report, the
  client is built, and an exception of the checks becomes a failure in the report.\<close>

definition provider_run ::
    "string \<Rightarrow> (http_request list \<Rightarrow> http_request \<Rightarrow> live_error + provider_response)
      \<Rightarrow> (live_error + 'c)
      \<Rightarrow> ('c \<Rightarrow> BoundedTransport \<times> dict \<Rightarrow> (live_error + unit) \<times> BoundedTransport \<times> dict)
      \<Rightarrow> dict \<Rightarrow> (live_error + unit) \<times> dict" where
  "provider_run name net client checks report =
     (case resume_transport name net report of
        Inl e \<Rightarrow> (Inl e, report)
      | Inr t \<Rightarrow>
          (case client of
             Inl e \<Rightarrow> (Inl e, share t report)
           | Inr c \<Rightarrow> (case checks c (t, share t report) of
                 (Inr _, t1, report1) \<Rightarrow> (Inr (), share t1 report1)
               | (Inl e, t1, report1) \<Rightarrow>
                   if is_exception e then (Inr (), update_dict (share t1 report1) (failure e))
                   else (Inl e, share t1 report1))))"

record libraries =
  network :: "string \<Rightarrow> http_request list \<Rightarrow> http_request \<Rightarrow> live_error + provider_response"
  google_client :: "live_error + gemini_client"
  tavily_client :: "live_error + json program"
  valid_location :: "string \<Rightarrow> bool"

definition gemini :: "libraries \<Rightarrow> dict \<Rightarrow> (live_error + unit) \<times> dict" where
  "gemini libs = provider_run ''gemini'' (network libs ''gemini'') (google_client libs) gemini_checks"

definition tavily :: "libraries \<Rightarrow> dict \<Rightarrow> (live_error + unit) \<times> dict" where
  "tavily libs = provider_run ''tavily'' (network libs ''tavily'') (tavily_client libs)
     (tavily_checks (valid_location libs))"

section \<open>The runner\<close>

text \<open>The timeout of a provider run reaches its body as a cancellation and leaves it as
  \<^verbatim>\<open>TimeoutError\<close>.\<close>

definition after_timeout :: "live_error \<Rightarrow> live_error" where
  "after_timeout e = (if is_exception e then e else py_error ''TimeoutError'' [])"

definition run_one :: "libraries \<Rightarrow> string \<Rightarrow> dict \<Rightarrow> dict" where
  "run_one libs name entry =
     (case (if name = ''gemini'' then gemini libs else tavily libs) (put ''status'' (JStr ''started'') entry) of
        (Inr _, entry1) \<Rightarrow> entry1
      | (Inl e, entry1) \<Rightarrow> update_dict entry1 (failure (after_timeout e)))"

fun run_providers :: "libraries \<Rightarrow> string list \<Rightarrow> dict \<Rightarrow> live_error + dict" where
  "run_providers libs [] report = Inr report"
| "run_providers libs (name # names) report =
     (let report1 = setdefault name (JObj []) report
      in case map_of report1 name of
          Some (JObj entry) \<Rightarrow>
            if map_of entry ''status'' = Some (JStr ''pass'') then run_providers libs names report1
            else run_providers libs names (put name (JObj (run_one libs name entry)) report1)
        | _ \<Rightarrow> Inl (py_error ''AttributeError'' ''get''))"

definition run :: "libraries \<Rightarrow> dict \<Rightarrow> string list \<Rightarrow> dict \<Rightarrow> live_error + dict" where
  "run libs versions providers previous =
     run_providers libs providers
       (update_dict [(''model'', JStr MODEL), (''versions'', JObj versions)] previous)"

record SpikeSettings =
  gemini_api_key :: string
  gemini_model_id :: string
  composio_api_key :: string
  tavily_api_key :: string
  composio_test_user_id :: string
  composio_test_connected_account_id :: string

definition nonempty_key :: "string \<Rightarrow> bool" where
  "nonempty_key v = (strip v \<noteq> [])"

definition explicit_selection :: "string \<Rightarrow> string option" where
  "explicit_selection v = (if strip v = [] \<or> lower (strip v) = ''latest'' then None else Some (strip v))"

definition spike_diagnostic_hint :: string where
  "spike_diagnostic_hint =
     ''Check .env.spike.example; supply explicit test keys, and an explicit model ID.''"

definition SpikeSettings_init :: "SpikeSettings \<Rightarrow> live_error + SpikeSettings" where
  "SpikeSettings_init raw =
     (let rejected = (if nonempty_key (gemini_api_key raw) then [] else [''gemini_api_key''])
            @ (case explicit_selection (gemini_model_id raw) of None \<Rightarrow> [''gemini_model_id''] | Some _ \<Rightarrow> [])
            @ (if nonempty_key (tavily_api_key raw) then [] else [''tavily_api_key''])
      in if rejected \<noteq> []
         then Inl (py_error ''ConfigurationError''
                (''Invalid configuration: '' @ join '', '' rejected @ ''. '' @ spike_diagnostic_hint))
         else Inr (raw\<lparr>gemini_model_id := strip (gemini_model_id raw)\<rparr>))"

record arguments =
  live :: bool
  free_allowance_confirmed :: "string list"
  resume_report :: "(live_error + json) option"

text \<open>\<^verbatim>\<open>list(dict.fromkeys(xs))\<close>\<close>

definition dedupe :: "string list \<Rightarrow> string list" where
  "dedupe xs = rev (remdups (rev xs))"

text \<open>\<^verbatim>\<open>previous or {}\<close> as the argument of \<^verbatim>\<open>update\<close>: only an object has keys to merge.\<close>

definition previous_items :: "json option \<Rightarrow> live_error + dict" where
  "previous_items v = (case v of None \<Rightarrow> Inr [] | Some x \<Rightarrow>
     if \<not> json_truth x then Inr [] else case x of JObj items \<Rightarrow> Inr items
     | _ \<Rightarrow> Inl (py_error ''TypeError'' ''update''))"

definition live_report ::
    "libraries \<Rightarrow> (live_error + dict) \<Rightarrow> SpikeSettings \<Rightarrow> arguments \<Rightarrow> live_error + dict" where
  "live_report libs versions raw args =
     and_then (SpikeSettings_init raw) (\<lambda>settings.
     if gemini_model_id settings \<noteq> MODEL
     then Inl (value_error ''Configured model must match approved model'')
     else and_then (case resume_report args of None \<Rightarrow> Inr None | Some r \<Rightarrow> map_sum (\<lambda>e. e) Some r) (\<lambda>previous.
          and_then versions (\<lambda>vs.
          and_then (previous_items previous) (\<lambda>items.
          run libs vs (dedupe (free_allowance_confirmed args)) items))))"

definition failed_entry :: "dict \<Rightarrow> string \<Rightarrow> bool" where
  "failed_entry report name = (case map_of report name of
     Some (JObj entry) \<Rightarrow> map_of entry ''status'' = Some (JStr ''failed'') | _ \<Rightarrow> False)"

text \<open>The exit status and the report printed; the parser's own error exits with 2.\<close>

definition live_spike_main ::
    "libraries \<Rightarrow> (live_error + dict) \<Rightarrow> SpikeSettings \<Rightarrow> arguments \<Rightarrow> int \<times> dict option" where
  "live_spike_main libs versions raw args =
     (if \<not> live args \<or> free_allowance_confirmed args = [] then (2, None)
      else let report = (case live_report libs versions raw args of Inl e \<Rightarrow> failure e | Inr r \<Rightarrow> r)
        in (if map_of report ''status'' = Some (JStr ''failed'')
              \<or> failed_entry report ''gemini'' \<or> failed_entry report ''tavily'' then 1 else 0, Some report))"

end
