(* ===== verification/LiveSpikeFacts.thy ===== *)
theory LiveSpikeFacts
  imports LiveSpike
begin

text \<open>
  What a program can do through the bounded transport: the relation \<open>spent\<close> between a transport
  before and after, which every request keeps, and the contract of the checks of a provider, from
  which the outcome of a provider run follows once for both providers.
\<close>

section \<open>Failures\<close>

lemma map_of_failure_status [simp]: "map_of (rev (failure e)) ''status'' = Some (JStr ''failed'')"
  by (simp add: failure_def)

lemma map_of_failure_counts [simp]: "map_of (rev (failure e)) ''counts'' = None"
  by (simp add: failure_def)

section \<open>Kinds of requests\<close>

definition kind_of :: "string \<Rightarrow> http_request \<Rightarrow> string option" where
  "kind_of name rq = (case approve name rq of Inl e \<Rightarrow> None | Inr (kind, limit) \<Rightarrow> Some kind)"

definition limit_of :: "string \<Rightarrow> int" where
  "limit_of kind = (if kind = ''generation'' then 6 else if kind = ''discovery'' then 2 else 1)"

definition kinds :: "string set" where
  "kinds = {''generation'', ''discovery'', ''search''}"

definition sent_of :: "string \<Rightarrow> string \<Rightarrow> http_request list \<Rightarrow> int" where
  "sent_of name kind rqs = int (length (filter (\<lambda>rq. kind_of name rq = Some kind) rqs))"

lemma approve_generation_Inr:
  "approve_generation rq = Inr kl \<Longrightarrow> kl = (''generation'', 6) \<and> rq_size rq < 20000
    \<and> (\<exists>body config tokens n. rq_json rq = Some body \<and> item body ''generationConfig'' = Inr config
        \<and> item config ''maxOutputTokens'' = Inr tokens \<and> number tokens = Some n \<and> 0 < n \<and> n \<le> 2048)"
  by (auto simp: approve_generation_def json_loads_def split: option.splits if_splits)

lemma approve_search_Inr:
  "approve_search rq = Inr kl \<Longrightarrow> kl = (''search'', 1)
    \<and> (\<exists>body results. rq_json rq = Some body \<and> item body ''search_depth'' = Inr (JStr ''basic'')
        \<and> item body ''max_results'' = Inr results \<and> number results = Some 3
        \<and> item body ''query'' = Inr (JStr QUERY))"
  by (auto simp: approve_search_def json_loads_def Let_def split: option.splits if_splits)

lemma approve_limit: "approve name rq = Inr (kind, limit) \<Longrightarrow> kind \<in> kinds \<and> limit = limit_of kind"
  by (auto simp: approve_def kinds_def limit_of_def split: if_splits
      dest: approve_generation_Inr approve_search_Inr)

section \<open>Spending\<close>

definition counted :: "BoundedTransport \<Rightarrow> bool" where
  "counted t = (\<forall>kind\<in>kinds. \<exists>n. map_of (counts t) kind = Some n)"

text \<open>What a transport has sent in between, and that the counts tell.\<close>

definition spent :: "BoundedTransport \<Rightarrow> BoundedTransport \<Rightarrow> bool" where
  "spent t t' = (provider t' = provider t \<and> inner t' = inner t
     \<and> (\<exists>rqs. sent t' = sent t @ rqs \<and> (\<forall>rq\<in>set rqs. kind_of (provider t) rq \<noteq> None)
         \<and> (\<forall>kind\<in>kinds. map_of (counts t') kind = Some (count_of t kind + sent_of (provider t) kind rqs)
              \<and> (sent_of (provider t) kind rqs = 0
                  \<or> count_of t kind + sent_of (provider t) kind rqs \<le> limit_of kind))))"

lemma sent_of_simps [simp]:
  "sent_of name kind [] = 0"
  "sent_of name kind (xs @ ys) = sent_of name kind xs + sent_of name kind ys"
  "sent_of name kind [rq] = (if kind_of name rq = Some kind then 1 else 0)"
  by (simp_all add: sent_of_def)

lemma sent_of_nonneg [simp]: "0 \<le> sent_of name kind rqs"
  by (simp add: sent_of_def)

lemma spent_counted: "spent t t' \<Longrightarrow> counted t'"
  by (auto simp: spent_def counted_def)

lemma spent_refl: "counted t \<Longrightarrow> spent t t"
  by (force simp: spent_def counted_def count_of_def)

lemma spent_trans:
  assumes "spent t1 t2" and "spent t2 t3"
  shows "spent t1 t3"
proof -
  from assms(1) obtain xs where x: "sent t2 = sent t1 @ xs" "\<forall>rq\<in>set xs. kind_of (provider t1) rq \<noteq> None"
    "\<And>k. k \<in> kinds \<Longrightarrow> count_of t2 k = count_of t1 k + sent_of (provider t1) k xs
       \<and> (sent_of (provider t1) k xs = 0 \<or> count_of t1 k + sent_of (provider t1) k xs \<le> limit_of k)"
    and p: "provider t2 = provider t1" "inner t2 = inner t1"
    by (auto simp: spent_def count_of_def)
  from assms(2) obtain ys where y: "sent t3 = sent t2 @ ys" "\<forall>rq\<in>set ys. kind_of (provider t1) rq \<noteq> None"
    "\<And>k. k \<in> kinds \<Longrightarrow> map_of (counts t3) k = Some (count_of t2 k + sent_of (provider t1) k ys)
       \<and> (sent_of (provider t1) k ys = 0 \<or> count_of t2 k + sent_of (provider t1) k ys \<le> limit_of k)"
    and q: "provider t3 = provider t1" "inner t3 = inner t1"
    using p by (auto simp: spent_def)
  have "map_of (counts t3) k = Some (count_of t1 k + sent_of (provider t1) k (xs @ ys))
     \<and> (sent_of (provider t1) k (xs @ ys) = 0 \<or> count_of t1 k + sent_of (provider t1) k (xs @ ys) \<le> limit_of k)"
    if "k \<in> kinds" for k
    using x(3) [OF that] y(3) [OF that] by auto
  with x(1,2) y(1,2) p q show ?thesis
    unfolding spent_def by (intro conjI exI [of _ "xs @ ys"]) auto
qed

lemma spent_one:
  assumes "counted t" and "approve (provider t) rq = Inr (kind, limit)" and "count_of t kind < limit"
    and "provider t' = provider t" and "inner t' = inner t" and "sent t' = sent t @ [rq]"
    and "counts t' = put kind (count_of t kind + 1) (counts t)"
  shows "spent t t'"
proof -
  have k: "kind_of (provider t) rq = Some kind" "limit = limit_of kind"
    using assms(2) by (simp_all add: kind_of_def approve_limit)
  have "map_of (counts t') j = Some (count_of t j + sent_of (provider t) j [rq])
     \<and> (sent_of (provider t) j [rq] = 0 \<or> count_of t j + sent_of (provider t) j [rq] \<le> limit_of j)"
    if "j \<in> kinds" for j
    using assms(1,3,7) that k by (auto simp: counted_def count_of_def)
  with assms(4-6) k(1) show ?thesis
    unfolding spent_def by (intro conjI exI [of _ "[rq]"]) auto
qed

lemma handle_spent:
  assumes "counted t"
  shows "spent t (snd (handle_async_request rq t))"
proof (cases "approve (provider t) rq")
  case (Inl e)
  with assms show ?thesis by (simp add: handle_async_request_def spent_refl)
next
  case approved: (Inr kl)
  obtain kind limit where kl: "kl = (kind, limit)" by fastforce
  show ?thesis
  proof (cases "count_of t kind \<ge> limit")
    case True
    with assms approved kl show ?thesis by (simp add: handle_async_request_def spent_refl)
  next
    case False
    let ?t1 = "t\<lparr>counts := put kind (count_of t kind + 1) (counts t), sent := sent t @ [rq]\<rparr>"
    have "snd (handle_async_request rq t) = ?t1 \<or> (\<exists>u. snd (handle_async_request rq t) = ?t1\<lparr>usage := u\<rparr>)"
      using approved kl False
      by (auto simp: handle_async_request_def Let_def split: sum.split)
    then show ?thesis
      by (elim disjE exE) (use assms approved kl False in \<open>auto intro!: spent_one\<close>)
  qed
qed

lemma program_spent: "counted (fst s) \<Longrightarrow> spent (fst s) (fst (snd (run_program p s)))"
proof (induction p arbitrary: s)
  case (Send rq k)
  obtain t ex r t1 where s: "s = (t, ex)" and h: "handle_async_request rq t = (r, t1)"
    by (metis surj_pair)
  with Send.prems have "spent t t1" using handle_spent [of t rq] by simp
  moreover from this have "spent t1 (fst (snd (run_program (k r) (t1, ex))))"
    using Send.IH [of "k r" "(t1, ex)"] spent_counted by simp
  ultimately show ?case using h s spent_trans by simp
next
  case (CallTool c k)
  obtain t ex r ex1 where s: "s = (t, ex)" and h: "synthetic_lookup c ex = (r, ex1)"
    by (metis surj_pair)
  with CallTool.IH [of "k r" "(t, ex1)"] CallTool.prems show ?case by simp
qed (simp_all add: spent_refl)

text \<open>Steps on a transport and a report that spend within the caps, in sequence.\<close>

definition spends :: "(BoundedTransport \<times> 'r \<Rightarrow> (live_error + 'a) \<times> BoundedTransport \<times> 'r) \<Rightarrow> bool" where
  "spends m = (\<forall>s. counted (fst s) \<longrightarrow> spent (fst s) (fst (snd (m s))))"

lemma spends_bind:
  assumes "spends m" and "\<And>x. spends (k x)"
  shows "spends (bind_state m k)"
  unfolding spends_def
proof (intro allI impI)
  fix s :: "BoundedTransport \<times> 'a" assume c: "counted (fst s)"
  obtain r s1 where m: "m s = (r, s1)" by (metis surj_pair)
  have one: "spent (fst s) (fst s1)"
    using assms(1) [unfolded spends_def, rule_format, OF c] m by simp
  show "spent (fst s) (fst (snd (bind_state m k s)))"
  proof (cases r)
    case (Inl e)
    with m one show ?thesis by (simp add: bind_state_def)
  next
    case (Inr x)
    have "spent (fst s1) (fst (snd (k x s1)))"
      by (rule assms(2) [unfolded spends_def, rule_format, OF spent_counted [OF one]])
    with m one Inr spent_trans show ?thesis by (simp add: bind_state_def)
  qed
qed

lemma spends_await: "spends (await_program p)"
  unfolding spends_def
proof (intro allI impI)
  fix s :: "BoundedTransport \<times> dict" assume "counted (fst s)"
  with program_spent [of "(fst s, [])" p] show "spent (fst s) (fst (snd (await_program p s)))"
    by (simp add: await_program_def case_prod_beta)
qed

lemma spends_steps:
  "spends (return_state x)" "spends (check_that b label)" "spends (mark key)"
  by (auto simp: spends_def spent_refl return_state_def check_that_def mark_def)

lemma spends_if: "spends m \<Longrightarrow> spends n \<Longrightarrow> spends (\<lambda>s. if c s then m s else n s)"
  by (simp add: spends_def)

lemma spends_case_prod: "(\<And>a b. spends (f a b)) \<Longrightarrow> spends (case p of (a, b) \<Rightarrow> f a b)"
  by (cases p) simp

lemmas spends_intros = spends_bind spends_await spends_steps spends_if spends_case_prod

section \<open>The contract of the checks of a provider\<close>

locale provider_checks =
  fixes checks :: "'c \<Rightarrow> BoundedTransport \<times> dict \<Rightarrow> (live_error + unit) \<times> BoundedTransport \<times> dict"
  assumes checks_spend: "spends (checks client)"
    and checks_pass: "checks client s = (Inr u, t, report) \<Longrightarrow> map_of report ''status'' = Some (JStr ''pass'')"
begin

definition entry_of_transport :: "BoundedTransport \<Rightarrow> json" where
  "entry_of_transport t = JObj (map (\<lambda>(k, n). (k, JInt n)) (counts t))"

text \<open>A run that gets as far as its transport leaves the counts of a transport that has spent
  within the caps; one that does not leaves the entry alone.\<close>

lemma provider_run_counts:
  assumes "provider_run name net client checks entry = (r, entry1)"
  shows "resume_transport name net entry = Inl e \<Longrightarrow> r = Inl e \<and> entry1 = entry"
    and "resume_transport name net entry = Inr t \<Longrightarrow> counted t
      \<Longrightarrow> \<exists>t1. spent t t1 \<and> map_of entry1 ''counts'' = Some (entry_of_transport t1)"
proof -
  assume "resume_transport name net entry = Inl e"
  with assms show "r = Inl e \<and> entry1 = entry" by (simp add: provider_run_def)
next
  assume t: "resume_transport name net entry = Inr t" and c: "counted t"
  show "\<exists>t1. spent t t1 \<and> map_of entry1 ''counts'' = Some (entry_of_transport t1)"
  proof (cases client)
    case (Inl e)
    with assms t spent_refl [OF c] show ?thesis
      by (auto simp: provider_run_def share_def entry_of_transport_def)
  next
    case (Inr c')
    obtain r1 t1 report1 where run: "checks c' (t, share t entry) = (r1, t1, report1)"
      by (metis surj_pair)
    have "spent t t1"
      using checks_spend [of c', unfolded spends_def, rule_format, of "(t, share t entry)"] c run by simp
    moreover have "map_of entry1 ''counts'' = Some (entry_of_transport t1)"
      using assms t Inr run
      by (auto simp: provider_run_def share_def entry_of_transport_def map_of_update_dict
          split: sum.splits if_splits)
    ultimately show ?thesis by blast
  qed
qed

lemma provider_run_status:
  assumes "provider_run name net client checks entry = (Inr u, entry1)"
  shows "map_of entry1 ''status'' \<in> {Some (JStr ''pass''), Some (JStr ''failed'')}"
  using assms
  by (auto simp: provider_run_def share_def map_of_update_dict checks_pass
      split: sum.splits if_splits prod.splits)

end

section \<open>Both providers keep the contract\<close>

lemma gemini_checks_spend: "spends (gemini_checks client)"
proof -
  have d: "discovery client = (\<lambda>s. if map_of (snd s) ''discovery'' = Some (JStr ''pass'')
      then return_state () s
      else bind_state (await_program (models_get client)) (\<lambda>(name, _).
           bind_state (check_that (name = ''models/'' @ MODEL) ''discovery-model-mismatch'') (\<lambda>_.
           mark ''discovery'')) s)"
    by (simp add: discovery_def fun_eq_iff)
  show ?thesis
    unfolding gemini_checks_def d by (intro spends_intros)
qed

lemma tavily_checks_spend: "spends (tavily_checks valid_netloc search)"
  unfolding tavily_checks_def
proof (intro spends_intros)
  fix raw :: json and ex :: "int list"
  show "spends (\<lambda>(t, report). case normalize_search valid_netloc raw of Inl e \<Rightarrow> (Inl e, t, report)
      | Inr rows \<Rightarrow> (Inr (), t, update_dict report
          [(''status'', JStr ''pass''), (''results'', JInt (int (length rows))),
            (''relevant'', JBool (\<exists>r\<in>set rows. py_in ''asyncio'' (lower (ct_url r)))),
            (''source_urls'', JList (map (\<lambda>r. JStr (ct_url r)) rows))]))"
    by (auto simp: spends_def spent_refl split: sum.split)
qed

lemma bind_state_Inr:
  assumes "bind_state m k s = (Inr y, s2)"
  obtains x s1 where "m s = (Inr x, s1)" and "k x s1 = (Inr y, s2)"
  using assms by (auto simp: bind_state_def split: prod.splits sum.splits)

interpretation google: provider_checks gemini_checks
proof
  fix client s u t report
  show "spends (gemini_checks client)" by (rule gemini_checks_spend)
  assume "gemini_checks client s = (Inr u, t, report)"
  then obtain s1 where "mark ''status'' s1 = (Inr u, t, report)"
    unfolding gemini_checks_def by (elim bind_state_Inr) (auto elim!: bind_state_Inr)
  then show "map_of report ''status'' = Some (JStr ''pass'')"
    by (cases s1) (auto simp: mark_def)
qed

interpretation search: provider_checks "tavily_checks valid_netloc" for valid_netloc
proof
  fix client s u t report
  show "spends (tavily_checks valid_netloc client)" by (rule tavily_checks_spend)
  assume "tavily_checks valid_netloc client s = (Inr u, t, report)"
  then show "map_of report ''status'' = Some (JStr ''pass'')"
    unfolding tavily_checks_def
    by (elim bind_state_Inr) (auto simp: map_of_update_dict split: sum.splits)
qed

section \<open>Counts in the report\<close>

definition entry_count :: "dict \<Rightarrow> string \<Rightarrow> int" where
  "entry_count entry kind = (case map_of entry ''counts'' of
     Some (JObj items) \<Rightarrow> (case map_of items kind of Some (JInt n) \<Rightarrow> n | _ \<Rightarrow> 0) | _ \<Rightarrow> 0)"

definition counts_distinct :: "dict \<Rightarrow> bool" where
  "counts_distinct entry = (case map_of entry ''counts'' of
     Some (JObj items) \<Rightarrow> distinct (map fst items) | _ \<Rightarrow> True)"

lemma read_counts_keys: "read_counts items = Some cs \<Longrightarrow> map fst cs = map fst items"
  by (induction items arbitrary: cs) (auto split: json.splits)

lemma read_counts_lookup:
  "read_counts items = Some cs \<Longrightarrow> map_of items k = map_option JInt (map_of cs k)"
  by (induction items arbitrary: cs) (auto split: json.splits)

lemma resume_counts:
  assumes "resume_transport name net entry = Inr t" and "counts_distinct entry" and "kind \<in> kinds"
  shows "map_of (counts t) kind = Some (entry_count entry kind)"
proof -
  obtain cs where cs: "counts t = update_dict (counts (BoundedTransport_init name net)) cs"
    and d: "distinct (map fst cs)" and l: "entry_count entry kind = (case map_of cs kind of Some n \<Rightarrow> n | None \<Rightarrow> 0)"
  proof (cases "map_of entry ''counts''")
    case None
    with assms that [of "[]"] show thesis
      by (auto simp: resume_transport_def Let_def entry_count_def split: option.splits)
  next
    case (Some v)
    then obtain items cs where "v = JObj items" "read_counts items = Some cs"
      using assms(1) by (auto simp: resume_transport_def split: json.splits option.splits)
    with Some assms that [of cs] show thesis
      by (auto simp: resume_transport_def Let_def entry_count_def counts_distinct_def read_counts_lookup
          read_counts_keys split: option.splits json.splits)
  qed
  then show ?thesis
    using assms(3) by (auto simp: map_of_update_dict map_of_rev_distinct BoundedTransport_init_def kinds_def
        split: option.splits)
qed

lemma resume_counted: "resume_transport name net entry = Inr t \<Longrightarrow> counts_distinct entry \<Longrightarrow> counted t"
  by (simp add: counted_def resume_counts)

lemma resume_fields:
  "resume_transport name net entry = Inr t \<Longrightarrow> provider t = name \<and> inner t = net \<and> sent t = []"
  by (auto simp: resume_transport_def Let_def BoundedTransport_init_def split: option.splits json.splits)

text \<open>A provider run never takes a count beyond its cap, nor below what it was.\<close>

lemma entry_count_spent:
  assumes "resume_transport name net entry = Inr t" and "counts_distinct entry" and "spent t t1"
    and "map_of entry1 ''counts'' = Some (JObj (map (\<lambda>(k, n). (k, JInt n)) (counts t1)))"
    and "kind \<in> kinds"
  shows "entry_count entry kind \<le> entry_count entry1 kind
    \<and> entry_count entry1 kind \<le> max (limit_of kind) (entry_count entry kind)"
proof -
  have "count_of t kind = entry_count entry kind"
    using resume_counts [OF assms(1,2,5)] by (simp add: count_of_def)
  with assms(3,5) obtain rqs where r: "map_of (counts t1) kind = Some (entry_count entry kind + sent_of (provider t) kind rqs)"
    "sent_of (provider t) kind rqs = 0 \<or> entry_count entry kind + sent_of (provider t) kind rqs \<le> limit_of kind"
    by (auto simp: spent_def)
  then have "entry_count entry1 kind = entry_count entry kind + sent_of (provider t) kind rqs"
    by (simp add: entry_count_def assms(4) map_of_map)
  with r(2) sent_of_nonneg [of "provider t" kind rqs] show ?thesis by auto
qed

lemma entry_count_cong: "map_of e' ''counts'' = map_of e ''counts'' \<Longrightarrow> entry_count e' kind = entry_count e kind"
  by (simp add: entry_count_def)

lemma counts_distinct_cong: "map_of e' ''counts'' = map_of e ''counts'' \<Longrightarrow> counts_distinct e' = counts_distinct e"
  by (simp add: counts_distinct_def)

context provider_checks
begin

lemma provider_run_capped:
  assumes "provider_run name net client checks entry = (r, entry1)" and "counts_distinct entry"
    and "kind \<in> kinds"
  shows "entry_count entry kind \<le> entry_count entry1 kind
    \<and> entry_count entry1 kind \<le> max (limit_of kind) (entry_count entry kind)"
proof (cases "resume_transport name net entry")
  case (Inl e)
  with provider_run_counts(1) [OF assms(1)] show ?thesis by simp
next
  case (Inr t)
  with provider_run_counts(2) [OF assms(1) Inr resume_counted [OF Inr assms(2)]]
  obtain t1 where "spent t t1" "map_of entry1 ''counts'' = Some (entry_of_transport t1)" by blast
  with entry_count_spent [OF Inr assms(2) _ _ assms(3)] show ?thesis
    by (simp add: entry_of_transport_def)
qed

end

section \<open>One provider, all providers\<close>

lemma run_one_cases:
  obtains r entry1 where "gemini libs (put ''status'' (JStr ''started'') entry) = (r, entry1)
      \<or> tavily libs (put ''status'' (JStr ''started'') entry) = (r, entry1)"
    and "run_one libs name entry = (case r of Inr _ \<Rightarrow> entry1
      | Inl e \<Rightarrow> update_dict entry1 (failure (after_timeout e)))"
proof -
  obtain r entry1 where run: "(if name = ''gemini'' then gemini libs else tavily libs)
      (put ''status'' (JStr ''started'') entry) = (r, entry1)"
    by (metis surj_pair)
  have "gemini libs (put ''status'' (JStr ''started'') entry) = (r, entry1)
      \<or> tavily libs (put ''status'' (JStr ''started'') entry) = (r, entry1)"
    using run by (cases "name = ''gemini''") (simp_all only: if_True if_False simp_thms)
  then show thesis by (rule that) (simp only: run_one_def run prod.case)
qed

lemma run_one_status:
  "map_of (run_one libs name entry) ''status'' \<in> {Some (JStr ''pass''), Some (JStr ''failed'')}"
proof (rule run_one_cases [of libs entry name])
  fix r entry1
  assume runs: "gemini libs (put ''status'' (JStr ''started'') entry) = (r, entry1)
      \<or> tavily libs (put ''status'' (JStr ''started'') entry) = (r, entry1)"
    and one: "run_one libs name entry = (case r of Inr _ \<Rightarrow> entry1
      | Inl e \<Rightarrow> update_dict entry1 (failure (after_timeout e)))"
  have "map_of entry1 ''status'' \<in> {Some (JStr ''pass''), Some (JStr ''failed'')}" if "r = Inr u" for u
    using runs unfolding that gemini_def tavily_def
    by (elim disjE) (rule google.provider_run_status search.provider_run_status, assumption)+
  with one show ?thesis by (cases r) (auto simp: map_of_update_dict)
qed

lemma run_one_capped:
  assumes "counts_distinct entry" and "kind \<in> kinds"
  shows "entry_count entry kind \<le> entry_count (run_one libs name entry) kind
    \<and> entry_count (run_one libs name entry) kind \<le> max (limit_of kind) (entry_count entry kind)"
proof (rule run_one_cases [of libs entry name])
  let ?start = "put ''status'' (JStr ''started'') entry"
  fix r entry1
  assume runs: "gemini libs ?start = (r, entry1) \<or> tavily libs ?start = (r, entry1)"
    and one: "run_one libs name entry = (case r of Inr _ \<Rightarrow> entry1
      | Inl e \<Rightarrow> update_dict entry1 (failure (after_timeout e)))"
  have c: "map_of ?start ''counts'' = map_of entry ''counts''" by simp
  have d: "counts_distinct ?start" unfolding counts_distinct_cong [OF c] by (rule assms(1))
  have caps: "entry_count entry kind \<le> entry_count entry1 kind
      \<and> entry_count entry1 kind \<le> max (limit_of kind) (entry_count entry kind)"
    using runs unfolding gemini_def tavily_def entry_count_cong [OF c, symmetric]
    by (elim disjE) (rule google.provider_run_capped [OF _ d assms(2)]
        search.provider_run_capped [OF _ d assms(2)], assumption)+
  have "entry_count (update_dict entry1 (failure e)) kind = entry_count entry1 kind" for e
    by (rule entry_count_cong) (simp add: map_of_update_dict)
  with one caps show ?thesis by (cases r) simp_all
qed

definition entry_at :: "dict \<Rightarrow> string \<Rightarrow> dict" where
  "entry_at report name = (case map_of report name of Some (JObj entry) \<Rightarrow> entry | _ \<Rightarrow> [])"

definition settled :: "libraries \<Rightarrow> string \<Rightarrow> dict \<Rightarrow> dict" where
  "settled libs name entry =
     (if map_of entry ''status'' = Some (JStr ''pass'') then entry else run_one libs name entry)"

lemma run_providers_Cons:
  assumes "map_of (setdefault name (JObj []) report) name = Some (JObj entry)"
  shows "run_providers libs (name # names) report = run_providers libs names
    (if map_of entry ''status'' = Some (JStr ''pass'') then setdefault name (JObj []) report
     else put name (JObj (run_one libs name entry)) (setdefault name (JObj []) report))"
  by (cases "map_of entry ''status'' = Some (JStr ''pass'')")
     (simp_all only: run_providers.simps Let_def assms option.case json.case if_True if_False simp_thms)

lemma run_providers_Cons_Inr:
  assumes "run_providers libs (name # names) report = Inr report1"
  obtains entry where "map_of (setdefault name (JObj []) report) name = Some (JObj entry)"
  using assms by (auto simp: Let_def split: option.splits json.splits if_splits)

lemma run_providers_settled:
  assumes "run_providers libs names report = Inr report1" and "distinct names"
  shows "(\<forall>name\<in>set names. map_of report1 name = Some (JObj (settled libs name (entry_at report name))))
    \<and> (\<forall>name. name \<notin> set names \<longrightarrow> map_of report1 name = map_of report name)"
  using assms
proof (induction names arbitrary: report)
  case (Cons name names)
  obtain entry where entry: "map_of (setdefault name (JObj []) report) name = Some (JObj entry)"
    using Cons.prems(1) by (rule run_providers_Cons_Inr)
  define r2 where "r2 = (if map_of entry ''status'' = Some (JStr ''pass'') then setdefault name (JObj []) report
     else put name (JObj (run_one libs name entry)) (setdefault name (JObj []) report))"
  have run: "run_providers libs names r2 = Inr report1"
    using Cons.prems(1) unfolding run_providers_Cons [OF entry] r2_def .
  have at: "entry_at report name = entry"
    using entry by (auto simp: entry_at_def split: if_splits)
  have "map_of r2 name = Some (JObj (settled libs name entry))"
    and other: "n \<noteq> name \<Longrightarrow> map_of r2 n = map_of report n" for n
    using entry unfolding r2_def settled_def by auto
  moreover have "entry_at r2 n = entry_at report n" if "n \<noteq> name" for n
    using other [OF that] by (simp add: entry_at_def)
  ultimately show ?case
    using Cons.IH [OF run] Cons.prems(2) at by (auto; metis)
qed simp

lemma run_providers_runs:
  assumes "distinct names" and "\<And>name v. name \<in> set names \<Longrightarrow> map_of report name = Some v \<Longrightarrow> is_object v"
  shows "\<exists>report1. run_providers libs names report = Inr report1"
  using assms
proof (induction names arbitrary: report)
  case (Cons name names)
  obtain entry where entry: "map_of (setdefault name (JObj []) report) name = Some (JObj entry)"
    using Cons.prems(2) [of name]
    by (cases "map_of report name") (auto simp: is_object_def split: json.splits)
  show ?case
    unfolding run_providers_Cons [OF entry]
    by (rule Cons.IH) (use Cons.prems in \<open>auto split: if_splits\<close>)
qed simp

end
