(* ===== verification/LiveSpikeProps.thy ===== *)
theory LiveSpikeProps
  imports LiveSpikeFacts
begin

text \<open>
  Properties of the live runner: the caps on what reaches a provider, over one run and over
  resumed runs, the bounds of a normalized search, and what an exit status of success means.
\<close>

section \<open>Caps\<close>

definition output_tokens :: "http_request \<Rightarrow> rat option" where
  "output_tokens rq = (case rq_json rq of None \<Rightarrow> None | Some body \<Rightarrow>
     (case item body ''generationConfig'' of Inl e \<Rightarrow> None | Inr config \<Rightarrow>
       (case item config ''maxOutputTokens'' of Inl e \<Rightarrow> None | Inr v \<Rightarrow> number v)))"

definition permitted :: "string \<Rightarrow> http_request \<Rightarrow> bool" where
  "permitted name rq =
     ((name = ''gemini'' \<and> rq_host rq = ''generativelanguage.googleapis.com''
        \<and> (rq_method rq = ''POST'' \<and> endswith (rq_path rq) (''/models/'' @ MODEL @ '':generateContent'')
             \<and> rq_size rq < 20000 \<and> (\<exists>n. output_tokens rq = Some n \<and> 0 < n \<and> n \<le> 2048)
           \<or> rq_method rq = ''GET'' \<and> endswith (rq_path rq) (''/models/'' @ MODEL)))
      \<or> (name = ''tavily'' \<and> rq_host rq = ''api.tavily.com'' \<and> rq_path rq = ''/search''
        \<and> (\<exists>body. rq_json rq = Some body \<and> item body ''query'' = Inr (JStr QUERY))))"

lemma kind_permitted:
  assumes "kind_of name rq \<noteq> None"
  shows "permitted name rq"
proof -
  obtain kl where a: "approve name rq = Inr kl"
    using assms by (auto simp: kind_of_def split: sum.splits)
  have g: "\<exists>n. output_tokens rq = Some n \<and> 0 < n \<and> n \<le> 2048" "rq_size rq < 20000"
    if "approve_generation rq = Inr kl"
    using approve_generation_Inr [OF that] by (auto simp: output_tokens_def)
  from a show ?thesis
    unfolding permitted_def approve_def using g approve_search_Inr
    by (simp split: if_splits) blast
qed

text \<open>C16: Whatever the client library does, through one transport at most six generations, two
  discoveries and one search reach the provider, each of them an approved request: to the
  provider's own host, for the approved model, with a bounded prompt and output, or the one
  fixed search query.  The counts say how many there were.\<close>

theorem live_requests_capped:
  assumes "run_program p (BoundedTransport_init name net, executed) = (r, t, executed')"
  shows "(\<forall>rq\<in>set (sent t). permitted name rq)
    \<and> sent_of name ''generation'' (sent t) \<le> 6 \<and> sent_of name ''discovery'' (sent t) \<le> 2
    \<and> sent_of name ''search'' (sent t) \<le> 1
    \<and> (\<forall>kind\<in>kinds. map_of (counts t) kind = Some (sent_of name kind (sent t)))"
proof -
  let ?t0 = "BoundedTransport_init name net"
  have c0: "counted ?t0" "sent ?t0 = []" "provider ?t0 = name" "\<And>k. k \<in> kinds \<Longrightarrow> count_of ?t0 k = 0"
    by (auto simp: counted_def BoundedTransport_init_def kinds_def count_of_def)
  have "spent ?t0 t" using program_spent [of "(?t0, executed)" p] c0(1) assms by simp
  then have s: "\<forall>rq\<in>set (sent t). kind_of name rq \<noteq> None"
      "\<And>k. k \<in> kinds \<Longrightarrow> map_of (counts t) k = Some (sent_of name k (sent t))
        \<and> (sent_of name k (sent t) = 0 \<or> sent_of name k (sent t) \<le> limit_of k)"
    unfolding spent_def c0(2,3) using c0(4) by auto
  have k: "''generation'' \<in> kinds" "''discovery'' \<in> kinds" "''search'' \<in> kinds"
    by (simp_all add: kinds_def)
  then show ?thesis
    using s(1) kind_permitted s(2) [OF k(1)] s(2) [OF k(2)] s(2) [OF k(3)] s(2)
    by (auto simp: limit_of_def)
qed

definition search_request :: http_request where
  "search_request = \<lparr>rq_method = ''POST'', rq_host = ''api.tavily.com'', rq_path = ''/search'', rq_size = 120,
     rq_json = Some (JObj [(''search_depth'', JStr ''basic''), (''max_results'', JInt 3),
       (''query'', JStr QUERY)])\<rparr>"

definition found :: json where
  "found = JObj [(''results'', JList [JObj [(''title'', JStr ''asyncio''),
     (''url'', JStr ''https://docs.python.org/3/library/asyncio.html''), (''content'', JStr ''text'')]]),
     (''usage'', JObj [(''credits'', JInt 1), (''plan'', JStr ''free'')])]"

definition search_net :: "http_request list \<Rightarrow> http_request \<Rightarrow> live_error + provider_response" where
  "search_net seen rq = Inr \<lparr>rs_status = 200, rs_size = 300, rs_json = Some found\<rparr>"

text \<open>A library that tries every search twice.\<close>

definition eager :: "json program" where
  "eager = Send search_request (\<lambda>first. Send search_request (\<lambda>second.
     case second of Inl e \<Rightarrow> Throw e | Inr response \<Rightarrow> Return found))"

theorem live_requests_capped_witness:
  "\<exists>r t ex. run_program eager (BoundedTransport_init ''tavily'' search_net, []) = (r, t, ex)
     \<and> sent_of ''tavily'' ''search'' (sent t) \<le> 1 \<and> permitted ''tavily'' search_request"
proof -
  obtain r t ex where run: "run_program eager (BoundedTransport_init ''tavily'' search_net, []) = (r, t, ex)"
    by (metis surj_pair)
  have "sent (fst (snd (run_program eager (BoundedTransport_init ''tavily'' search_net, [])))) = [search_request]"
    by code_simp
  then have "sent t = [search_request]" by (simp add: run)
  with run live_requests_capped [OF run] show ?thesis by (intro exI conjI) auto
qed

section \<open>Searches\<close>

lemma normalize_row_Inr:
  assumes "normalize_row valid_netloc row = Inr c"
  shows "\<exists>title content scheme netloc. json_get row ''title'' = Some (JStr title)
    \<and> json_get row ''url'' = Some (JStr (ct_url c)) \<and> json_get row ''content'' = Some (JStr content)
    \<and> strip title \<noteq> [] \<and> strip content \<noteq> [] \<and> ct_title c = take 200 title \<and> ct_content c = take 2000 content
    \<and> urlsplit valid_netloc (ct_url c) = Inr (scheme, netloc) \<and> scheme \<in> {''https'', ''http''}
    \<and> netloc \<noteq> [] \<and> length (ct_url c) \<le> 2000"
  using assms
  by (auto simp: normalize_row_def text_field_def split: if_splits option.splits json.splits)

lemma normalize_rows_Inr: "normalize_rows valid_netloc rows = Inr cs
    \<Longrightarrow> list_all2 (\<lambda>row c. normalize_row valid_netloc row = Inr c) rows cs"
  by (induction rows arbitrary: cs) auto

text \<open>A search that is accepted has one to three results, each from the row of the answer at its
  place: a citation with title, address and text of bounded length, none of them blank before
  cutting, and an address with an HTTP scheme and a network location.\<close>

lemma normalized_search_bounded:
  assumes "normalize_search valid_netloc payload = Inr citations"
  shows "1 \<le> length citations \<and> length citations \<le> 3
    \<and> (\<exists>rows. json_get payload ''results'' = Some (JList rows)
        \<and> list_all2 (\<lambda>row c. \<exists>title content scheme netloc. json_get row ''title'' = Some (JStr title)
            \<and> json_get row ''url'' = Some (JStr (ct_url c)) \<and> json_get row ''content'' = Some (JStr content)
            \<and> strip title \<noteq> [] \<and> strip content \<noteq> []
            \<and> ct_title c = take 200 title \<and> ct_content c = take 2000 content
            \<and> urlsplit valid_netloc (ct_url c) = Inr (scheme, netloc) \<and> scheme \<in> {''https'', ''http''}
            \<and> netloc \<noteq> [] \<and> length (ct_url c) \<le> 2000) rows citations)"
proof -
  obtain rows where r: "json_get payload ''results'' = Some (JList rows)" "1 \<le> length rows" "length rows \<le> 3"
    "normalize_rows valid_netloc rows = Inr citations"
    using assms by (auto simp: normalize_search_def split: if_splits option.splits json.splits)
  note all = normalize_rows_Inr [OF r(4)]
  from list_all2_lengthD [OF all] r list_all2_mono [OF all normalize_row_Inr] show ?thesis
    by simp
qed

lemma normalized_search_bounded_witness:
  "normalize_search (\<lambda>_. True) found = Inr [\<lparr>ct_title = ''asyncio'',
       ct_url = ''https://docs.python.org/3/library/asyncio.html'', ct_content = ''text''\<rparr>]
   \<and> (\<exists>rows. json_get found ''results'' = Some (JList rows) \<and> length rows = 1)"
proof -
  have n: "normalize_search (\<lambda>_. True) found = Inr [\<lparr>ct_title = ''asyncio'',
       ct_url = ''https://docs.python.org/3/library/asyncio.html'', ct_content = ''text''\<rparr>]"
    by code_simp
  with normalized_search_bounded [OF n] show ?thesis
    by (auto dest: list_all2_lengthD)
qed

section \<open>Reports\<close>




definition spike_libraries :: libraries where
  "spike_libraries = \<lparr>network = (\<lambda>_. search_net), google_client = Inl (value_error ''no key''),
     tavily_client = Inr eager, valid_location = (\<lambda>_. True)\<rparr>"



lemma set_dedupe: "set (dedupe xs) = set xs" "distinct (dedupe xs)"
  by (simp_all add: dedupe_def)

text \<open>C35: The runner exits with status 0 only after an explicit confirmation, and only with a
  report in which every confirmed provider has passed.\<close>

theorem live_exit_means_pass:
  assumes "live_spike_main libs versions raw args = (0, Some report)"
    and "set (free_allowance_confirmed args) \<subseteq> {''gemini'', ''tavily''}"
  shows "live args \<and> free_allowance_confirmed args \<noteq> [] \<and> strip (gemini_model_id raw) = MODEL
    \<and> strip (gemini_api_key raw) \<noteq> [] \<and> strip (tavily_api_key raw) \<noteq> []
    \<and> (\<forall>name\<in>set (free_allowance_confirmed args). \<exists>entry. map_of report name = Some (JObj entry)
        \<and> map_of entry ''status'' = Some (JStr ''pass''))"
proof -
  have l: "live args" "free_allowance_confirmed args \<noteq> []"
    using assms(1) by (auto simp: live_spike_main_def split: if_splits)
  have ok: "live_report libs versions raw args = Inr report"
    and f: "\<not> failed_entry report ''gemini''" "\<not> failed_entry report ''tavily''"
    using assms(1) l by (auto simp: live_spike_main_def Let_def failure_def split: if_splits sum.splits)
  then obtain settings vs items where s: "SpikeSettings_init raw = Inr settings" "gemini_model_id settings = MODEL"
    and run: "run libs vs (dedupe (free_allowance_confirmed args)) items = Inr report"
    by (auto simp: live_report_def split: if_splits)
  have raw: "strip (gemini_model_id raw) = MODEL \<and> strip (gemini_api_key raw) \<noteq> [] \<and> strip (tavily_api_key raw) \<noteq> []"
    using s by (auto simp: SpikeSettings_init_def Let_def nonempty_key_def split: if_splits)
  note settled = run_providers_settled [OF run [unfolded run_def] set_dedupe(2)]
  have "\<exists>entry. map_of report name = Some (JObj entry) \<and> map_of entry ''status'' = Some (JStr ''pass'')"
    if n: "name \<in> set (free_allowance_confirmed args)" for name
  proof -
    obtain e where e: "map_of report name = Some (JObj (settled libs name e))"
      using settled n set_dedupe(1) by blast
    have "map_of (settled libs name e) ''status'' \<in> {Some (JStr ''pass''), Some (JStr ''failed'')}"
      using run_one_status [of libs name e] by (auto simp: settled_def)
    moreover have "map_of (settled libs name e) ''status'' \<noteq> Some (JStr ''failed'')"
      using n assms(2) f e by (auto simp: failed_entry_def)
    ultimately show ?thesis using e by blast
  qed
  with l raw show ?thesis by blast
qed

definition spike_args :: arguments where
  "spike_args = \<lparr>live = True, free_allowance_confirmed = [''tavily'', ''tavily''], resume_report = None\<rparr>"

definition spike_settings :: SpikeSettings where
  "spike_settings = \<lparr>gemini_api_key = ''k'', gemini_model_id = '' gemini-3.5-flash-lite'', composio_api_key = [],
     tavily_api_key = ''t'', composio_test_user_id = [], composio_test_connected_account_id = []\<rparr>"

definition patient :: libraries where
  "patient = spike_libraries\<lparr>tavily_client := Inr (Send search_request (\<lambda>_. Return found))\<rparr>"

theorem live_exit_means_pass_witness:
  "\<exists>report entry. live_spike_main patient (Inr []) spike_settings spike_args = (0, Some report)
     \<and> map_of report ''tavily'' = Some (JObj entry) \<and> map_of entry ''status'' = Some (JStr ''pass'')"
proof -
  have "fst (live_spike_main patient (Inr []) spike_settings spike_args) = 0" by code_simp
  moreover have "snd (live_spike_main patient (Inr []) spike_settings spike_args) \<noteq> None" by code_simp
  ultimately obtain report where
    r: "live_spike_main patient (Inr []) spike_settings spike_args = (0, Some report)"
    by (metis not_None_eq prod.collapse)
  have "set (free_allowance_confirmed spike_args) \<subseteq> {''gemini'', ''tavily''}"
    "''tavily'' \<in> set (free_allowance_confirmed spike_args)"
    by (simp_all add: spike_args_def)
  with live_exit_means_pass [OF r] r show ?thesis by blast
qed

text \<open>A report that is itself a failure, as the runner prints one when it cannot start, taints every
  run resumed from it: the exit status is 1 even when every provider passes.\<close>

lemma resumed_failure_sticks:
  assumes "resume_report args = Some (Inr (JObj previous))" and "distinct (map fst previous)"
    and "map_of previous ''status'' = Some (JStr ''failed'')"
    and "set (free_allowance_confirmed args) \<subseteq> {''gemini'', ''tavily''}"
  shows "fst (live_spike_main libs versions raw args) \<noteq> 0"
proof
  assume zero: "fst (live_spike_main libs versions raw args) = 0"
  then obtain report where ok: "live_report libs versions raw args = Inr report"
    and s: "map_of report ''status'' \<noteq> Some (JStr ''failed'')"
    by (auto simp: live_spike_main_def Let_def failure_def split: if_splits sum.splits)
  have "previous \<noteq> []" using assms(3) by auto
  with ok assms(1) obtain vs where run: "run_providers libs (dedupe (free_allowance_confirmed args))
      (update_dict [(''model'', JStr MODEL), (''versions'', JObj vs)] previous) = Inr report"
    by (auto simp: live_report_def run_def previous_items_def json_truth_def split: if_splits)
  have "''status'' \<notin> set (dedupe (free_allowance_confirmed args))"
    using assms(4) set_dedupe(1) by auto
  then have "map_of report ''status'' = map_of previous ''status''"
    using run_providers_settled [OF run set_dedupe(2)] assms(3)
    by (auto simp: map_of_update_dict map_of_rev_distinct [OF assms(2)])
  with s assms(3) show False by simp
qed

end
