(* ===== verification/Workflows.thy ===== *)
theory Workflows
  imports Account
begin

text \<open>
  The resident worker and its probes (\<^verbatim>\<open>backend/workflows/\<close>).  DBOS, the agent and the HTTP server
  are parameters: what a call of theirs returns or raises.  Exactly-once execution of steps after a
  crash is DBOS's and not modelled.
\<close>

section \<open>The probe tables and their connections\<close>

text \<open>\<^verbatim>\<open>recovery_probe.executions\<close> (label, host, process) and \<^verbatim>\<open>recovery_probe.control\<close>
  (id, reached, released).\<close>

record probe_tables =
  executions :: "(string \<times> string \<times> int) list"
  control :: "(string \<times> bool \<times> bool) list"

text \<open>The world of a probe: the monotonic clock, the number of connections tried, the tables.
  Around it, time passes before each connection, the harness changes the tables, and a
  connection or its statement may fail.\<close>

record world =
  monotonic :: rat
  tries :: nat
  tables_now :: probe_tables

record surroundings =
  passes :: "nat \<Rightarrow> rat"
  others :: "nat \<Rightarrow> probe_tables \<Rightarrow> probe_tables"
  refuses :: "nat \<Rightarrow> string option"
  gethostname :: string
  getpid :: int

definition connect_url :: "string \<Rightarrow> string" where
  "connect_url url = replace_first ''postgresql+psycopg:'' ''postgresql:'' url"

text \<open>\<^verbatim>\<open>with connect() as connection: connection.execute(...)\<close>\<close>

definition with_connection ::
    "surroundings \<Rightarrow> (probe_tables \<Rightarrow> 'a \<times> probe_tables) \<Rightarrow> world \<Rightarrow> (string + 'a) \<times> world" where
  "with_connection env f w =
     (let w1 = \<lparr>monotonic = monotonic w + passes env (tries w), tries = tries w + 1,
                tables_now = others env (tries w) (tables_now w)\<rparr>
      in case refuses env (tries w) of
          Some e \<Rightarrow> (Inl e, w1)
        | None \<Rightarrow> (case f (tables_now w1) of (x, ts) \<Rightarrow> (Inr x, w1\<lparr>tables_now := ts\<rparr>)))"

definition insert_execution :: "surroundings \<Rightarrow> string \<Rightarrow> probe_tables \<Rightarrow> unit \<times> probe_tables" where
  "insert_execution env label ts =
     ((), ts\<lparr>executions := executions ts @ [(label, gethostname env, getpid env)]\<rparr>)"

definition set_reached :: "string \<Rightarrow> probe_tables \<Rightarrow> unit \<times> probe_tables" where
  "set_reached label ts = ((), ts\<lparr>control :=
     map (\<lambda>(i, reached, released). if i = label then (i, True, released) else (i, reached, released)) (control ts)\<rparr>)"

definition select_released :: "string \<Rightarrow> probe_tables \<Rightarrow> bool option \<times> probe_tables" where
  "select_released label ts = (map_option snd (map_of (control ts) label), ts)"

section \<open>Waiting for the release\<close>

text \<open>\<^verbatim>\<open>event.wait(0.1)\<close> on an event nobody sets\<close>

definition wait_tenth :: "world \<Rightarrow> world" where
  "wait_tenth w = w\<lparr>monotonic := monotonic w + 1 / 10\<rparr>"

text \<open>The polling loop: \<open>None\<close> is a loop that never returns.\<close>

partial_function (option) poll_released ::
    "surroundings \<Rightarrow> string \<Rightarrow> string \<Rightarrow> rat \<Rightarrow> world \<Rightarrow> ((string + unit) \<times> world) option" where
  "poll_released env label expired deadline w =
     (if \<not> monotonic w < deadline then Some (Inl expired, w)
      else case with_connection env (select_released label) w of
          (Inl e, w1) \<Rightarrow> Some (Inl e, w1)
        | (Inr row, w1) \<Rightarrow>
            if row = Some True then Some (Inr (), w1)
            else poll_released env label expired deadline (wait_tenth w1))"

definition unfinished_boundary :: "surroundings \<Rightarrow> string \<Rightarrow> world \<Rightarrow> ((string + unit) \<times> world) option" where
  "unfinished_boundary env probe_id w =
     (let deadline = monotonic w + 90
      in case with_connection env (set_reached probe_id) w of
          (Inl e, w1) \<Rightarrow> Some (Inl e, w1)
        | (Inr _, w1) \<Rightarrow> poll_released env probe_id ''Recovery probe release deadline exceeded'' deadline w1)"

definition completed_step :: "surroundings \<Rightarrow> string \<Rightarrow> world \<Rightarrow> (string + unit) \<times> world" where
  "completed_step env probe_id = with_connection env (insert_execution env probe_id)"

definition recovery_workflow :: "surroundings \<Rightarrow> string \<Rightarrow> world \<Rightarrow> ((string + string) \<times> world) option" where
  "recovery_workflow env probe_id w =
     (case completed_step env probe_id w of
        (Inl e, w1) \<Rightarrow> Some (Inl e, w1)
      | (Inr _, w1) \<Rightarrow> map_option (\<lambda>(r, w2). (map_sum (\<lambda>e. e) (\<lambda>_. ''recovered'') r, w2))
          (unfinished_boundary env probe_id w1))"

section \<open>The adapter probe\<close>

datatype message_part = ToolReturnPart | OtherPart

datatype model_response = ToolCall string int int | TextPart string

definition count_execution :: "surroundings \<Rightarrow> string \<Rightarrow> world \<Rightarrow> (string + unit) \<times> world" where
  "count_execution env label = with_connection env (insert_execution env label)"

definition respond ::
    "surroundings \<Rightarrow> string \<Rightarrow> message_part list list \<Rightarrow> world
      \<Rightarrow> ((string + model_response) \<times> world) option" where
  "respond env sentinel messages w =
     (if sentinel = [] then Some (Inl ''Missing synthetic credential'', w)
      else if \<not> (\<exists>message\<in>set messages. \<exists>part\<in>set message. part = ToolReturnPart)
      then Some (case count_execution env ''adapter:model-first'' w of
          (Inl e, w1) \<Rightarrow> (Inl e, w1) | (Inr _, w1) \<Rightarrow> (Inr (ToolCall ''adapter_add'' 17 25), w1))
      else case count_execution env ''adapter:model-final'' w of
          (Inl e, w1) \<Rightarrow> Some (Inl e, w1)
        | (Inr _, w1) \<Rightarrow>
           (case with_connection env (set_reached ''adapter'') w1 of
              (Inl e, w2) \<Rightarrow> Some (Inl e, w2)
            | (Inr _, w2) \<Rightarrow> map_option (\<lambda>(r, w3). (map_sum (\<lambda>e. e) (\<lambda>_. TextPart ''42'') r, w3))
                (poll_released env ''adapter'' ''Adapter probe boundary deadline'' (monotonic w2 + 90) w2)))"

definition adapter_add :: "surroundings \<Rightarrow> int \<Rightarrow> int \<Rightarrow> world \<Rightarrow> (string + int) \<times> world" where
  "adapter_add env a b w = (case count_execution env ''adapter:tool'' w of
     (Inl e, w1) \<Rightarrow> (Inl e, w1) | (Inr _, w1) \<Rightarrow> (Inr (a + b), w1))"

text \<open>The agent is the library's: its run is an operation on the world.\<close>

definition adapter_workflow ::
    "(string \<Rightarrow> world \<Rightarrow> (string + string) \<times> world) \<Rightarrow> world \<Rightarrow> (string + string) \<times> world" where
  "adapter_workflow agent_run = bind_state
     (agent_run ''Add 17 and 25 using adapter_add; return the result.'') (\<lambda>result.
     if result \<noteq> ''42'' then raise_state ''Wrong deterministic result'' else return_state result)"

section \<open>The worker\<close>

text \<open>What the worker does to the outside, in order; any of these may raise.\<close>

datatype worker_event =
    ConfigureLogging string
  | ImportProbes
  | Construct string string
  | InstallSignals
  | Launch
  | SmokeWorkflow
  | PrintDone
  | StartReadiness string
  | WaitStopped
  | SetStopped
  | Shutdown
  | ServerClose
  | Destroy

text \<open>\<open>raising\<close> says which events raise; the trace records every event begun.\<close>

definition perform ::
    "(worker_event \<Rightarrow> string option) \<Rightarrow> worker_event \<Rightarrow> worker_event list \<Rightarrow> (string + unit) \<times> worker_event list" where
  "perform raising ev trace =
     ((case raising ev of Some e \<Rightarrow> Inl e | None \<Rightarrow> Inr ()), trace @ [ev])"

definition smoke_step :: "string \<Rightarrow> string" where
  "smoke_step task_id = ''ok''"

definition smoke_workflow :: "string \<Rightarrow> string" where
  "smoke_workflow task_id = smoke_step task_id"

text \<open>The body of the \<^verbatim>\<open>try\<close>, with whether a server has been started when it ends; \<open>result\<close> is what the
  durable smoke workflow returned.\<close>

definition worker_body ::
    "(worker_event \<Rightarrow> string option) \<Rightarrow> bool \<Rightarrow> string \<Rightarrow> string \<Rightarrow> worker_event list
      \<Rightarrow> (string + unit) \<times> worker_event list" where
  "worker_body raising smoke result url =
     (if smoke
      then bind_state (perform raising SmokeWorkflow) (\<lambda>_.
           if result \<noteq> ''ok'' then raise_state ''Smoke workflow failed''
           else perform raising PrintDone)
      else bind_state (perform raising (StartReadiness (connect_url url))) (\<lambda>_.
           perform raising WaitStopped))"

definition worker_cleanup ::
    "(worker_event \<Rightarrow> string option) \<Rightarrow> bool \<Rightarrow> worker_event list \<Rightarrow> (string + unit) \<times> worker_event list" where
  "worker_cleanup raising started =
     bind_state (perform raising SetStopped) (\<lambda>_.
     bind_state (if started then bind_state (perform raising Shutdown) (\<lambda>_. perform raising ServerClose)
                 else return_state ()) (\<lambda>_.
     perform raising Destroy))"

definition worker_start ::
    "(worker_event \<Rightarrow> string option) \<Rightarrow> bool \<Rightarrow> Settings \<Rightarrow> string \<Rightarrow> string
      \<Rightarrow> worker_event list \<Rightarrow> (string + unit) \<times> worker_event list" where
  "worker_start raising smoke settings url fresh =
     bind_state (perform raising (ConfigureLogging (log_level settings))) (\<lambda>_.
     bind_state (if recovery_probe_enabled settings then perform raising ImportProbes else return_state ()) (\<lambda>_.
     bind_state (perform raising (Construct (if smoke then ''vespers-smoke-'' @ fresh else ''vespers-single-worker'') url)) (\<lambda>_.
     bind_state (perform raising InstallSignals) (\<lambda>_.
     perform raising Launch))))"

definition worker_main ::
    "(worker_event \<Rightarrow> string option) \<Rightarrow> bool \<Rightarrow> Settings \<Rightarrow> string \<Rightarrow> string \<Rightarrow> string
      \<Rightarrow> worker_event list \<Rightarrow> (string + unit) \<times> worker_event list" where
  "worker_main raising smoke settings result url fresh =
     bind_state (worker_start raising smoke settings url fresh) (\<lambda>_ trace.
       case worker_body raising smoke result url trace of
         (r, trace1) \<Rightarrow>
           (case worker_cleanup raising (\<not> smoke \<and> raising (StartReadiness (connect_url url)) = None) trace1 of
              (Inl e, trace2) \<Rightarrow> (Inl e, trace2)
            | (Inr _, trace2) \<Rightarrow> (r, trace2)))"

section \<open>Readiness\<close>

text \<open>The worker's loopback handler: \<open>probe\<close> is what connecting and \<^verbatim>\<open>SELECT 1\<close> do.\<close>

definition do_GET :: "bool \<Rightarrow> string + unit \<Rightarrow> int" where
  "do_GET stopping probe = (let healthy = \<not> stopping;
     healthy = (if healthy then (case probe of Inl e \<Rightarrow> False | Inr _ \<Rightarrow> healthy) else healthy)
     in if healthy then 200 else 503)"

definition readiness_main :: "string + int \<Rightarrow> int" where
  "readiness_main response =
     (let healthy = (case response of Inl e \<Rightarrow> False | Inr status \<Rightarrow> status = 200)
      in if healthy then 0 else 1)"

end
