(* ===== verification/Engine.thy ===== *)
theory Engine
  imports Config
begin

text \<open>
  The engine and the sessions of the runtime role, \<^verbatim>\<open>backend/storage/session.py\<close>: the options
  SQLAlchemy is called with.  The engine connects to the application's URL; the URL of the
  migrations is in settings of its own.
\<close>

record engine =
  engine_url :: PostgresDsn
  pool_pre_ping :: bool

definition create_engine :: "Settings \<Rightarrow> engine" where
  "create_engine settings = \<lparr>engine_url = database_url settings, pool_pre_ping = True\<rparr>"

record session_factory =
  bound_engine :: engine
  expire_on_commit :: bool
  autoflush :: bool

definition create_sessionmaker :: "engine \<Rightarrow> session_factory" where
  "create_sessionmaker e = \<lparr>bound_engine = e, expire_on_commit = False, autoflush = False\<rparr>"

end
