(* ===== verification/Application.thy ===== *)
theory Application
  imports Account Engine
begin

text \<open>
  The application: the formatter and the configuration of the loggers (\<^verbatim>\<open>backend/logging.py\<close>), the
  client of the directory (\<^verbatim>\<open>backend/auth/workos.py\<close>), and the factory with its lifespan, request
  log and health routes (\<^verbatim>\<open>backend/api/main.py\<close>).  The logger tree is the standard library's, as far
  as names, levels and propagation go.
\<close>

section \<open>Logging\<close>

text \<open>A log record: level, message, and the attributes that \<^verbatim>\<open>extra\<close> put on it.  The line is the
  payload rendered by \<^verbatim>\<open>json.dumps\<close>.\<close>

record log_record =
  levelname :: string
  log_message :: string
  attributes :: "(string \<times> json) list"

definition allowlisted_fields :: "string list" where
  "allowlisted_fields = [''request_id'', ''task_id'', ''method'', ''path'', ''status_code'', ''duration_ms'', ''reason'']"

definition format_record :: "string \<Rightarrow> log_record \<Rightarrow> (string \<times> json) list" where
  "format_record timestamp rec =
     foldl (\<lambda>payload key. case map_of (attributes rec) key of
              None \<Rightarrow> payload | Some v \<Rightarrow> put key v payload)
       [(''timestamp'', JStr timestamp), (''level'', JStr (levelname rec)), (''event'', JStr (log_message rec))]
       allowlisted_fields"

record incoming =
  in_method :: string
  in_path :: string
  in_query :: string
  in_headers :: "(string \<times> string) list"

text \<open>The middleware: the status of the response, the header it adds, and the record it logs; an
  exception of the handler leaves before anything is logged.\<close>

definition request_log ::
    "string \<Rightarrow> json \<Rightarrow> (incoming \<Rightarrow> exn + int \<times> (string \<times> string) list) \<Rightarrow> incoming
      \<Rightarrow> (exn + int \<times> (string \<times> string) list) \<times> log_record list" where
  "request_log request_id duration_ms call_next rq =
     (case call_next rq of
        Inl e \<Rightarrow> (Inl e, [])
      | Inr (status, headers) \<Rightarrow> (Inr (status, put ''X-Request-ID'' request_id headers),
          [\<lparr>levelname = ''INFO'', log_message = ''http_request'',
             attributes = [(''request_id'', JStr request_id), (''method'', JStr (in_method rq)),
               (''path'', JStr (in_path rq)), (''status_code'', JInt status), (''duration_ms'', duration_ms)]\<rparr>]))"

text \<open>\<^verbatim>\<open>logger.info("auth_token_rejected", extra={"reason": ...})\<close> of the account routes\<close>

definition rejection_record :: "string \<Rightarrow> log_record" where
  "rejection_record label = \<lparr>levelname = ''INFO'', log_message = ''auth_token_rejected'',
     attributes = [(''reason'', JStr label)]\<rparr>"

section \<open>The loggers\<close>

text \<open>The levels of the standard library, ordered by their numbers.\<close>

datatype log_level = Notset | Debug | Info | Warning | Error | Critical

primrec levelno :: "log_level \<Rightarrow> nat" where
  "levelno Notset = 0"
| "levelno Debug = 10"
| "levelno Info = 20"
| "levelno Warning = 30"
| "levelno Error = 40"
| "levelno Critical = 50"

lemma levelno_inj: "levelno a = levelno b \<Longrightarrow> a = b"
  by (cases a; cases b) simp_all

instantiation log_level :: linorder
begin

definition less_eq_log_level :: "log_level \<Rightarrow> log_level \<Rightarrow> bool" where
  "less_eq_log_level a b = (levelno a \<le> levelno b)"

definition less_log_level :: "log_level \<Rightarrow> log_level \<Rightarrow> bool" where
  "less_log_level a b = (levelno a < levelno b)"

instance
  by standard (auto simp: less_eq_log_level_def less_log_level_def intro: levelno_inj)

end

definition level_of_name :: "string \<Rightarrow> log_level option" where
  "level_of_name n = map_of [(''NOTSET'', Notset), (''DEBUG'', Debug), (''INFO'', Info),
     (''WARNING'', Warning), (''ERROR'', Error), (''CRITICAL'', Critical)] n"

text \<open>A logger has handlers, each with its formatter, a level of its own or \<open>Notset\<close>, and may pass
  records on to its parent.  A logger's name is the list of its parts, the last one first, so
  that the parent is the tail and the root is \<open>[]\<close>.\<close>

datatype formatter = JsonFormatter | OtherFormatter string

record logger =
  handlers :: "formatter list"
  level :: log_level
  propagate :: bool

type_synonym loggers = "string list \<Rightarrow> logger"

definition new_logger :: logger where
  "new_logger = \<lparr>handlers = [], level = Notset, propagate = True\<rparr>"

fun effective_level :: "loggers \<Rightarrow> string list \<Rightarrow> log_level" where
  "effective_level ls [] = level (ls [])"
| "effective_level ls (part # parent) =
     (if level (ls (part # parent)) \<noteq> Notset then level (ls (part # parent)) else effective_level ls parent)"

fun reached_handlers :: "loggers \<Rightarrow> string list \<Rightarrow> formatter list" where
  "reached_handlers ls [] = handlers (ls [])"
| "reached_handlers ls (part # parent) = handlers (ls (part # parent)) @
     (if propagate (ls (part # parent)) then reached_handlers ls parent else [])"

text \<open>The lines a call writes: by the handlers on the way up, or by the handler of last resort.\<close>

definition log_lines :: "loggers \<Rightarrow> string list \<Rightarrow> log_level \<Rightarrow> log_record \<Rightarrow> (formatter \<times> log_record) list" where
  "log_lines ls name lvl rec =
     (if lvl < effective_level ls name then []
      else case reached_handlers ls name of
          [] \<Rightarrow> if lvl < Warning then [] else [(OtherFormatter ''last resort'', rec)]
        | hs \<Rightarrow> map (\<lambda>h. (h, rec)) hs)"

text \<open>\<^verbatim>\<open>setLevel\<close> raises on an unknown name, when the handler is already there.\<close>

definition configure_logging :: "string \<Rightarrow> loggers \<Rightarrow> (string + unit) \<times> loggers" where
  "configure_logging name ls =
     (let vespers = (ls [''vespers''])\<lparr>handlers := [JsonFormatter]\<rparr>
      in case level_of_name name of
           None \<Rightarrow> (Inl ''ValueError'', ls([''vespers''] := vespers))
         | Some l \<Rightarrow> (Inr (), ls([''vespers''] := vespers\<lparr>level := l, propagate := False\<rparr>)))"

section \<open>The client of the directory\<close>

text \<open>
  \<^verbatim>\<open>WorkOSDirectory\<close> opens an HTTP client of its own on first use, unless it was given one, and
  \<^verbatim>\<open>aclose\<close> closes only its own.  Clients are handles: those opened so far, and those still
  open.  A closed client raises on use; an open one answers as the network does.
\<close>

record clients =
  opened :: nat
  open_clients :: "nat list"

record WorkOSDirectory =
  dir_client :: "nat option"
  owns_client :: bool

definition WorkOSDirectory_init :: "nat option \<Rightarrow> WorkOSDirectory" where
  "WorkOSDirectory_init client = \<lparr>dir_client = client, owns_client = (client = None)\<rparr>"

definition new_client :: "clients \<Rightarrow> nat \<times> clients" where
  "new_client c = (opened c, c\<lparr>opened := opened c + 1, open_clients := open_clients c @ [opened c]\<rparr>)"

definition close_client :: "nat \<Rightarrow> clients \<Rightarrow> clients" where
  "close_client h c = c\<lparr>open_clients := filter (\<lambda>x. x \<noteq> h) (open_clients c)\<rparr>"

definition http :: "WorkOSDirectory \<times> clients \<Rightarrow> nat \<times> WorkOSDirectory \<times> clients" where
  "http = (\<lambda>(dir, c). case dir_client dir of
       None \<Rightarrow> let (h, c') = new_client c in (h, dir\<lparr>dir_client := Some h\<rparr>, c')
     | Some h \<Rightarrow> (h, dir, c))"

definition aclose :: "WorkOSDirectory \<times> clients \<Rightarrow> WorkOSDirectory \<times> clients" where
  "aclose = (\<lambda>(dir, c). case dir_client dir of
       None \<Rightarrow> (dir, c)
     | Some h \<Rightarrow> if owns_client dir then (dir\<lparr>dir_client := None\<rparr>, close_client h c) else (dir, c))"

text \<open>\<^verbatim>\<open>fetch_profile\<close> with the handle it uses: \<open>Inl\<close> is the \<^verbatim>\<open>RuntimeError\<close> of a closed client.\<close>

definition directory_fetch ::
    "Settings \<Rightarrow> http_client \<Rightarrow> string \<Rightarrow> WorkOSDirectory \<times> clients
      \<Rightarrow> (string + (auth_error + VerifiedProfile)) \<times> WorkOSDirectory \<times> clients" where
  "directory_fetch settings network subject s =
     (if \<not> workos_configured settings \<or> workos_api_key settings = None
      then (Inr (Inl (ProfileUnavailable ''workos-not-configured'')), s)
      else let (h, dir, c) = http s
           in (if h \<in> set (open_clients c) then Inr (fetch_profile settings network subject)
               else Inl ''RuntimeError'', dir, c))"

section \<open>The application\<close>

definition lifespan_state :: "Settings \<Rightarrow> 'key pyjwt \<Rightarrow> http_client \<Rightarrow> app_state" where
  "lifespan_state config lib client =
     (if workos_configured config
      then \<lparr>token_validator = Some (verify lib config), workos_directory = Some (fetch_profile config client),
             auth_limiter = FixedWindowLimiter_init (auth_rate_limit_per_minute config) 60 4096\<rparr>
      else \<lparr>token_validator = None, workos_directory = None,
             auth_limiter = FixedWindowLimiter_init (auth_rate_limit_per_minute config) 60 4096\<rparr>)"

section \<open>The lifespan\<close>

datatype app_event = ConfiguredLogging string | EngineCreated engine | EngineDisposed engine

record process =
  app :: app_state
  app_engine :: engine
  sessions :: session_factory
  directory :: "WorkOSDirectory option"
  clients_of :: clients
  loggers_of :: loggers
  app_events :: "app_event list"

text \<open>Startup up to \<^verbatim>\<open>yield\<close>, and what runs after it.\<close>

definition lifespan_start ::
    "Settings \<Rightarrow> 'key pyjwt \<Rightarrow> http_client \<Rightarrow> loggers \<Rightarrow> clients \<Rightarrow> string + process" where
  "lifespan_start config lib network ls c =
     (case configure_logging (log_level config) ls of
        (Inl e, ls') \<Rightarrow> Inl e
      | (Inr _, ls') \<Rightarrow>
          let e = \<lparr>engine_url = database_url config, pool_pre_ping = True\<rparr>
          in Inr \<lparr>app = lifespan_state config lib network, app_engine = e, sessions = create_sessionmaker e,
          directory = (if workos_configured config then Some (WorkOSDirectory_init None) else None),
          clients_of = c, loggers_of = ls', app_events = [ConfiguredLogging (log_level config), EngineCreated e]\<rparr>)"

definition lifespan_stop :: "process \<Rightarrow> process" where
  "lifespan_stop p =
     (case directory p of
        None \<Rightarrow> p\<lparr>app_events := app_events p @ [EngineDisposed (app_engine p)]\<rparr>
      | Some dir \<Rightarrow> let (dir', c) = aclose (dir, clients_of p)
          in p\<lparr>directory := Some dir', clients_of := c, app_events := app_events p @ [EngineDisposed (app_engine p)]\<rparr>)"

text \<open>The lookups the requests of a running application make, one after the other.\<close>

fun lookups :: "Settings \<Rightarrow> http_client \<Rightarrow> string list \<Rightarrow> process
      \<Rightarrow> (string + (auth_error + VerifiedProfile)) list \<times> process" where
  "lookups settings network [] p = ([], p)"
| "lookups settings network (subject # subjects) p =
     (case directory p of
        None \<Rightarrow> lookups settings network subjects p
      | Some dir \<Rightarrow>
          let (r, dir', c) = directory_fetch settings network subject (dir, clients_of p);
              (rs, p') = lookups settings network subjects (p\<lparr>directory := Some dir', clients_of := c\<rparr>)
          in (r # rs, p'))"

section \<open>Health routes\<close>

definition health_live :: "(string \<times> string) list" where
  "health_live = [(''status'', ''ok'')]"

text \<open>\<open>probe\<close> is the connection to the engine with \<^verbatim>\<open>SELECT 1\<close>; an error of the database or of the
  operating system is an answer, any other exception propagates.\<close>

datatype probe_error = SQLAlchemyError | OSError | OtherError string

definition ready :: "probe_error + unit \<Rightarrow> string + int \<times> string" where
  "ready probe = (case probe of
       Inr _ \<Rightarrow> Inr (200, ''ready'')
     | Inl SQLAlchemyError \<Rightarrow> Inr (503, ''unavailable'')
     | Inl OSError \<Rightarrow> Inr (503, ''unavailable'')
     | Inl (OtherError e) \<Rightarrow> Inl e)"

end
