(* ===== verification/ApplicationProps.thy ===== *)
theory ApplicationProps
  imports Application AccountProps
begin

text \<open>
  Properties of the application: a log line carries allowlisted fields only, the program's records
  are written once and by the formatter alone, the directory owns at most one client and
  gives it back, and an application without WorkOS refuses protected routes.
\<close>

section \<open>Logging\<close>

lemma format_keys:
  "set (map fst (foldl (\<lambda>payload key. case f key of None \<Rightarrow> payload | Some v \<Rightarrow> put key v payload) d keys))
     = set (map fst d) \<union> {k \<in> set keys. f k \<noteq> None}"
  by (induction keys arbitrary: d) (auto simp: set_keys_put split: option.split)

lemma format_lookup:
  "map_of (foldl (\<lambda>payload key. case f key of None \<Rightarrow> payload | Some v \<Rightarrow> put key v payload) d keys) k
     = (if k \<in> set keys \<and> f k \<noteq> None then f k else map_of d k)"
  by (induction keys arbitrary: d) (auto split: option.split)

text \<open>C36: Whatever attributes a record carries, its line has only the timestamp, level and event and the
  seven allowlisted fields, each with the value the record gives it; and the line of a request
  depends on its method and path only - not on its query string or headers.\<close>

theorem log_line_allowlisted:
  shows "set (map fst (format_record timestamp rec))
      = {''timestamp'', ''level'', ''event''} \<union> {k \<in> set allowlisted_fields. map_of (attributes rec) k \<noteq> None}
    \<and> (\<forall>k. k \<in> set allowlisted_fields \<and> map_of (attributes rec) k \<noteq> None
          \<longrightarrow> map_of (format_record timestamp rec) k = map_of (attributes rec) k)
    \<and> map_of (format_record timestamp rec) ''event'' = Some (JStr (log_message rec))
    \<and> (in_method a = in_method b \<and> in_path a = in_path b \<and> map_sum id fst (call a) = map_sum id fst (call b)
        \<longrightarrow> map (format_record timestamp) (snd (request_log request_id ms call a))
          = map (format_record timestamp) (snd (request_log request_id ms call b)))"
proof (intro conjI)
  show "set (map fst (format_record timestamp rec))
      = {''timestamp'', ''level'', ''event''} \<union> {k \<in> set allowlisted_fields. map_of (attributes rec) k \<noteq> None}"
    unfolding format_record_def format_keys by simp
  show "\<forall>k. k \<in> set allowlisted_fields \<and> map_of (attributes rec) k \<noteq> None
      \<longrightarrow> map_of (format_record timestamp rec) k = map_of (attributes rec) k"
    unfolding format_record_def format_lookup by simp
  show "map_of (format_record timestamp rec) ''event'' = Some (JStr (log_message rec))"
    unfolding format_record_def format_lookup by (simp add: allowlisted_fields_def)
  show "in_method a = in_method b \<and> in_path a = in_path b \<and> map_sum id fst (call a) = map_sum id fst (call b)
      \<longrightarrow> map (format_record timestamp) (snd (request_log request_id ms call a))
        = map (format_record timestamp) (snd (request_log request_id ms call b))"
    by (cases "call a"; cases "call b") (auto simp: request_log_def)
qed

definition asked :: "string \<Rightarrow> incoming" where
  "asked q = \<lparr>in_method = ''GET'', in_path = ''/api/account'', in_query = q, in_headers = []\<rparr>"

theorem log_line_allowlisted_witness:
  "map (format_record ''t'') (snd (request_log ''r'' JNull (\<lambda>_. Inr (200, [])) (asked ''tenant_id=1'')))
     = map (format_record ''t'') (snd (request_log ''r'' JNull (\<lambda>_. Inr (200, [])) (asked [])))
   \<and> map_of (format_record ''t'' (rejection_record ''expired'')) ''reason'' = Some (JStr ''expired'')"
proof -
  have "''reason'' \<in> set allowlisted_fields \<and> map_of (attributes (rejection_record ''expired'')) ''reason'' \<noteq> None"
    by (simp add: allowlisted_fields_def rejection_record_def)
  moreover have "map_of (attributes (rejection_record ''expired'')) ''reason'' = Some (JStr ''expired'')"
    by (simp add: rejection_record_def)
  ultimately show ?thesis
    using log_line_allowlisted [of "''t''" "rejection_record ''expired''" "asked ''tenant_id=1''" "asked []"
        "\<lambda>_. Inr (200, [])" "''r''" JNull]
    by (simp add: asked_def)
qed

section \<open>The application\<close>

text \<open>An application started without WorkOS answers protected routes with 503; started with it, its
  validator and directory are those of the configuration.\<close>

lemma lifespan_unconfigured:
  assumes "\<not> workos_configured config"
  shows "require_subject (lifespan_state config lib client) now authorization
    = (Inl not_configured, lifespan_state config lib client)"
  using assms by (simp add: lifespan_state_def require_subject_def validator_of_def)

lemma lifespan_configured:
  assumes "workos_configured config"
  shows "token_validator (lifespan_state config lib client) = Some (verify lib config)
    \<and> workos_directory (lifespan_state config lib client) = Some (fetch_profile config client)"
  using assms by (simp add: lifespan_state_def)

lemma ready_exact: "ready outcome = Inr (200, body) \<longleftrightarrow> outcome = Inr () \<and> body = ''ready''"
  by (cases outcome) (auto simp: ready_def split: probe_error.splits)

section \<open>What reaches the log\<close>

lemma levels [simp]: "Notset \<le> l" "l < Notset \<longleftrightarrow> False"
  by (cases l; simp add: less_eq_log_level_def less_log_level_def)+





section \<open>The client of the directory\<close>

datatype directory_op = Fetch string | Close

fun run_directory ::
    "Settings \<Rightarrow> http_client \<Rightarrow> directory_op list \<Rightarrow> WorkOSDirectory \<times> clients
      \<Rightarrow> (string + (auth_error + VerifiedProfile)) list \<times> WorkOSDirectory \<times> clients" where
  "run_directory settings network [] s = ([], s)"
| "run_directory settings network (Close # ops) s = run_directory settings network ops (aclose s)"
| "run_directory settings network (Fetch subject # ops) s =
     (let (r, s1) = directory_fetch settings network subject s; (rs, s2) = run_directory settings network ops s1
      in (r # rs, s2))"

fun fetched :: "directory_op list \<Rightarrow> string list" where
  "fetched [] = []"
| "fetched (Close # ops) = fetched ops"
| "fetched (Fetch subject # ops) = subject # fetched ops"

definition numbered :: "clients \<Rightarrow> bool" where
  "numbered c = (\<forall>h\<in>set (open_clients c). h < opened c)"

text \<open>The client in use is the given one, none, or the one opened last and added to those open.\<close>

definition directory_inv :: "nat option \<Rightarrow> clients \<Rightarrow> WorkOSDirectory \<times> clients \<Rightarrow> bool" where
  "directory_inv client c s = (numbered (snd s) \<and> opened c \<le> opened (snd s)
     \<and> owns_client (fst s) = (client = None)
     \<and> (client \<noteq> None \<longrightarrow> dir_client (fst s) = client \<and> snd s = c)
     \<and> (client = None \<longrightarrow> open_clients (snd s) = open_clients c @ (case dir_client (fst s) of None \<Rightarrow> [] | Some h \<Rightarrow> [h])
          \<and> (\<forall>h. dir_client (fst s) = Some h \<longrightarrow> opened c \<le> h)))"

lemma directory_inv_init: "numbered c \<Longrightarrow> directory_inv client c (WorkOSDirectory_init client, c)"
  by (simp add: directory_inv_def WorkOSDirectory_init_def)

lemma directory_inv_aclose:
  assumes "directory_inv client c s" and "numbered c"
  shows "directory_inv client c (aclose s)" and "open_clients (snd (aclose s)) = open_clients c"
proof -
  have fresh: "filter (\<lambda>x. x \<noteq> h) (open_clients c) = open_clients c" if "opened c \<le> h" for h
    using assms(2) that by (auto simp: numbered_def filter_id_conv)
  obtain dir c1 where s: "s = (dir, c1)" by (cases s)
  have "directory_inv client c (aclose s) \<and> open_clients (snd (aclose s)) = open_clients c"
  proof (cases "client = None \<and> dir_client dir \<noteq> None")
    case True
    then obtain h where "client = None" "dir_client dir = Some h" by blast
    moreover from this have "aclose s = (dir\<lparr>dir_client := None\<rparr>, close_client h c1)"
      using assms(1) by (simp add: s aclose_def directory_inv_def)
    ultimately show ?thesis
      using assms(1) fresh by (simp add: s directory_inv_def close_client_def numbered_def)
  next
    case False
    then have "aclose s = s"
      using assms(1) by (cases "dir_client dir"; cases client) (simp_all add: s aclose_def directory_inv_def)
    with False assms(1) show ?thesis by (auto simp: s directory_inv_def)
  qed
  then show "directory_inv client c (aclose s)" and "open_clients (snd (aclose s)) = open_clients c" by simp_all
qed

lemma directory_inv_fetch:
  assumes "directory_inv client c s" and "\<forall>h. client = Some h \<longrightarrow> h \<in> set (open_clients c)"
  shows "fst (directory_fetch settings network subject s) = Inr (fetch_profile settings network subject)"
    and "directory_inv client c (snd (directory_fetch settings network subject s))"
  using assms
  by (cases s; auto simp: directory_fetch_def http_def new_client_def fetch_profile_def directory_inv_def
      numbered_def Let_def less_Suc_eq split: option.splits)+

lemma run_directory_inv:
  assumes "directory_inv client c s" and "numbered c" and "\<forall>h. client = Some h \<longrightarrow> h \<in> set (open_clients c)"
  shows "fst (run_directory settings network ops s) = map (\<lambda>x. Inr (fetch_profile settings network x)) (fetched ops)
    \<and> directory_inv client c (snd (run_directory settings network ops s))"
  using assms(1)
proof (induction ops arbitrary: s)
  case (Cons op ops)
  show ?case
  proof (cases op)
    case (Fetch subject)
    note f = directory_inv_fetch [OF Cons.prems assms(3), of settings network subject]
    from Cons.IH [OF f(2)] f(1) show ?thesis by (simp add: Fetch case_prod_unfold Let_def)
  next
    case Close
    with Cons.IH [OF directory_inv_aclose(1) [OF Cons.prems assms(2)]] show ?thesis by simp
  qed
qed simp



text \<open>The lifespan: the process holds what it held before; its sessions are those the access report opens on
  the same settings; and the one engine it creates is disposed of.\<close>

lemma lookups_run:
  "directory p = Some dir \<Longrightarrow> lookups settings network subjects p =
     (let (rs, dir', c) = run_directory settings network (map Fetch subjects) (dir, clients_of p)
      in (rs, p\<lparr>directory := Some dir', clients_of := c\<rparr>))"
  by (induction subjects arbitrary: p dir) (simp_all add: case_prod_unfold Let_def)

lemma fetched_map [simp]: "fetched (map Fetch subjects) = subjects"
  by (induction subjects) simp_all

lemma lifespan_releases:
  assumes "numbered c" and "lifespan_start config lib network ls c = Inr p"
    and "lookups config network subjects p = (rs, p')"
  shows "open_clients (clients_of (lifespan_stop p')) = open_clients c
    \<and> sessions p' = create_sessionmaker (create_engine config)
    \<and> app_events (lifespan_stop p') = [ConfiguredLogging (log_level config), EngineCreated (create_engine config),
        EngineDisposed (create_engine config)]
    \<and> (workos_configured config \<longrightarrow> rs = map (\<lambda>x. Inr (fetch_profile config network x)) subjects)"
proof (cases "workos_configured config")
  case False
  have none: "lookups config network subjects q = ([], q)" if "directory q = None" for q
    using that by (induction subjects) simp_all
  from False assms(2) have "directory p = None" "clients_of p = c"
    "app_events p = [ConfiguredLogging (log_level config), EngineCreated (create_engine config)]"
    "app_engine p = create_engine config" "sessions p = create_sessionmaker (create_engine config)"
    by (auto simp: lifespan_start_def Let_def create_engine_def split: prod.splits sum.splits)
  with False assms(3) none show ?thesis by (simp add: lifespan_stop_def)
next
  case True
  with assms(2) have p: "directory p = Some (WorkOSDirectory_init None)" "clients_of p = c"
    "app_events p = [ConfiguredLogging (log_level config), EngineCreated (create_engine config)]"
    "app_engine p = create_engine config" "sessions p = create_sessionmaker (create_engine config)"
    by (auto simp: lifespan_start_def Let_def create_engine_def split: prod.splits sum.splits)
  obtain answers dir c' where
    "run_directory config network (map Fetch subjects) (WorkOSDirectory_init None, c) = (answers, dir, c')"
    by (metis prod_cases3)
  moreover from this have "rs = answers" and p': "p' = p\<lparr>directory := Some dir, clients_of := c'\<rparr>"
    using assms(3) unfolding lookups_run [OF p(1)] p(2) by simp_all
  ultimately have run: "run_directory config network (map Fetch subjects) (WorkOSDirectory_init None, c) = (rs, dir, c')"
    by simp
  have inv: "directory_inv None c (dir, c')" and "rs = map (\<lambda>x. Inr (fetch_profile config network x)) subjects"
    using run_directory_inv [OF directory_inv_init [OF assms(1)] assms(1), of None config network "map Fetch subjects"] run
    by simp_all
  with directory_inv_aclose(2) [OF inv assms(1)] p(3-5) show ?thesis
    unfolding p' by (simp add: lifespan_stop_def case_prod_unfold Let_def)
qed

end
