(* ===== verification/Restored.thy ===== *)
theory Restored
  imports ProvisionFacts
begin

text \<open>
  The downgrades of revisions 0003 and 0004 write the earlier texts of
  \<^verbatim>\<open>app.provision_personal_identity\<close> out again.  Here these second texts are read as PL/pgSQL
  runs them: a frame of local variables, NULL until assigned, and one statement after the other.
  Each is shown to be the function it claims to restore, so that the catalog after a downgrade
  holds the same function as before the upgrade.
\<close>

section \<open>Frames and statements\<close>

record frame =
  v_user_id :: "uuid option"
  v_tenant_id :: "uuid option"
  v_member_id :: "uuid option"
  v_created :: "bool option"
  v_status :: "string option"
  v_found :: "string option"
  v_current :: "string option"

type_synonym block = "frame \<times> database \<Rightarrow> db_error + frame \<times> database"

text \<open>\<^verbatim>\<open>DECLARE\<close>: only \<^verbatim>\<open>v_created\<close> has an initial value, in revision 0003.\<close>

definition declared :: "bool option \<Rightarrow> frame" where
  "declared created = \<lparr>v_user_id = None, v_tenant_id = None, v_member_id = None, v_created = created,
     v_status = None, v_found = None, v_current = None\<rparr>"

definition raise_if :: "bool \<Rightarrow> db_error \<Rightarrow> frame \<times> database \<Rightarrow> db_error + frame \<times> database" where
  "raise_if c e s = (if c then Inl e else Inr s)"

text \<open>\<^verbatim>\<open>SELECT ... INTO\<close>: without a row the targets become NULL.\<close>

definition select_by_subject :: "string option \<Rightarrow> block" where
  "select_by_subject v_subject = (\<lambda>(f, db).
     case find (\<lambda>u. usr_external_id u = v_subject) (users db) of
       None \<Rightarrow> Inr (f\<lparr>v_user_id := None, v_status := None, v_current := None\<rparr>, db)
     | Some u \<Rightarrow> Inr (f\<lparr>v_user_id := Some (usr_id u), v_status := Some (usr_status u),
         v_current := Some (email_normalized u)\<rparr>, db))"

definition select_by_email :: "string \<Rightarrow> block" where
  "select_by_email v_email = (\<lambda>(f, db).
     case find (\<lambda>u. email_normalized u = v_email) (users db) of
       None \<Rightarrow> Inr (f\<lparr>v_user_id := None, v_status := None, v_found := None\<rparr>, db)
     | Some u \<Rightarrow> Inr (f\<lparr>v_user_id := Some (usr_id u), v_status := Some (usr_status u),
         v_found := usr_external_id u\<rparr>, db))"

text \<open>\<^verbatim>\<open>UPDATE public.users ... WHERE id = v_user_id\<close>: no row when it is NULL.\<close>

definition set_email :: "timestamp \<Rightarrow> string \<Rightarrow> block" where
  "set_email now p_email = (\<lambda>(f, db).
     case v_user_id f of None \<Rightarrow> Inr (f, db)
     | Some i \<Rightarrow> and_then (update_user_email i (btrim p_email) now db) (\<lambda>db'. Inr (f, db')))"

definition set_subject :: "timestamp \<Rightarrow> string option \<Rightarrow> block" where
  "set_subject now v_subject = (\<lambda>(f, db).
     case v_user_id f of None \<Rightarrow> Inr (f, db)
     | Some i \<Rightarrow> and_then (update_user_external_id i v_subject now db) (\<lambda>db'. Inr (f, db')))"

text \<open>\<^verbatim>\<open>INSERT ... ON CONFLICT (email_normalized) DO NOTHING RETURNING id, status INTO\<close>\<close>

definition insert_or_nothing :: "uuid \<Rightarrow> timestamp \<Rightarrow> string \<Rightarrow> string option \<Rightarrow> block" where
  "insert_or_nothing gen now p_email v_subject = (\<lambda>(f, db).
     let row = new_user gen now (btrim p_email) v_subject
     in if list_ex (\<lambda>u. email_normalized u = email_normalized row) (users db)
        then Inr (f\<lparr>v_user_id := None, v_status := None\<rparr>, db)
        else and_then (insert_user row db)
          (\<lambda>db'. Inr (f\<lparr>v_user_id := Some (usr_id row), v_status := Some (usr_status row)\<rparr>, db')))"

section \<open>The text of 0003 in the downgrade of 0004\<close>

definition conflict :: "string option \<Rightarrow> frame \<Rightarrow> bool" where
  "conflict v_subject f = (v_subject \<noteq> None \<and> v_found f \<noteq> None \<and> v_found f \<noteq> v_subject)"

definition unclaimed :: "string option \<Rightarrow> frame \<Rightarrow> bool" where
  "unclaimed v_subject f = (v_found f = None \<and> v_subject \<noteq> None)"

text \<open>\<^verbatim>\<open>IF v_user_id IS NOT NULL\<close>: the address of a known subject.\<close>

definition restored_known :: "interference \<Rightarrow> timestamp \<Rightarrow> string \<Rightarrow> string \<Rightarrow> block" where
  "restored_known conc now p_email v_email = (\<lambda>(f, db).
     if v_current f \<noteq> Some v_email then
       and_then (raise_if (list_ex (\<lambda>u. email_normalized u = v_email \<and> Some (usr_id u) \<noteq> v_user_id f) (users db))
         email_already_bound (f, db)) (\<lambda>(f, db).
       set_email now p_email (f, at_locked_user conc db))
     else Inr (f, at_locked_user conc db))"

text \<open>The \<^verbatim>\<open>ELSE\<close> branch: the address of an unknown subject.\<close>

definition restored_unknown ::
    "interference \<Rightarrow> uuid \<Rightarrow> timestamp \<Rightarrow> string \<Rightarrow> string \<Rightarrow> string option \<Rightarrow> block" where
  "restored_unknown conc gen now p_email v_email v_subject = (\<lambda>(f, db).
     and_then (select_by_email v_email (f, at_email_lookup conc db)) (\<lambda>(f, db).
     if v_user_id f = None then
       and_then (insert_or_nothing gen now p_email v_subject (f, at_user_insert conc db)) (\<lambda>(f, db).
       if v_user_id f = None then
         and_then (select_by_email v_email (f, db)) (\<lambda>(f, db).
         and_then (raise_if (conflict v_subject f) external_subject_conflict (f, db)) (\<lambda>(f, db).
         if unclaimed v_subject f then set_subject now v_subject (f, db) else Inr (f, db)))
       else Inr (f, db))
     else if conflict v_subject f then Inl external_subject_conflict
     else if unclaimed v_subject f then set_subject now v_subject (f, db)
     else Inr (f, db)))"

text \<open>The tenant, the membership and the result, in both texts.\<close>

definition restored_finish ::
    "fresh_ids \<Rightarrow> timestamp \<Rightarrow> string \<Rightarrow> frame \<times> database \<Rightarrow> db_error + provisioned \<times> database" where
  "restored_finish g now v_name = (\<lambda>(f, db).
     and_then (raise_if (case v_status f of None \<Rightarrow> False | Some s \<Rightarrow> s \<noteq> ''active'') identity_disabled (f, db))
       (\<lambda>(f, db).
     case v_user_id f of
       None \<Rightarrow> Inl (not_null_violation ''owner_user_id'')
     | Some user \<Rightarrow>
         and_then (upsert_personal_tenant (gen_tenant g) now v_name user db) (\<lambda>(tenant, created, db).
         let f = f\<lparr>v_tenant_id := Some tenant, v_created := Some created\<rparr>
         in and_then (upsert_membership (gen_membership g) now user tenant db) (\<lambda>(member, db).
         let f = f\<lparr>v_member_id := Some member\<rparr>
         in Inr (\<lparr>out_user_id = the (v_user_id f), out_tenant_id = the (v_tenant_id f),
               out_membership_id = the (v_member_id f), out_created = the (v_created f)\<rparr>, db)))))"

text \<open>The user: by subject when there is one, else by address.\<close>

definition restored_user ::
    "interference \<Rightarrow> uuid \<Rightarrow> timestamp \<Rightarrow> string \<Rightarrow> string \<Rightarrow> string option \<Rightarrow> block" where
  "restored_user conc gen now p_email v_email v_subject s =
     and_then (if v_subject \<noteq> None then select_by_subject v_subject s else Inr s) (\<lambda>(f, db).
     if v_user_id f \<noteq> None then restored_known conc now p_email v_email (f, db)
     else restored_unknown conc gen now p_email v_email v_subject (f, db))"

definition restored_provision_0003 :: "interference \<Rightarrow> provision_fn" where
  "restored_provision_0003 conc g now p_email p_external_id p_tenant_name db =
     (let v_email = app_normalize_email p_email;
          v_subject = nullif_blank p_external_id;
          v_name = (case nullif_blank p_tenant_name of None \<Rightarrow> ''Personal'' | Some n \<Rightarrow> n);
          f = declared (Some False)
      in case v_email of
           None \<Rightarrow> Inl email_required
         | Some v_email \<Rightarrow>
            if v_email = [] then Inl email_required
            else if \<not> app_signup_allowed (Some v_email) db then Inl signup_not_allowed
            else and_then (restored_user conc (gen_user g) now (the p_email) v_email v_subject (f, at_subject_lookup conc db))
              (restored_finish g now v_name))"

section \<open>The text of 0002 in the downgrade of 0003\<close>

text \<open>\<^verbatim>\<open>INSERT ... ON CONFLICT (email_normalized) DO UPDATE SET external_id = coalesce(u.external_id,
  EXCLUDED.external_id) RETURNING u.id, u.status INTO\<close>\<close>

definition insert_or_adopt :: "uuid \<Rightarrow> timestamp \<Rightarrow> string \<Rightarrow> string option \<Rightarrow> block" where
  "insert_or_adopt gen now p_email excluded = (\<lambda>(f, db).
     let row = new_user gen now (btrim p_email) excluded
     in case find (\<lambda>u. email_normalized u = email_normalized row) (users db) of
       None \<Rightarrow> and_then (insert_user row db)
         (\<lambda>db'. Inr (f\<lparr>v_user_id := Some (usr_id row), v_status := Some (usr_status row)\<rparr>, db'))
     | Some u \<Rightarrow> and_then (update_user_external_id (usr_id u)
           (if usr_external_id u \<noteq> None then usr_external_id u else excluded) (usr_updated_at u) db)
         (\<lambda>db'. Inr (f\<lparr>v_user_id := Some (usr_id u), v_status := Some (usr_status u)\<rparr>, db')))"

definition restored_provision_0002 :: provision_fn where
  "restored_provision_0002 g now p_email p_external_id p_tenant_name db =
     (let v_email = app_normalize_email p_email;
          v_name = (case nullif_blank p_tenant_name of None \<Rightarrow> ''Personal'' | Some n \<Rightarrow> n);
          f = declared None
      in case v_email of
           None \<Rightarrow> Inl email_required
         | Some v_email \<Rightarrow>
            if v_email = [] then Inl email_required
            else if \<not> app_signup_allowed (Some v_email) db then Inl signup_not_allowed
            else and_then (insert_or_adopt (gen_user g) now (the p_email) (nullif_blank p_external_id) (f, db))
              (restored_finish g now v_name))"

section \<open>They are the functions they restore\<close>

text \<open>What a frame says about the resolved user.\<close>

definition resolved :: "db_error + frame \<times> database \<Rightarrow> db_error + uuid \<times> string \<times> database" where
  "resolved r = and_then r (\<lambda>(f, db). Inr (the (v_user_id f), the (v_status f), db))"

definition has_user :: "db_error + frame \<times> database \<Rightarrow> bool" where
  "has_user r = (\<forall>f db. r = Inr (f, db) \<longrightarrow> v_user_id f \<noteq> None \<and> v_status f \<noteq> None)"

lemma restored_finish_eq:
  assumes "has_user r"
  shows "and_then r (restored_finish g now (tenant_name n)) = and_then (resolved r) (finish_0003 g now n)"
proof (cases r)
  case (Inr p)
  obtain f db where p: "p = (f, db)" by (cases p)
  with Inr assms obtain i st where "v_user_id f = Some i" "v_status f = Some st"
    by (auto simp: has_user_def)
  then show ?thesis
    unfolding Inr p resolved_def restored_finish_def finish_0003_def raise_if_def guard_def
    by (simp add: Let_def)
qed (simp add: resolved_def)

lemma restored_known_eq:
  assumes "u \<in> set (users db)" and "v_user_id f = Some (usr_id u)" and "v_status f = Some (usr_status u)"
    and "v_current f = Some (email_normalized u)"
  shows "has_user (restored_known conc now e v (f, db))"
    and "resolved (restored_known conc now e v (f, db)) =
      (if email_normalized u \<noteq> v then
         if list_ex (\<lambda>w. email_normalized w = v \<and> usr_id w \<noteq> usr_id u) (users db) then Inl email_already_bound
         else and_then (update_user_email (usr_id u) (btrim e) now (at_locked_user conc db))
           (\<lambda>db'. Inr (usr_id u, usr_status u, db'))
       else Inr (usr_id u, usr_status u, at_locked_user conc db))"
  using assms
  by (cases "update_user_email (usr_id u) (btrim e) now (at_locked_user conc db)";
      auto simp: has_user_def resolved_def restored_known_def raise_if_def set_email_def)+

definition settle :: "timestamp \<Rightarrow> string option \<Rightarrow> block" where
  "settle now v_subject = (\<lambda>(f, db). if conflict v_subject f then Inl external_subject_conflict
     else if unclaimed v_subject f then set_subject now v_subject (f, db) else Inr (f, db))"

definition frame_of :: "frame \<Rightarrow> User \<Rightarrow> bool" where
  "frame_of f u = (v_user_id f = Some (usr_id u) \<and> v_status f = Some (usr_status u) \<and> v_found f = usr_external_id u)"

lemma settle_eq:
  assumes "frame_of f u"
  shows "has_user (settle now x (f, db))" and "resolved (settle now x (f, db)) = adopt_0003 now x u db"
  using assms
  by (cases "update_user_external_id (usr_id u) x now db";
      auto simp: has_user_def resolved_def settle_def frame_of_def conflict_def unclaimed_def set_subject_def
        adopt_0003_def)+

lemma row_email: "email_normalized (new_user gen now (btrim e) x) = lower (btrim e)"
  by (simp add: new_user_def email_normalized_def EMAIL_NORMALIZATION_SQL_def)

lemma row_id: "usr_id (new_user gen now e x) = gen" and row_status: "usr_status (new_user gen now e x) = ACTIVE"
  by (simp_all add: new_user_def)

lemma restored_unknown_eq:
  assumes "v = lower (btrim e)"
  shows "has_user (restored_unknown conc gen now e v x (f, db)) \<and>
    resolved (restored_unknown conc gen now e v x (f, db)) =
      (let db1 = at_email_lookup conc db in
        case find (\<lambda>u. email_normalized u = v) (users db1) of
          Some u \<Rightarrow> adopt_0003 now x u db1
        | None \<Rightarrow> let db2 = at_user_insert conc db1 in
            case find (\<lambda>u. email_normalized u = v) (users db2) of
              None \<Rightarrow> and_then (insert_user (new_user gen now (btrim e) x) db2) (\<lambda>db'. Inr (gen, ACTIVE, db'))
            | Some u \<Rightarrow> adopt_0003 now x u db2)"
proof (cases "find (\<lambda>u. email_normalized u = v) (users (at_email_lookup conc db))")
  case (Some u)
  let ?f = "f\<lparr>v_user_id := Some (usr_id u), v_status := Some (usr_status u), v_found := usr_external_id u\<rparr>"
  have "restored_unknown conc gen now e v x (f, db) = settle now x (?f, at_email_lookup conc db)"
    by (simp add: restored_unknown_def select_by_email_def Some settle_def)
  with settle_eq [of ?f u] Some show ?thesis by (simp add: frame_of_def Let_def)
next
  case none: None
  have row: "email_normalized (new_user gen now (btrim e) x) = v" by (simp add: row_email assms)
  let ?db = "at_user_insert conc (at_email_lookup conc db)"
  let ?f = "f\<lparr>v_user_id := None, v_status := None, v_found := None\<rparr>"
  show ?thesis
  proof (cases "find (\<lambda>u. email_normalized u = v) (users ?db)")
    case None
    then have "\<not> list_ex (\<lambda>u. email_normalized u = v) (users ?db)"
      by (auto simp: find_None_iff list_ex_iff)
    then have "restored_unknown conc gen now e v x (f, db)
        = and_then (insert_user (new_user gen now (btrim e) x) ?db)
            (\<lambda>db'. Inr (?f\<lparr>v_user_id := Some gen, v_status := Some ACTIVE\<rparr>, db'))"
      by (cases "insert_user (new_user gen now (btrim e) x) ?db")
        (simp_all add: restored_unknown_def select_by_email_def none insert_or_nothing_def row Let_def
          row_id row_status)
    with none None show ?thesis
      by (cases "insert_user (new_user gen now (btrim e) x) ?db") (auto simp: has_user_def resolved_def Let_def)
  next
    case (Some u)
    then have ex: "list_ex (\<lambda>u. email_normalized u = v) (users ?db)"
      by (auto simp: list_ex_iff dest: find_Some_D)
    let ?g = "?f\<lparr>v_user_id := Some (usr_id u), v_status := Some (usr_status u), v_found := usr_external_id u\<rparr>"
    from ex have "restored_unknown conc gen now e v x (f, db) = settle now x (?g, ?db)"
      by (simp add: restored_unknown_def select_by_email_def none Some insert_or_nothing_def row Let_def
          raise_if_def settle_def)
    with settle_eq [of ?g u] none Some show ?thesis by (simp add: frame_of_def Let_def)
  qed
qed

lemma restored_user_eq:
  assumes "v = lower (btrim e)"
  shows "has_user (restored_user conc gen now e v x (declared c, db)) \<and>
    resolved (restored_user conc gen now e v x (declared c, db)) = resolve_user_0003 conc gen now e v x db"
proof (cases "if x = None then None else find (\<lambda>u. usr_external_id u = x) (users db)")
  case None
  then obtain f where "restored_user conc gen now e v x (declared c, db) = restored_unknown conc gen now e v x (f, db)"
    unfolding restored_user_def select_by_subject_def declared_def by (auto split: if_splits)
  with restored_unknown_eq [OF assms] None show ?thesis by (simp add: resolve_user_0003_def)
next
  case (Some u)
  then have u: "u \<in> set (users db)" by (auto dest: find_Some_D split: if_splits)
  let ?f = "(declared c)\<lparr>v_user_id := Some (usr_id u), v_status := Some (usr_status u),
    v_current := Some (email_normalized u)\<rparr>"
  have "restored_user conc gen now e v x (declared c, db) = restored_known conc now e v (?f, db)"
    using Some unfolding restored_user_def select_by_subject_def by (auto split: if_splits)
  with restored_known_eq [OF u, of ?f conc now e v] Some show ?thesis
    by (simp add: resolve_user_0003_def)
qed

text \<open>The second text of 0003 is the first, with and without concurrent transactions.\<close>

lemma restored_0003_eq: "restored_provision_0003 = provision_0003"
proof (intro ext)
  fix conc g now p_email p_external_id p_tenant_name db
  show "restored_provision_0003 conc g now p_email p_external_id p_tenant_name db
    = provision_0003 conc g now p_email p_external_id p_tenant_name db"
  proof (cases p_email)
    case None
    then show ?thesis by (simp add: restored_provision_0003_def provision_0003_def app_normalize_email_def)
  next
    case (Some e)
    note user = restored_user_eq [OF refl, of conc "gen_user g" now e "nullif_blank p_external_id" "Some False" "at_subject_lookup conc db"]
    note eq = restored_finish_eq [OF conjunct1 [OF user], of g now p_tenant_name, unfolded conjunct2 [OF user]]
    show ?thesis
      unfolding restored_provision_0003_def provision_0003_def Some app_normalize_email_def
      by (simp add: Let_def eq [unfolded tenant_name_def])
  qed
qed

text \<open>And the second text of 0002 is the first.\<close>

lemma insert_or_adopt_eq:
  "has_user (insert_or_adopt gen now e x (f, db)) \<and>
    resolved (insert_or_adopt gen now e x (f, db)) = upsert_user_0002 gen now e x db"
proof (cases "find (\<lambda>u. email_normalized u = lower (btrim e)) (users db)")
  case None
  then show ?thesis
    by (cases "insert_user (new_user gen now (btrim e) x) db")
      (auto simp: insert_or_adopt_def upsert_user_0002_def row_email EMAIL_NORMALIZATION_SQL_def has_user_def
        resolved_def Let_def row_id row_status)
next
  case (Some u)
  let ?x = "if usr_external_id u \<noteq> None then usr_external_id u else x"
  have "(case usr_external_id u of None \<Rightarrow> x | Some y \<Rightarrow> Some y) = ?x" by (simp split: option.split)
  with Some show ?thesis
    by (cases "update_user_external_id (usr_id u) ?x (usr_updated_at u) db")
      (auto simp: insert_or_adopt_def upsert_user_0002_def row_email EMAIL_NORMALIZATION_SQL_def has_user_def
        resolved_def Let_def)
qed

lemma restored_0002_eq: "restored_provision_0002 = provision_0002"
proof (intro ext)
  fix g now p_email p_external_id p_tenant_name db
  show "restored_provision_0002 g now p_email p_external_id p_tenant_name db
    = provision_0002 g now p_email p_external_id p_tenant_name db"
  proof (cases p_email)
    case None
    then show ?thesis by (simp add: restored_provision_0002_def provision_0002_def app_normalize_email_def)
  next
    case (Some e)
    note user = insert_or_adopt_eq [of "gen_user g" now e "nullif_blank p_external_id" "declared None" db]
    note eq = restored_finish_eq [OF conjunct1 [OF user], of g now p_tenant_name, unfolded conjunct2 [OF user]]
    show ?thesis
      unfolding restored_provision_0002_def provision_0002_def Some app_normalize_email_def
      by (simp add: Let_def eq [unfolded tenant_name_def])
  qed
qed

end
