(* ===== verification/Migrations.thy ===== *)
theory Migrations
  imports ProvisionContract Restored
begin

text \<open>
  The migrations of \<^verbatim>\<open>migrations/versions/\<close> as sequences of statements on the catalog of the
  database: which tables, functions, policies and comments there are, who may do what, and the
  default privileges of the owner.  A statement fails as PostgreSQL fails it - a missing or
  duplicate object, a dependent object, an unknown role, a parameter default that a replacement
  would remove - and a failed migration is rolled back by its transaction.  The migrating role
  is the owner.  The columns and constraints of the tables are in \<open>Schema\<close>, the functions' bodies
  in \<open>Bootstrap\<close> and \<open>Provision\<close>.
\<close>

section \<open>The catalog\<close>

datatype relation = SignupAllowlist_t | Users_t | Tenants_t | Memberships_t

datatype routine = NormalizeEmail | CurrentTenantId | SignupAllowed_f | FindUser_f
  | ProvisionPersonalIdentity | ResolveMembership_f | ListMemberships_f

datatype grantee = Public | Role string

datatype privilege = Select | Insert | Update | Delete | Truncate | References | Trigger | Usage
  | UpdateColumns "string list"

datatype commented = SchemaApp | OnRoutine routine

text \<open>The text of a function: for provisioning, the function it denotes; whether \<^verbatim>\<open>p_external_id\<close> has
  a default; and whether it is \<^verbatim>\<open>SECURITY DEFINER\<close>.\<close>

record routine_text =
  rt_provision :: "(interference \<Rightarrow> provision_fn) option"
  rt_subject_default :: bool
  rt_definer :: bool

record policy =
  pol_name :: string
  pol_table :: relation
  pol_command :: privilege
  pol_role :: string
  pol_reads :: "relation list"
  pol_calls :: "routine list"

record catalog =
  roles :: "string list"
  app_schema :: bool
  relations :: "relation list"
  indexes :: "(string \<times> relation) list"
  row_security :: "relation \<Rightarrow> bool"
  policies :: "policy list"
  table_acl :: "relation \<Rightarrow> grantee \<Rightarrow> privilege set"
  routines :: "routine \<Rightarrow> routine_text option"
  execute_acl :: "routine \<Rightarrow> grantee \<Rightarrow> bool"
  schema_usage :: "grantee \<Rightarrow> bool"
  comments :: "commented \<Rightarrow> string option"
  default_tables :: "grantee \<Rightarrow> privilege set"
  default_sequences :: "grantee \<Rightarrow> privilege set"

definition foreign_keys :: "relation \<Rightarrow> relation list" where
  "foreign_keys t = (case t of SignupAllowlist_t \<Rightarrow> [] | Users_t \<Rightarrow> [] | Tenants_t \<Rightarrow> [Users_t]
     | Memberships_t \<Rightarrow> [Users_t, Tenants_t])"

definition all_routines :: "routine list" where
  "all_routines = [NormalizeEmail, CurrentTenantId, SignupAllowed_f, FindUser_f,
     ProvisionPersonalIdentity, ResolveMembership_f, ListMemberships_f]"

section \<open>Statements\<close>

datatype statement =
    CreateSchema
  | DropSchemaIfExists
  | CreateTable relation
  | DropTable relation
  | CreateIndex string relation
  | CreateRoutine routine routine_text
  | ReplaceRoutine routine routine_text
  | DropRoutine routine
  | DropRoutineIfExists routine
  | CommentOn commented string
  | EnableRowSecurity relation
  | CreatePolicy policy
  | DropPolicyIfExists string relation
  | RevokeSchema grantee
  | GrantSchema grantee
  | RevokeTables "relation list" grantee
  | GrantTable privilege relation grantee
  | RevokeExecute routine grantee
  | GrantExecute routine grantee
  | DefaultTablesRevoke "privilege list" grantee
  | DefaultTablesGrant "privilege list" grantee
  | DefaultSequencesRevoke "privilege list" grantee
  | DefaultSequencesGrant "privilege list" grantee
  | IfRoles "string list" "statement list"

definition known_role :: "catalog \<Rightarrow> grantee \<Rightarrow> string + unit" where
  "known_role c g = (case g of Public \<Rightarrow> Inr ()
     | Role r \<Rightarrow> guard (r \<in> set (roles c)) ''role does not exist'')"

definition create_routine :: "routine \<Rightarrow> routine_text \<Rightarrow> catalog \<Rightarrow> string + catalog" where
  "create_routine r text c =
     (if \<not> app_schema c then Inl ''schema does not exist''
      else if routines c r \<noteq> None then Inl ''function already exists''
      else Inr (c\<lparr>routines := (routines c)(r \<mapsto> text), execute_acl := (execute_acl c)(r := (\<lambda>g. g = Public))\<rparr>))"

definition drop_routine :: "routine \<Rightarrow> catalog \<Rightarrow> string + catalog" where
  "drop_routine r c =
     (if \<exists>p\<in>set (policies c). r \<in> set (pol_calls p) then Inl ''other objects depend on it''
      else Inr (c\<lparr>routines := (routines c)(r := None), execute_acl := (execute_acl c)(r := (\<lambda>_. False)),
                  comments := (comments c)(OnRoutine r := None)\<rparr>))"

fun exec :: "statement \<Rightarrow> catalog \<Rightarrow> string + catalog"
  and exec_all :: "statement list \<Rightarrow> catalog \<Rightarrow> string + catalog" where
  "exec CreateSchema c = (if app_schema c then Inl ''schema already exists'' else Inr (c\<lparr>app_schema := True\<rparr>))"
| "exec DropSchemaIfExists c =
     (if \<exists>r\<in>set all_routines. routines c r \<noteq> None then Inl ''other objects depend on it''
      else Inr (c\<lparr>app_schema := False, schema_usage := (\<lambda>_. False), comments := (comments c)(SchemaApp := None)\<rparr>))"
| "exec (CreateTable t) c =
     (if t \<in> set (relations c) then Inl ''relation already exists''
      else if \<not> set (foreign_keys t) \<subseteq> set (relations c) then Inl ''relation does not exist''
      else Inr (c\<lparr>relations := relations c @ [t], table_acl := (table_acl c)(t := default_tables c)\<rparr>))"
| "exec (DropTable t) c =
     (if t \<notin> set (relations c) then Inl ''relation does not exist''
      else if (\<exists>s\<in>set (relations c). s \<noteq> t \<and> t \<in> set (foreign_keys s))
          \<or> (\<exists>p\<in>set (policies c). pol_table p \<noteq> t \<and> t \<in> set (pol_reads p))
      then Inl ''other objects depend on it''
      else Inr (c\<lparr>relations := filter (\<lambda>s. s \<noteq> t) (relations c),
                  indexes := filter (\<lambda>i. snd i \<noteq> t) (indexes c),
                  policies := filter (\<lambda>p. pol_table p \<noteq> t) (policies c),
                  row_security := (row_security c)(t := False),
                  table_acl := (table_acl c)(t := (\<lambda>_. {}))\<rparr>))"
| "exec (CreateIndex i t) c =
     (if t \<notin> set (relations c) then Inl ''relation does not exist''
      else if i \<in> set (map fst (indexes c)) then Inl ''relation already exists''
      else Inr (c\<lparr>indexes := indexes c @ [(i, t)]\<rparr>))"
| "exec (CreateRoutine r text) c = create_routine r text c"
| "exec (ReplaceRoutine r text) c =
     (case routines c r of
        None \<Rightarrow> create_routine r text c
      | Some old \<Rightarrow> if rt_subject_default old \<and> \<not> rt_subject_default text
          then Inl ''cannot remove parameter defaults from existing function''
          else Inr (c\<lparr>routines := (routines c)(r \<mapsto> text)\<rparr>))"
| "exec (DropRoutine r) c = (if routines c r = None then Inl ''function does not exist'' else drop_routine r c)"
| "exec (DropRoutineIfExists r) c = (if routines c r = None then Inr c else drop_routine r c)"
| "exec (CommentOn x text) c =
     (if (case x of SchemaApp \<Rightarrow> \<not> app_schema c | OnRoutine r \<Rightarrow> routines c r = None)
      then Inl ''object does not exist'' else Inr (c\<lparr>comments := (comments c)(x \<mapsto> text)\<rparr>))"
| "exec (EnableRowSecurity t) c =
     (if t \<notin> set (relations c) then Inl ''relation does not exist''
      else Inr (c\<lparr>row_security := (row_security c)(t := True)\<rparr>))"
| "exec (CreatePolicy p) c =
     and_then (known_role c (Role (pol_role p))) (\<lambda>_.
     if pol_table p \<notin> set (relations c) \<or> \<not> set (pol_reads p) \<subseteq> set (relations c)
     then Inl ''relation does not exist''
     else if \<exists>r\<in>set (pol_calls p). routines c r = None then Inl ''function does not exist''
     else Inr (c\<lparr>policies := policies c @ [p]\<rparr>))"
| "exec (DropPolicyIfExists n t) c =
     Inr (c\<lparr>policies := filter (\<lambda>p. \<not> (pol_name p = n \<and> pol_table p = t)) (policies c)\<rparr>)"
| "exec (RevokeSchema g) c =
     and_then (known_role c g) (\<lambda>_. Inr (c\<lparr>schema_usage := (schema_usage c)(g := False)\<rparr>))"
| "exec (GrantSchema g) c =
     and_then (known_role c g) (\<lambda>_. Inr (c\<lparr>schema_usage := (schema_usage c)(g := True)\<rparr>))"
| "exec (RevokeTables ts g) c =
     and_then (known_role c g) (\<lambda>_. Inr (c\<lparr>table_acl :=
       (\<lambda>t. if t \<in> set ts then (table_acl c t)(g := {}) else table_acl c t)\<rparr>))"
| "exec (GrantTable p t g) c =
     and_then (known_role c g) (\<lambda>_. Inr (c\<lparr>table_acl :=
       (table_acl c)(t := (table_acl c t)(g := insert p (table_acl c t g)))\<rparr>))"
| "exec (RevokeExecute r g) c =
     and_then (known_role c g) (\<lambda>_.
     if routines c r = None then Inl ''function does not exist''
     else Inr (c\<lparr>execute_acl := (execute_acl c)(r := (execute_acl c r)(g := False))\<rparr>))"
| "exec (GrantExecute r g) c =
     and_then (known_role c g) (\<lambda>_.
     if routines c r = None then Inl ''function does not exist''
     else Inr (c\<lparr>execute_acl := (execute_acl c)(r := (execute_acl c r)(g := True))\<rparr>))"
| "exec (DefaultTablesRevoke ps g) c =
     and_then (known_role c g) (\<lambda>_. Inr (c\<lparr>default_tables := (default_tables c)(g := default_tables c g - set ps)\<rparr>))"
| "exec (DefaultTablesGrant ps g) c =
     and_then (known_role c g) (\<lambda>_. Inr (c\<lparr>default_tables := (default_tables c)(g := default_tables c g \<union> set ps)\<rparr>))"
| "exec (DefaultSequencesRevoke ps g) c =
     and_then (known_role c g) (\<lambda>_. Inr (c\<lparr>default_sequences := (default_sequences c)(g := default_sequences c g - set ps)\<rparr>))"
| "exec (DefaultSequencesGrant ps g) c =
     and_then (known_role c g) (\<lambda>_. Inr (c\<lparr>default_sequences := (default_sequences c)(g := default_sequences c g \<union> set ps)\<rparr>))"
| "exec (IfRoles rs sts) c = (if set rs \<subseteq> set (roles c) then exec_all sts c else Inr c)"
| "exec_all [] c = Inr c"
| "exec_all (s # sts) c = and_then (exec s c) (exec_all sts)"

section \<open>The revisions\<close>

definition RUNTIME_ROLE :: string where "RUNTIME_ROLE = ''vespers_app''"
definition OWNER_ROLE :: string where "OWNER_ROLE = ''vespers_owner''"

definition upgrade_0001 :: "statement list" where "upgrade_0001 = []"
definition downgrade_0001 :: "statement list" where "downgrade_0001 = []"

definition FUNCTIONS :: "routine list" where
  "FUNCTIONS = [NormalizeEmail, CurrentTenantId, SignupAllowed_f, FindUser_f, ProvisionPersonalIdentity,
     ResolveMembership_f]"

definition reading :: "bool \<Rightarrow> routine_text" where
  "reading definer = \<lparr>rt_provision = None, rt_subject_default = False, rt_definer = definer\<rparr>"

definition provisioning_text :: "(interference \<Rightarrow> provision_fn) \<Rightarrow> bool \<Rightarrow> bool \<Rightarrow> routine_text" where
  "provisioning_text fn subject_default definer =
     \<lparr>rt_provision = Some fn, rt_subject_default = subject_default, rt_definer = definer\<rparr>"

definition schema_comment :: string where
  "schema_comment = ''Bootstrap and policy helper functions.''"

definition context_comment :: string where
  "context_comment = ''Transaction-local tenant context. An enforcement input, not authentication: '' @
     ''the trusted backend must verify membership before setting it.''"

definition policy_tenants_select :: policy where
  "policy_tenants_select = \<lparr>pol_name = ''tenants_select'', pol_table = Tenants_t, pol_command = Select,
     pol_role = RUNTIME_ROLE, pol_reads = [], pol_calls = [CurrentTenantId]\<rparr>"

definition policy_tenants_update :: policy where
  "policy_tenants_update = \<lparr>pol_name = ''tenants_update'', pol_table = Tenants_t, pol_command = Update,
     pol_role = RUNTIME_ROLE, pol_reads = [], pol_calls = [CurrentTenantId]\<rparr>"

definition policy_memberships_select :: policy where
  "policy_memberships_select = \<lparr>pol_name = ''memberships_select'', pol_table = Memberships_t, pol_command = Select,
     pol_role = RUNTIME_ROLE, pol_reads = [], pol_calls = [CurrentTenantId]\<rparr>"

definition policy_users_select :: policy where
  "policy_users_select = \<lparr>pol_name = ''users_select'', pol_table = Users_t, pol_command = Select,
     pol_role = RUNTIME_ROLE, pol_reads = [Memberships_t], pol_calls = [CurrentTenantId]\<rparr>"

definition create_tables :: "statement list" where
  "create_tables =
     [CreateTable SignupAllowlist_t, CreateTable Users_t, CreateTable Tenants_t, CreateTable Memberships_t,
      CreateIndex ''uq_memberships_user_id_tenant_id'' Memberships_t,
      CreateIndex ''ix_memberships_tenant_id'' Memberships_t,
      CreateIndex ''ix_memberships_user_id'' Memberships_t,
      CreateIndex ''uq_tenants_personal_owner'' Tenants_t]"

definition create_routines :: "statement list" where
  "create_routines =
     [CreateRoutine CurrentTenantId (reading False),
      CommentOn (OnRoutine CurrentTenantId) context_comment,
      CreateRoutine NormalizeEmail (reading False),
      CreateRoutine SignupAllowed_f (reading True),
      CreateRoutine FindUser_f (reading True),
      CreateRoutine ResolveMembership_f (reading True),
      CreateRoutine ProvisionPersonalIdentity (provisioning_text (\<lambda>_. provision_0002) True True)]"

definition create_policies :: "statement list" where
  "create_policies =
     map EnableRowSecurity [Users_t, Tenants_t, Memberships_t, SignupAllowlist_t]
     @ map CreatePolicy [policy_tenants_select, policy_tenants_update, policy_memberships_select, policy_users_select]"

definition runtime_grants :: "statement list" where
  "runtime_grants =
     [RevokeTables [Users_t, Tenants_t, Memberships_t, SignupAllowlist_t] (Role RUNTIME_ROLE),
      GrantSchema (Role RUNTIME_ROLE),
      GrantTable Select Users_t (Role RUNTIME_ROLE),
      GrantTable Select Memberships_t (Role RUNTIME_ROLE),
      GrantTable Select Tenants_t (Role RUNTIME_ROLE),
      GrantTable (UpdateColumns [''name'', ''updated_at'']) Tenants_t (Role RUNTIME_ROLE)]
     @ map (\<lambda>fn. GrantExecute fn (Role RUNTIME_ROLE)) FUNCTIONS"

definition upgrade_0002 :: "statement list" where
  "upgrade_0002 =
     [CreateSchema, CommentOn SchemaApp schema_comment]
     @ create_tables @ create_routines @ create_policies
     @ [RevokeSchema Public] @ map (\<lambda>fn. RevokeExecute fn Public) FUNCTIONS
     @ [IfRoles [RUNTIME_ROLE] runtime_grants]"

definition downgrade_0002 :: "statement list" where
  "downgrade_0002 =
     [DropPolicyIfExists ''users_select'' Users_t, DropTable Memberships_t, DropTable Tenants_t,
      DropTable Users_t, DropTable SignupAllowlist_t]
     @ map DropRoutineIfExists FUNCTIONS @ [DropSchemaIfExists]"

definition subject_first_comment :: string where
  "subject_first_comment = ''Subject-first identity binding. The caller must supply a verified external '' @
     ''subject and a verified email; never browser-supplied values.''"

definition upgrade_0003 :: "statement list" where
  "upgrade_0003 =
     [ReplaceRoutine ProvisionPersonalIdentity (provisioning_text provision_0003 True True),
      CreateRoutine ListMemberships_f (reading True),
      RevokeExecute ListMemberships_f Public,
      IfRoles [RUNTIME_ROLE] [GrantExecute ListMemberships_f (Role RUNTIME_ROLE)],
      CommentOn (OnRoutine ProvisionPersonalIdentity) subject_first_comment,
      IfRoles [RUNTIME_ROLE, OWNER_ROLE]
        [DefaultTablesRevoke [Select, Insert, Update, Delete, Truncate, References, Trigger] (Role RUNTIME_ROLE),
         DefaultSequencesRevoke [Usage, Select, Update] (Role RUNTIME_ROLE)]]"

text \<open>The downgrades write the earlier texts out again.\<close>

definition restored_0002 :: routine_text where
  "restored_0002 = provisioning_text (\<lambda>_. restored_provision_0002) True True"

definition downgrade_0003 :: "statement list" where
  "downgrade_0003 =
     [DropRoutineIfExists ListMemberships_f,
      IfRoles [RUNTIME_ROLE, OWNER_ROLE]
        [DefaultTablesGrant [Select, Insert, Update, Delete] (Role RUNTIME_ROLE),
         DefaultSequencesGrant [Usage, Select] (Role RUNTIME_ROLE)],
      ReplaceRoutine ProvisionPersonalIdentity restored_0002]"

definition COMMENT_0004 :: string where
  "COMMENT_0004 = ''Subject-first identity binding. A verified external subject is REQUIRED; '' @
     ''an email alone can never resolve or claim an account. Callers must supply '' @
     ''values from a verified session, never browser-supplied ones.''"

definition upgrade_0004 :: "statement list" where
  "upgrade_0004 =
     [DropRoutine ProvisionPersonalIdentity,
      CreateRoutine ProvisionPersonalIdentity (provisioning_text provision_0004 False True),
      RevokeExecute ProvisionPersonalIdentity Public,
      IfRoles [RUNTIME_ROLE] [GrantExecute ProvisionPersonalIdentity (Role RUNTIME_ROLE)],
      CommentOn (OnRoutine ProvisionPersonalIdentity) COMMENT_0004]"

definition restored_0003 :: routine_text where
  "restored_0003 = provisioning_text restored_provision_0003 True True"

definition downgrade_0004 :: "statement list" where
  "downgrade_0004 =
     [DropRoutine ProvisionPersonalIdentity,
      CreateRoutine ProvisionPersonalIdentity restored_0003,
      RevokeExecute ProvisionPersonalIdentity Public,
      IfRoles [RUNTIME_ROLE] [GrantExecute ProvisionPersonalIdentity (Role RUNTIME_ROLE)]]"

text \<open>The function a catalog's provisioning text denotes.\<close>

definition provision_of :: "catalog \<Rightarrow> (interference \<Rightarrow> provision_fn) option" where
  "provision_of c = Option.bind (routines c ProvisionPersonalIdentity) rt_provision"

text \<open>A database before the first migration, with some roles and some default privileges.\<close>

definition fresh_database ::
    "string list \<Rightarrow> (grantee \<Rightarrow> privilege set) \<Rightarrow> (grantee \<Rightarrow> privilege set) \<Rightarrow> catalog" where
  "fresh_database rs dt ds = \<lparr>roles = rs, app_schema = False, relations = [], indexes = [],
     row_security = (\<lambda>_. False), policies = [], table_acl = (\<lambda>_ _. {}), routines = (\<lambda>_. None),
     execute_acl = (\<lambda>_ _. False), schema_usage = (\<lambda>_. False), comments = (\<lambda>_. None),
     default_tables = dt, default_sequences = ds\<rparr>"

definition upgrade_head :: "catalog \<Rightarrow> string + catalog" where
  "upgrade_head c = and_then (exec_all upgrade_0001 c) (\<lambda>c. and_then (exec_all upgrade_0002 c) (\<lambda>c.
     and_then (exec_all upgrade_0003 c) (exec_all upgrade_0004)))"

definition downgrade_base :: "catalog \<Rightarrow> string + catalog" where
  "downgrade_base c = and_then (exec_all downgrade_0004 c) (\<lambda>c. and_then (exec_all downgrade_0003 c) (\<lambda>c.
     and_then (exec_all downgrade_0002 c) (exec_all downgrade_0001)))"

end
