(* ===== verification/MigrationProps.thy ===== *)
theory MigrationProps
  imports Migrations
begin

text \<open>
  Properties of the migrations: what the head revision leaves the runtime role and PUBLIC, that
  downgrading is the inverse of upgrading up to two differences, and that the runtime role has
  to exist.
\<close>

section \<open>Sequences of statements\<close>

lemma exec_all_append: "exec_all (xs @ ys) c = and_then (exec_all xs c) (exec_all ys)"
proof (induction xs arbitrary: c)
  case (Cons x xs)
  then show ?case by (cases "exec x c") simp_all
qed simp

lemmas revisions = upgrade_0001_def downgrade_0001_def upgrade_0002_def downgrade_0002_def
  upgrade_0003_def downgrade_0003_def upgrade_0004_def downgrade_0004_def

lemmas parts = create_tables_def create_routines_def create_policies_def runtime_grants_def FUNCTIONS_def
  policy_tenants_select_def policy_tenants_update_def policy_memberships_select_def policy_users_select_def

lemma guard_simps [simp]: "guard True e = Inr ()" "guard False e = Inl e"
  by (simp_all add: guard_def)

section \<open>The catalog at each revision\<close>

definition granted :: "relation \<Rightarrow> privilege set" where
  "granted t = (case t of SignupAllowlist_t \<Rightarrow> {} | Users_t \<Rightarrow> {Select}
     | Tenants_t \<Rightarrow> {Select, UpdateColumns [''name'', ''updated_at'']} | Memberships_t \<Rightarrow> {Select})"

definition catalog_0002 ::
    "string list \<Rightarrow> (grantee \<Rightarrow> privilege set) \<Rightarrow> (grantee \<Rightarrow> privilege set) \<Rightarrow> catalog" where
  "catalog_0002 rs dt ds = \<lparr>roles = rs, app_schema = True,
     relations = [SignupAllowlist_t, Users_t, Tenants_t, Memberships_t],
     indexes = [(''uq_memberships_user_id_tenant_id'', Memberships_t), (''ix_memberships_tenant_id'', Memberships_t),
       (''ix_memberships_user_id'', Memberships_t), (''uq_tenants_personal_owner'', Tenants_t)],
     row_security = (\<lambda>_. True), policies = [policy_tenants_select, policy_tenants_update, policy_memberships_select, policy_users_select],
     table_acl = (\<lambda>t g. if g = Role RUNTIME_ROLE then granted t else dt g),
     routines = (\<lambda>r. case r of ListMemberships_f \<Rightarrow> None
       | ProvisionPersonalIdentity \<Rightarrow> Some (provisioning_text (\<lambda>_. provision_0002) True True)
       | NormalizeEmail \<Rightarrow> Some (reading False) | CurrentTenantId \<Rightarrow> Some (reading False)
       | _ \<Rightarrow> Some (reading True)),
     execute_acl = (\<lambda>r g. r \<noteq> ListMemberships_f \<and> g = Role RUNTIME_ROLE),
     schema_usage = (\<lambda>g. g = Role RUNTIME_ROLE),
     comments = [SchemaApp \<mapsto> schema_comment, OnRoutine CurrentTenantId \<mapsto> context_comment],
     default_tables = dt, default_sequences = ds\<rparr>"

lemma after_0002:
  assumes "RUNTIME_ROLE \<in> set rs"
  shows "exec_all upgrade_0002 (fresh_database rs dt ds) = Inr (catalog_0002 rs dt ds)"
  using assms
  by (simp add: upgrade_0002_def parts catalog_0002_def fresh_database_def foreign_keys_def create_routine_def
      known_role_def exec_all_append)
    (intro conjI ext; auto simp: granted_def intro: relation.exhaust routine.exhaust
      split: relation.split routine.split)

definition lowered :: "string list \<Rightarrow> privilege set \<Rightarrow> (grantee \<Rightarrow> privilege set) \<Rightarrow> grantee \<Rightarrow> privilege set" where
  "lowered rs ps d = (if OWNER_ROLE \<in> set rs then d(Role RUNTIME_ROLE := d (Role RUNTIME_ROLE) - ps) else d)"

definition raised :: "string list \<Rightarrow> privilege set \<Rightarrow> (grantee \<Rightarrow> privilege set) \<Rightarrow> grantee \<Rightarrow> privilege set" where
  "raised rs ps d = (if OWNER_ROLE \<in> set rs then d(Role RUNTIME_ROLE := d (Role RUNTIME_ROLE) \<union> ps) else d)"

definition catalog_0003 ::
    "string list \<Rightarrow> (grantee \<Rightarrow> privilege set) \<Rightarrow> (grantee \<Rightarrow> privilege set) \<Rightarrow> catalog" where
  "catalog_0003 rs dt ds = (catalog_0002 rs dt ds)\<lparr>
     routines := (routines (catalog_0002 rs dt ds))(ProvisionPersonalIdentity \<mapsto> provisioning_text provision_0003 True True,
       ListMemberships_f \<mapsto> reading True),
     execute_acl := (\<lambda>r g. g = Role RUNTIME_ROLE),
     comments := (comments (catalog_0002 rs dt ds))(OnRoutine ProvisionPersonalIdentity \<mapsto> subject_first_comment),
     default_tables := lowered rs {Select, Insert, Update, Delete, Truncate, References, Trigger} dt,
     default_sequences := lowered rs {Usage, Select, Update} ds\<rparr>"

definition catalog_0004 ::
    "string list \<Rightarrow> (grantee \<Rightarrow> privilege set) \<Rightarrow> (grantee \<Rightarrow> privilege set) \<Rightarrow> catalog" where
  "catalog_0004 rs dt ds = (catalog_0003 rs dt ds)\<lparr>
     routines := (routines (catalog_0003 rs dt ds))(ProvisionPersonalIdentity \<mapsto> provisioning_text provision_0004 False True),
     comments := (comments (catalog_0003 rs dt ds))(OnRoutine ProvisionPersonalIdentity \<mapsto> COMMENT_0004)\<rparr>"

lemma after_0003:
  assumes "RUNTIME_ROLE \<in> set rs"
  shows "exec_all upgrade_0003 (catalog_0002 rs dt ds) = Inr (catalog_0003 rs dt ds)"
  using assms
  by (cases "OWNER_ROLE \<in> set rs")
    (simp_all add: upgrade_0003_def catalog_0003_def catalog_0002_def known_role_def create_routine_def
      lowered_def provisioning_text_def reading_def, (intro conjI ext; auto)+)

text \<open>Dropping and creating the function again ends with the grant of the runtime role only.\<close>

lemma after_0004:
  assumes "RUNTIME_ROLE \<in> set rs"
  shows "exec_all upgrade_0004 (catalog_0003 rs dt ds) = Inr (catalog_0004 rs dt ds)"
  using assms
  by (simp add: upgrade_0004_def catalog_0004_def catalog_0003_def catalog_0002_def known_role_def
      create_routine_def drop_routine_def parts) (intro conjI ext; auto)

lemma after_downgrade_0004:
  assumes "RUNTIME_ROLE \<in> set rs"
  shows "exec_all downgrade_0004 (catalog_0004 rs dt ds) = Inr ((catalog_0003 rs dt ds)\<lparr>comments :=
    (comments (catalog_0003 rs dt ds))(OnRoutine ProvisionPersonalIdentity := None)\<rparr>)"
  using assms
  by (simp add: downgrade_0004_def catalog_0004_def catalog_0003_def catalog_0002_def known_role_def
      create_routine_def drop_routine_def parts restored_0003_def restored_0003_eq) (intro conjI ext; auto)

definition back_at_0002 ::
    "string list \<Rightarrow> (grantee \<Rightarrow> privilege set) \<Rightarrow> (grantee \<Rightarrow> privilege set) \<Rightarrow> catalog" where
  "back_at_0002 rs dt ds = (catalog_0002 rs dt ds)\<lparr>
     default_tables := raised rs {Select, Insert, Update, Delete}
       (lowered rs {Select, Insert, Update, Delete, Truncate, References, Trigger} dt),
     default_sequences := raised rs {Usage, Select} (lowered rs {Usage, Select, Update} ds)\<rparr>"

lemma after_downgrade_0003:
  assumes "RUNTIME_ROLE \<in> set rs"
  shows "exec_all downgrade_0003 ((catalog_0003 rs dt ds)\<lparr>comments :=
      (comments (catalog_0003 rs dt ds))(OnRoutine ProvisionPersonalIdentity := None)\<rparr>)
    = Inr (back_at_0002 rs dt ds)"
  using assms
  by (cases "OWNER_ROLE \<in> set rs")
    (simp_all add: downgrade_0003_def back_at_0002_def catalog_0003_def catalog_0002_def known_role_def
      create_routine_def drop_routine_def parts lowered_def raised_def restored_0002_def restored_0002_eq provisioning_text_def reading_def,
      (intro conjI ext; auto simp: provisioning_text_def reading_def split: routine.split)+)

lemma after_downgrade_0002:
  "exec_all downgrade_0002 (back_at_0002 rs dt ds) = Inr (fresh_database rs
    (default_tables (back_at_0002 rs dt ds)) (default_sequences (back_at_0002 rs dt ds)))"
  by (simp add: downgrade_0002_def back_at_0002_def catalog_0002_def known_role_def foreign_keys_def
      drop_routine_def parts fresh_database_def all_routines_def)
    (intro conjI ext; auto intro: relation.exhaust routine.exhaust split: relation.split routine.split)

lemma head:
  assumes "RUNTIME_ROLE \<in> set rs"
  shows "upgrade_head (fresh_database rs dt ds) = Inr (catalog_0004 rs dt ds)"
  by (simp add: upgrade_head_def upgrade_0001_def after_0002 after_0003 after_0004 assms)

section \<open>Privileges\<close>

text \<open>C11: On every fresh database that has the runtime role and no default privileges for PUBLIC - with
  any others, the permissive ones included - the migrations succeed, and leave the runtime role
  the right to read three tables, to update two columns of tenants, and to execute the seven
  functions, and nothing on the allowlist; PUBLIC has nothing at all; row-level security is on
  for the four tables; and provisioning is the version of revision 0004.\<close>

theorem head_privileges:
  assumes "RUNTIME_ROLE \<in> set rs" and "dt Public = {}"
  shows "\<exists>c. upgrade_head (fresh_database rs dt ds) = Inr c
    \<and> table_acl c SignupAllowlist_t (Role RUNTIME_ROLE) = {} \<and> table_acl c Users_t (Role RUNTIME_ROLE) = {Select}
    \<and> table_acl c Memberships_t (Role RUNTIME_ROLE) = {Select}
    \<and> table_acl c Tenants_t (Role RUNTIME_ROLE) = {Select, UpdateColumns [''name'', ''updated_at'']}
    \<and> (\<forall>t. table_acl c t Public = {} \<and> row_security c t)
    \<and> (\<forall>r. routines c r \<noteq> None \<and> (\<forall>g. execute_acl c r g \<longleftrightarrow> g = Role RUNTIME_ROLE))
    \<and> provision_of c = Some provision_0004
    \<and> (OWNER_ROLE \<in> set rs \<longrightarrow> default_tables c (Role RUNTIME_ROLE)
        \<inter> {Select, Insert, Update, Delete, Truncate, References, Trigger} = {})
    \<and> map (\<lambda>p. (pol_name p, pol_table p)) (policies c) = [(''tenants_select'', Tenants_t),
        (''tenants_update'', Tenants_t), (''memberships_select'', Memberships_t), (''users_select'', Users_t)]"
proof -
  have "routines (catalog_0004 rs dt ds) r \<noteq> None" for r
    by (simp add: catalog_0004_def catalog_0003_def catalog_0002_def split: routine.split)
  then show ?thesis
    unfolding head [OF assms(1)]
    by (intro exI [of _ "catalog_0004 rs dt ds"])
      (auto simp: assms(2) catalog_0004_def catalog_0003_def catalog_0002_def granted_def RUNTIME_ROLE_def
        provision_of_def provisioning_text_def reading_def lowered_def parts)
qed

definition permissive :: "grantee \<Rightarrow> privilege set" where
  "permissive g = (if g = Role RUNTIME_ROLE then {Select, Insert, Update, Delete} else {})"

theorem head_privileges_witness:
  "\<exists>c. upgrade_head (fresh_database [RUNTIME_ROLE, OWNER_ROLE] permissive (\<lambda>_. {})) = Inr c
     \<and> table_acl c SignupAllowlist_t (Role RUNTIME_ROLE) = {}"
proof -
  have "RUNTIME_ROLE \<in> set [RUNTIME_ROLE, OWNER_ROLE]" "permissive Public = {}"
    by (simp_all add: permissive_def)
  from head_privileges [where dt = permissive, OF this, of "\<lambda>_. {}"] show ?thesis
  proof (elim exE conjE)
    fix c
    assume "upgrade_head (fresh_database [RUNTIME_ROLE, OWNER_ROLE] permissive (\<lambda>_. {})) = Inr c"
      and "table_acl c SignupAllowlist_t (Role RUNTIME_ROLE) = {}"
    then show ?thesis by (intro exI conjI)
  qed
qed

section \<open>Down again\<close>

text \<open>C19: Downgrading is the inverse of upgrading, for every fresh database with the runtime role, but
  for two things: all the way down, the owner's default privileges are the permissive ones of
  revision 0002, whatever they were before; and one step down from 0004, the function's comment
  of revision 0003 is gone.  In particular the texts the downgrades write out again denote the
  provisioning functions of 0003 and 0002, and the runtime role has the grants it had.\<close>

theorem migrations_roundtrip:
  assumes "RUNTIME_ROLE \<in> set rs"
  shows "and_then (upgrade_head (fresh_database rs dt ds)) downgrade_base = Inr (fresh_database rs
      (raised rs {Select, Insert, Update, Delete}
        (lowered rs {Select, Insert, Update, Delete, Truncate, References, Trigger} dt))
      (raised rs {Usage, Select} (lowered rs {Usage, Select, Update} ds)))
    \<and> (\<exists>c2 c3 c. exec_all upgrade_0002 (fresh_database rs dt ds) = Inr c2 \<and> exec_all upgrade_0003 c2 = Inr c3
        \<and> and_then (exec_all upgrade_0004 c3) (exec_all downgrade_0004)
          = Inr (c3\<lparr>comments := (comments c3)(OnRoutine ProvisionPersonalIdentity := None)\<rparr>)
        \<and> comments c3 (OnRoutine ProvisionPersonalIdentity) = Some subject_first_comment
        \<and> provision_of c3 = Some provision_0003
        \<and> and_then (exec_all upgrade_0004 c3) (\<lambda>c4. and_then (exec_all downgrade_0004 c4) (exec_all downgrade_0003))
          = Inr c
        \<and> (routines c, execute_acl c, table_acl c, policies c) = (routines c2, execute_acl c2, table_acl c2, policies c2)
        \<and> provision_of c = Some (\<lambda>_. provision_0002))"
proof
  have "downgrade_base (catalog_0004 rs dt ds) = Inr (fresh_database rs
      (default_tables (back_at_0002 rs dt ds)) (default_sequences (back_at_0002 rs dt ds)))"
    by (simp add: downgrade_base_def downgrade_0001_def after_downgrade_0004 after_downgrade_0003
        after_downgrade_0002 assms)
  then show "and_then (upgrade_head (fresh_database rs dt ds)) downgrade_base = Inr (fresh_database rs
      (raised rs {Select, Insert, Update, Delete}
        (lowered rs {Select, Insert, Update, Delete, Truncate, References, Trigger} dt))
      (raised rs {Usage, Select} (lowered rs {Usage, Select, Update} ds)))"
    by (simp add: head [OF assms] back_at_0002_def)
next
  note steps = after_0002 [OF assms] after_0003 [OF assms] after_0004 [OF assms] after_downgrade_0004 [OF assms]
    after_downgrade_0003 [OF assms]
  have "comments (catalog_0003 rs dt ds) (OnRoutine ProvisionPersonalIdentity) = Some subject_first_comment"
    "provision_of (catalog_0003 rs dt ds) = Some provision_0003"
    "(routines (back_at_0002 rs dt ds), execute_acl (back_at_0002 rs dt ds), table_acl (back_at_0002 rs dt ds),
        policies (back_at_0002 rs dt ds))
      = (routines (catalog_0002 rs dt ds), execute_acl (catalog_0002 rs dt ds), table_acl (catalog_0002 rs dt ds),
        policies (catalog_0002 rs dt ds))"
    "provision_of (back_at_0002 rs dt ds) = Some (\<lambda>_. provision_0002)"
    by (simp_all add: catalog_0003_def catalog_0002_def back_at_0002_def provision_of_def provisioning_text_def)
  then show "\<exists>c2 c3 c. exec_all upgrade_0002 (fresh_database rs dt ds) = Inr c2 \<and> exec_all upgrade_0003 c2 = Inr c3
      \<and> and_then (exec_all upgrade_0004 c3) (exec_all downgrade_0004)
        = Inr (c3\<lparr>comments := (comments c3)(OnRoutine ProvisionPersonalIdentity := None)\<rparr>)
      \<and> comments c3 (OnRoutine ProvisionPersonalIdentity) = Some subject_first_comment
      \<and> provision_of c3 = Some provision_0003
      \<and> and_then (exec_all upgrade_0004 c3) (\<lambda>c4. and_then (exec_all downgrade_0004 c4) (exec_all downgrade_0003))
        = Inr c
      \<and> (routines c, execute_acl c, table_acl c, policies c) = (routines c2, execute_acl c2, table_acl c2, policies c2)
      \<and> provision_of c = Some (\<lambda>_. provision_0002)"
    by (intro exI [of _ "catalog_0002 rs dt ds"] exI [of _ "catalog_0003 rs dt ds"] exI [of _ "back_at_0002 rs dt ds"])
      (simp add: steps)
qed

theorem migrations_roundtrip_witness:
  "\<exists>dt ds. and_then (upgrade_head (fresh_database [RUNTIME_ROLE, OWNER_ROLE] (\<lambda>_. {}) (\<lambda>_. {}))) downgrade_base
      = Inr (fresh_database [RUNTIME_ROLE, OWNER_ROLE] dt ds)
     \<and> dt (Role RUNTIME_ROLE) = {Select, Insert, Update, Delete} \<and> ds (Role RUNTIME_ROLE) = {Usage, Select}"
proof -
  have "RUNTIME_ROLE \<in> set [RUNTIME_ROLE, OWNER_ROLE]" by simp
  from migrations_roundtrip [OF this, of "\<lambda>_. {}" "\<lambda>_. {}"] show ?thesis
    by (intro exI conjI) (blast, simp_all add: raised_def lowered_def)
qed

section \<open>Without the runtime role\<close>

text \<open>The grants are skipped when the runtime role is absent, but the policies name it: revision 0002
  cannot be applied without it.\<close>

lemma runtime_role_required:
  assumes "RUNTIME_ROLE \<notin> set rs"
  shows "upgrade_head (fresh_database rs dt ds) = Inl ''role does not exist''"
  using assms
  by (simp add: upgrade_head_def upgrade_0001_def upgrade_0002_def parts fresh_database_def foreign_keys_def
      create_routine_def known_role_def exec_all_append)

end
