(* ===== verification/MigrationEnv.thy ===== *)
theory MigrationEnv
  imports MigrationProps Config
begin

text \<open>
  The migration runner \<^verbatim>\<open>migrations/env.py\<close>: the revisions Alembic selects run in one transaction on a
  connection with the migration credentials, or are written out as a script.  Which revisions those
  are is Alembic's: a list of statement lists.
\<close>

section \<open>The runner\<close>

text \<open>\<^verbatim>\<open>with context.begin_transaction(): context.run_migrations()\<close>: an exception rolls back.\<close>

fun run_migrations :: "statement list list \<Rightarrow> catalog \<Rightarrow> string + catalog" where
  "run_migrations [] c = Inr c"
| "run_migrations (revision # revisions) c = and_then (exec_all revision c) (run_migrations revisions)"





section \<open>Properties\<close>



lemma run_last [simp]: "and_then r (run_migrations []) = r"
  by (cases r) simp_all





end
