(* ===== verification/Metadata.thy ===== *)
theory Metadata
  imports Schema
begin

text \<open>
  The tables twice: as the ORM's metadata declares them (\<^verbatim>\<open>storage/models.py\<close> with the naming
  convention of \<^verbatim>\<open>storage/base.py\<close>), and as revision 0002 creates them.  What SQLAlchemy makes of a
  mapped class - the constraints of its columns, named by the convention - is its documented
  behaviour.
\<close>

section \<open>Tables\<close>








section \<open>The naming convention\<close>







section \<open>Mapped classes\<close>
















section \<open>Revision 0002\<close>




section \<open>Agreement\<close>




end
