(* ===== verification/Administration.thy ===== *)
theory Administration
  imports AccountFacts
begin

text \<open>
  The administrator's side of the system: the scripts \<^verbatim>\<open>infra/allowlist-add.sql\<close> and
  \<^verbatim>\<open>infra/bind-subject.sql\<close>, and the statuses and entries access is revoked and restored with.
  Each of these operations keeps the schema and every binding of a subject to its account.
\<close>

section \<open>Scripts\<close>

text \<open>\<^verbatim>\<open>infra/allowlist-add.sql\<close>\<close>

definition allowlist_add ::
    "uuid \<Rightarrow> timestamp \<Rightarrow> string \<Rightarrow> string option \<Rightarrow> database \<Rightarrow> db_error + database" where
  "allowlist_add gen now email note d =
     (if \<exists>a\<in>set (signup_allowlist d). alw_email_normalized a = EMAIL_NORMALIZATION_SQL email
      then Inr (d\<lparr>signup_allowlist := map (\<lambda>a. if alw_email_normalized a = EMAIL_NORMALIZATION_SQL email
                    then a\<lparr>alw_note := note, alw_updated_at := now\<rparr> else a) (signup_allowlist d)\<rparr>)
      else if gen \<in> alw_id ` set (signup_allowlist d) then Inl (unique_violation ''pk_signup_allowlist'')
      else Inr (d\<lparr>signup_allowlist := signup_allowlist d @ [\<lparr>alw_id = gen, alw_email = email,
                    alw_note = note, alw_created_at = now, alw_updated_at = now\<rparr>]\<rparr>))"

text \<open>\<^verbatim>\<open>infra/bind-subject.sql\<close>; its exceptions carry the SQLSTATE of \<^verbatim>\<open>RAISE EXCEPTION\<close>.\<close>

definition raised_exception :: "string \<Rightarrow> db_error" where
  "raised_exception m = DBError (Some ''P0001'') m"

definition bind_subject ::
    "timestamp \<Rightarrow> string \<Rightarrow> string \<Rightarrow> database \<Rightarrow> db_error + database" where
  "bind_subject now email subject d =
     (let v_email = lower (btrim email)
      in if v_email = [] then Inl (raised_exception ''A non-empty email is required'')
         else case nullif_blank (Some subject) of
           None \<Rightarrow> Inl (raised_exception ''A non-empty subject is required'')
         | Some v_subject \<Rightarrow>
            (case find (\<lambda>u. email_normalized u = v_email) (users d) of
               None \<Rightarrow> Inl (raised_exception ''No user with that email; sign-in provisions new users'')
             | Some u \<Rightarrow>
                 if usr_external_id u \<noteq> None
                 then Inl (raised_exception ''User already bound to an external subject; refusing to rebind'')
                 else if \<exists>w\<in>set (users d). usr_external_id w = Some v_subject
                 then Inl (raised_exception ''That subject is already bound to a different user'')
                 else update_user_external_id (usr_id u) (Some v_subject) now d))"

text \<open>What an administrator revokes and restores access with: statuses and allowlist entries.\<close>

definition set_user_status :: "uuid \<Rightarrow> string \<Rightarrow> database \<Rightarrow> database" where
  "set_user_status i st d =
     d\<lparr>users := map (\<lambda>u. if usr_id u = i then u\<lparr>usr_status := st\<rparr> else u) (users d)\<rparr>"

definition set_tenant_status :: "uuid \<Rightarrow> string \<Rightarrow> database \<Rightarrow> database" where
  "set_tenant_status i st d =
     d\<lparr>tenants := map (\<lambda>t. if tnt_id t = i then t\<lparr>tnt_status := st\<rparr> else t) (tenants d)\<rparr>"

definition set_membership_status :: "uuid \<Rightarrow> string \<Rightarrow> database \<Rightarrow> database" where
  "set_membership_status i st d =
     d\<lparr>memberships := map (\<lambda>m. if mbr_id m = i then m\<lparr>mbr_status := st\<rparr> else m) (memberships d)\<rparr>"

definition allowlist_remove :: "string \<Rightarrow> database \<Rightarrow> database" where
  "allowlist_remove email d = d\<lparr>signup_allowlist :=
     filter (\<lambda>a. alw_email_normalized a \<noteq> EMAIL_NORMALIZATION_SQL email) (signup_allowlist d)\<rparr>"

section \<open>The schema and the bindings are kept\<close>

definition keeps :: "database \<Rightarrow> database \<Rightarrow> bool" where
  "keeps d d' = (schema_ok d' \<and> (\<forall>s i. bindings d s = Some i \<longrightarrow> bindings d' s = Some i))"

lemma keeps_refl: "schema_ok d \<Longrightarrow> keeps d d"
  by (simp add: keeps_def)

lemma keeps_trans: "keeps d1 d2 \<Longrightarrow> keeps d2 d3 \<Longrightarrow> keeps d1 d3"
  by (simp add: keeps_def)

lemma keeps_same_users: "schema_ok d' \<Longrightarrow> users d' = users d \<Longrightarrow> keeps d d'"
  using bindings_users_cong [of d' d] by (simp add: keeps_def)

lemma schema_ok_map_tenants:
  assumes "schema_ok d" and "\<And>t. tnt_id (f t) = tnt_id t" and "\<And>t. tnt_kind (f t) = tnt_kind t"
    and "\<And>t. tnt_owner_user_id (f t) = tnt_owner_user_id t"
    and "\<And>t. t \<in> set (tenants d) \<Longrightarrow> status_check (tnt_status (f t))"
  shows "schema_ok (d\<lparr>tenants := map f (tenants d)\<rparr>)"
proof -
  have p: "is_personal (f t) = is_personal t" for t by (simp add: is_personal_def assms(3))
  have ids: "map tnt_id (map f ts) = map tnt_id ts" for ts by (simp add: comp_def assms(2))
  have "map tnt_owner_user_id (filter is_personal (map f (tenants d)))
      = map tnt_owner_user_id (filter is_personal (tenants d))"
    by (simp add: filter_map comp_def p assms(4))
  then show ?thesis
    using assms(1,5) unfolding schema_ok_def tenants_ok_def memberships_ok_def
    by (simp add: ids list_all_iff assms(3,4) comp_def assms(2) image_image)
qed

lemma allowlist_add_keeps:
  assumes "schema_ok d" and "allowlist_add i now email note d = Inr d'"
  shows "keeps d d'"
proof (rule keeps_same_users)
  show "users d' = users d" using assms(2) by (auto simp: allowlist_add_def split: if_splits)
  let ?f = "\<lambda>a. if alw_email_normalized a = EMAIL_NORMALIZATION_SQL email
    then a\<lparr>alw_note := note, alw_updated_at := now\<rparr> else a"
  have f: "alw_id (?f a) = alw_id a" "alw_email_normalized (?f a) = alw_email_normalized a" for a
    by (simp_all add: alw_email_normalized_def)
  have "map alw_id (map ?f as) = map alw_id as" "map alw_email_normalized (map ?f as) = map alw_email_normalized as"
    for as using f by (simp_all add: comp_def)
  then have "allowlist_ok (signup_allowlist d')"
    using assms
    by (auto simp: allowlist_add_def schema_ok_def allowlist_ok_def alw_email_normalized_def
        simp del: map_map split: if_splits) blast
  then show "schema_ok d'"
    using assms by (auto simp: allowlist_add_def schema_ok_def split: if_splits)
qed

lemma bind_subject_keeps:
  assumes ok: "schema_ok d" and bind: "bind_subject now email subject d = Inr d'"
  shows "keeps d d'"
proof -
  obtain v u where v: "\<forall>w\<in>set (users d). usr_external_id w \<noteq> Some v" and u: "u \<in> set (users d)" "usr_external_id u = None"
    and upd: "update_user_external_id (usr_id u) (Some v) now d = Inr d'"
    using bind by (auto simp: bind_subject_def Let_def split: if_splits option.splits dest!: find_Some_D)
  have ok': "schema_ok d'" by (rule update_user_external_id_ok [OF ok upd])
  have "bindings d' s = Some i" if b: "bindings d s = Some i" for s i
  proof -
    from bindings_Some [OF b] obtain w where w: "w \<in> set (users d)" "usr_external_id w = Some s" "usr_id w = i"
      by blast
    have "usr_id w \<noteq> usr_id u" using user_key [OF ok w(1) u(1)] w(2) u(2) by auto
    with w(1) have "w \<in> set (users d')"
      by (force simp: update_user_external_id_users [OF upd])
    from bindings_of_user [OF ok' this w(2)] w(3) show ?thesis by simp
  qed
  with ok' show ?thesis by (simp add: keeps_def)
qed

lemma set_user_status_keeps:
  assumes "schema_ok d" and "status_check st"
  shows "keeps d (set_user_status i st d)"
proof -
  let ?f = "\<lambda>u. if usr_id u = i then u\<lparr>usr_status := st\<rparr> else u"
  have f: "usr_id (?f u) = usr_id u" "email_normalized (?f u) = email_normalized u"
    "usr_external_id (?f u) = usr_external_id u" for u by (simp_all add: email_normalized_def)
  have m: "map usr_id (map ?f us) = map usr_id us" "map email_normalized (map ?f us) = map email_normalized us"
    "bound_subjects (map ?f us) = bound_subjects us" for us
    using f by (simp_all add: comp_def bound_subjects_def filter_map)
  have "users_ok (map ?f (users d))"
    using assms m by (auto simp: schema_ok_def users_ok_def list_all_iff simp del: map_map)
  then have ok': "schema_ok (set_user_status i st d)"
    unfolding set_user_status_def by (intro schema_ok_map_users assms(1)) (simp_all add: f)
  have "bindings (set_user_status i st d) = bindings d"
    by (rule ext) (simp add: bindings_def set_user_status_def find_map comp_def f option.map_comp)
  with ok' show ?thesis by (simp add: keeps_def)
qed

lemma set_membership_status_ok:
  assumes "schema_ok d" and "status_check st"
  shows "schema_ok (set_membership_status i st d)"
proof -
  let ?f = "\<lambda>m. if mbr_id m = i then m\<lparr>mbr_status := st\<rparr> else m"
  have f: "mbr_id (?f m) = mbr_id m" "mbr_user_id (?f m) = mbr_user_id m" "mbr_tenant_id (?f m) = mbr_tenant_id m"
    "mbr_role (?f m) = mbr_role m" for m by simp_all
  have m: "map mbr_id (map ?f ms) = map mbr_id ms"
    "map (\<lambda>m. (mbr_user_id m, mbr_tenant_id m)) (map ?f ms) = map (\<lambda>m. (mbr_user_id m, mbr_tenant_id m)) ms" for ms
    using f by (simp_all add: comp_def)
  have "memberships_ok (users d) (tenants d) (map ?f (memberships d))"
    using assms unfolding schema_ok_def memberships_ok_def m by (auto simp: list_all_iff)
  with assms show ?thesis by (simp add: schema_ok_def set_membership_status_def)
qed

section \<open>What the application commits\<close>

text \<open>A successful call of provisioning builds on the last database it sees: the one it writes the locked
  row on, or the one it inserts the user into.\<close>

lemma provision_0004_builds_on:
  assumes "provision_0004 conc g now e x n d = Inr (r, d')"
  shows "growth (at_locked_user conc (at_subject_lookup conc d)) d'
    \<or> growth (at_user_insert conc (at_email_lookup conc (at_subject_lookup conc d))) d'"
proof -
  let ?d = "at_subject_lookup conc d"
  obtain em s i st db1
    where res: "resolve_user_0004 conc (gen_user g) now em (lower (btrim em)) s ?d = Inr (i, st, db1)"
    and fin: "finish_0004 g now n (i, st, db1) = Inr (r, d')"
    using assms by (auto simp: provision_0004_def Let_def split: option.splits if_splits)
  have "growth (at_locked_user conc ?d) db1 \<or> growth (at_user_insert conc (at_email_lookup conc ?d)) db1"
    using res
    by (auto simp: resolve_user_0004_def insert_or_reread_0004_def Let_def split: option.splits if_splits
        dest: insert_user_growth update_user_email_growth)
  with finish_0003_growth(1) [OF finish_0004_0003 [OF fin] refl] show ?thesis
    by (auto intro: growth_trans)
qed

lemma committed_provision:
  assumes "with_transaction (provision_personal_tenant (provision_0004 conc) g stamp e x n) d = (res, d')"
  shows "(\<exists>err. res = Inl err) \<and> d' = d
    \<or> subject_text x \<noteq> [] \<and> (\<exists>p r. res = Inr p \<and> pi_user_id p = out_user_id r \<and> pi_tenant_id p = out_tenant_id r
        \<and> provision_0004 conc g stamp (Some e) (Some (subject_text x)) n d = Inr (r, d'))"
proof (cases res)
  case (Inl err)
  with with_transaction_Inl assms show ?thesis by blast
next
  case (Inr p)
  have ne: "subject_text x \<noteq> []"
    using assms Inr
    by (auto simp: with_transaction_def provision_personal_tenant_def subject_text_def Let_def split: option.splits)
  then show ?thesis
    using assms Inr
    unfolding with_transaction_def service_call [OF open_session_simps(1) ne] open_session_simps
    by (cases "provision_0004 conc g stamp (Some e) (Some (subject_text x)) n d") (auto simp: open_session_def)
qed

interpretation repository_rename: scoped_op "TenantRepository (rename_tenant stamp name)" for stamp name
  by (intro scoped_op_repository rename_op.scoped_op_axioms)

lemma committed_rename:
  assumes "tenant_transaction (PyUUID t) (TenantRepository (rename_tenant stamp name)) d = (res, d')"
  shows "d' = d \<or> d' = d\<lparr>tenants := map (\<lambda>x. if tenants_update_policy (Some t) x
    then x\<lparr>tnt_name := strip name, tnt_updated_at := stamp\<rparr> else x) (tenants d)\<rparr>"
proof -
  let ?s = "(open_session d)\<lparr>guc_tenant_id := Some (uuid_str t), info := (\<lambda>_. None)(SCOPE_KEY \<mapsto> PyUUID t)\<rparr>"
  let ?f = "\<lambda>x. if tenants_update_policy (Some t) x
    then x\<lparr>tnt_name := strip name, tnt_updated_at := stamp\<rparr> else x"
  have sc: "in_scope t ?s" by (rule visible.open_scope)
  show ?thesis
  proof (cases "strip name = []")
    case True
    have "snd (tenant_transaction (PyUUID t) (TenantRepository (rename_tenant stamp name)) d) = d"
      unfolding repository_rename.transaction_eq TenantRepository_in_scope [OF sc]
      by (simp add: rename_tenant_def True)
    with assms show ?thesis by simp
  next
    case False
    have "(case tenant_transaction (PyUUID t) (TenantRepository (rename_tenant stamp name)) d of
        (r, x) \<Rightarrow> x = d\<lparr>tenants := map ?f (tenants d)\<rparr>)"
      unfolding repository_rename.transaction_eq TenantRepository_in_scope [OF sc] rename_tenant_in_scope [OF sc False]
      by (simp add: open_session_def)
    with assms show ?thesis by simp
  qed
qed

lemma growth_keeps: "growth d d' \<Longrightarrow> schema_ok d' \<Longrightarrow> keeps d d'"
  using growth_bindings by (auto simp: keeps_def)

lemma rename_keeps:
  assumes "schema_ok d"
    and "tenant_transaction (PyUUID t) (TenantRepository (rename_tenant stamp name)) d = (res, d')"
  shows "keeps d d'"
proof -
  have "schema_ok (d\<lparr>tenants := map (\<lambda>x. if tenants_update_policy (Some t) x
    then x\<lparr>tnt_name := strip name, tnt_updated_at := stamp\<rparr> else x) (tenants d)\<rparr>)"
    by (rule schema_ok_map_tenants [OF assms(1)])
       (use assms(1) in \<open>auto simp: schema_ok_def tenants_ok_def list_all_iff\<close>)
  with committed_rename [OF assms(2)] assms(1) show ?thesis
    by (auto intro: keeps_same_users keeps_refl)
qed

end
