(* ===== verification/System.thy ===== *)
theory System
  imports Administration
begin

text \<open>
  The system as a whole: every transaction that changes the database - provisioning, the rename of
  a tenant, the administrator's scripts and revocations - as a step of a history of committed
  databases.  Provisioning calls overlap freely: each of their statements sees what was committed
  when it started.  The invariants of histories are the schema, the bindings, and revocations: what
  is revoked stays revoked until the one event that reinstates it.
\<close>

section \<open>Histories\<close>

datatype event =
    Provision fresh_ids timestamp string "string option" "string option"
  | Rename uuid timestamp string
  | Allow uuid timestamp string "string option"
  | Disallow string
  | Bind timestamp string string
  | UserStatus uuid string
  | TenantStatus uuid string
  | MembershipStatus uuid string

text \<open>The other transactions are one statement, or succeed only if what they read before, under a lock or a
  constraint, still holds when they write: a step of the current database.\<close>

inductive db_step :: "event \<Rightarrow> database \<Rightarrow> database \<Rightarrow> bool" where
  rename: "tenant_transaction (PyUUID t) (TenantRepository (rename_tenant stamp name)) d = (res, d')
    \<Longrightarrow> db_step (Rename t stamp name) d d'"
| allow: "allowlist_add i stamp email note d = Inr d' \<Longrightarrow> db_step (Allow i stamp email note) d d'"
| disallow: "db_step (Disallow email) d (allowlist_remove email d)"
| bind: "bind_subject stamp email subject d = Inr d' \<Longrightarrow> db_step (Bind stamp email subject) d d'"
| user_status: "status_check st \<Longrightarrow> db_step (UserStatus i st) d (set_user_status i st d)"
| tenant_status: "status_check st \<Longrightarrow> db_step (TenantStatus i st) d (set_tenant_status i st d)"
| membership_status: "status_check st \<Longrightarrow> db_step (MembershipStatus i st) d (set_membership_status i st d)"

inductive_simps db_step_simps:
  "db_step (Rename t stamp name) d d'"
  "db_step (Allow i stamp email note) d d'" "db_step (Disallow email) d d'"
  "db_step (Bind stamp email subject) d d'" "db_step (UserStatus i st) d d'"
  "db_step (TenantStatus i st) d d'" "db_step (MembershipStatus i st) d d'"

text \<open>
  A history is the list of the databases committed so far, the current one first; an earlier moment
  is a suffix.  A provisioning call that started at the moment \<open>h0\<close> and writes at the moment \<open>h\<close> has
  seen the databases of moments between, in this order; and nobody else has changed the row it
  locked.
\<close>

type_synonym history = "database list"

definition observes :: "history \<Rightarrow> history \<Rightarrow> interference \<Rightarrow> string \<Rightarrow> bool" where
  "observes h0 h conc subject = (\<exists>h1 h2. h0 \<noteq> [] \<and> suffix h0 h1 \<and> suffix h1 h2 \<and> suffix h2 h
     \<and> at_subject_lookup conc (hd h0) = hd h1 \<and> at_email_lookup conc (hd h1) = hd h2
     \<and> at_user_insert conc (hd h2) = hd h \<and> at_locked_user conc (hd h1) = hd h
     \<and> row_locked (hd h1) (Some subject) (hd h))"

text \<open>How a history goes on, with allowed events only.  A call may have started at any earlier moment,
  so calls overlap in every way; one that fails commits nothing and leaves no trace.\<close>

inductive evolves :: "(event \<Rightarrow> bool) \<Rightarrow> history \<Rightarrow> history \<Rightarrow> bool" for allowed where
  stay [simp, intro]: "evolves allowed h h"
| commit: "evolves allowed h0 h \<Longrightarrow> db_step e (hd h) d \<Longrightarrow> allowed e \<Longrightarrow> evolves allowed h0 (d # h)"
| provision: "evolves allowed h0 h \<Longrightarrow> observes started h conc (subject_text subject)
    \<Longrightarrow> with_transaction (provision_personal_tenant (provision_0004 conc) g stamp email subject name) (hd started)
        = (Inr p, d)
    \<Longrightarrow> allowed (Provision g stamp email subject name) \<Longrightarrow> evolves allowed h0 (d # h)"

lemma evolves_trans: "evolves allowed h1 h2 \<Longrightarrow> evolves allowed h0 h1 \<Longrightarrow> evolves allowed h0 h2"
  by (induction rule: evolves.induct) (auto intro: evolves.intros)

lemma evolves_suffix: "evolves allowed h0 h \<Longrightarrow> suffix h0 h"
  by (induction rule: evolves.induct) (auto intro: suffix_ConsI)

text \<open>Every moment between two moments of a history is a history.\<close>

lemma evolves_between:
  "evolves allowed h0 h \<Longrightarrow> suffix h0 h1 \<Longrightarrow> suffix h1 h \<Longrightarrow> evolves allowed h0 h1 \<and> evolves allowed h1 h"
proof (induction rule: evolves.induct)
  case (stay h)
  then have "h1 = h" by (rule suffix_order.antisym [rotated])
  then show ?case by simp
qed (auto simp: suffix_Cons intro: evolves.intros)

section \<open>The schema and the bindings\<close>

lemma tenant_status_keeps: "schema_ok d \<Longrightarrow> status_check st \<Longrightarrow> keeps d (set_tenant_status i st d)"
  unfolding set_tenant_status_def
  by (intro keeps_same_users schema_ok_map_tenants) (auto simp: schema_ok_def tenants_ok_def list_all_iff)

lemma membership_status_keeps: "schema_ok d \<Longrightarrow> status_check st \<Longrightarrow> keeps d (set_membership_status i st d)"
  using set_membership_status_ok [of d st i] by (auto intro!: keeps_same_users simp: set_membership_status_def)

lemma allowlist_remove_keeps: "schema_ok d \<Longrightarrow> keeps d (allowlist_remove email d)"
  by (rule keeps_same_users) (simp_all add: allowlist_remove_def schema_ok_def allowlist_ok_def prefix_map_filter_distinct)

lemmas keeps_intros = rename_keeps allowlist_add_keeps bind_subject_keeps set_user_status_keeps
  tenant_status_keeps membership_status_keeps allowlist_remove_keeps

lemma step_keeps: "db_step e d d' \<Longrightarrow> schema_ok d \<Longrightarrow> keeps d d'"
  by (induction rule: db_step.induct) (auto intro: keeps_intros)

text \<open>The schema holds at every moment, and what is bound at a moment is bound the same at every later one.\<close>

definition coherent :: "history \<Rightarrow> bool" where
  "coherent h = (h \<noteq> [] \<and> (\<forall>h1 h2. h1 \<noteq> [] \<longrightarrow> suffix h1 h2 \<longrightarrow> suffix h2 h \<longrightarrow> keeps (hd h1) (hd h2)))"

lemma coherentD: "coherent h \<Longrightarrow> h1 \<noteq> [] \<Longrightarrow> suffix h1 h2 \<Longrightarrow> suffix h2 h \<Longrightarrow> keeps (hd h1) (hd h2)"
  by (simp add: coherent_def)

lemma coherent_schema: "coherent h \<Longrightarrow> h1 \<noteq> [] \<Longrightarrow> suffix h1 h \<Longrightarrow> schema_ok (hd h1)"
  using coherentD [of h h1 h1] by (simp add: keeps_def)

lemma coherent_now [dest]: "coherent h \<Longrightarrow> schema_ok (hd h)"
  by (rule coherent_schema) (auto simp: coherent_def)

lemma coherent_start: "schema_ok d \<Longrightarrow> coherent [d]"
  by (auto simp: coherent_def suffix_Cons keeps_refl)

lemma coherent_suffix: "coherent h \<Longrightarrow> h1 \<noteq> [] \<Longrightarrow> suffix h1 h \<Longrightarrow> coherent h1"
  by (auto simp: coherent_def intro: suffix_order.trans)

lemma coherent_Cons:
  assumes "coherent h" and "keeps (hd h) d"
  shows "coherent (d # h)"
  unfolding coherent_def
proof (intro conjI allI impI)
  fix h1 h2
  assume h: "h1 \<noteq> []" "suffix h1 h2" "suffix h2 (d # h)"
  have "keeps d d" using assms(2) by (simp add: keeps_def)
  moreover have "keeps (hd h1) d" if "suffix h1 h"
    using coherentD [OF assms(1) h(1) that] assms(2) by (auto intro: keeps_trans)
  ultimately show "keeps (hd h1) (hd h2)"
    using h coherentD [OF assms(1) h(1,2)] by (auto simp: suffix_Cons)
qed simp

lemma observes_order:
  assumes "observes h0 h conc s"
  shows "h0 \<noteq> [] \<and> suffix h0 h"
  using assms unfolding observes_def by (blast intro: suffix_order.trans)

lemma observes_ok:
  assumes "observes h0 h conc s" and "coherent h"
  shows "interference_ok conc (Some s) (hd h0)"
proof -
  obtain h1 h2 where h: "h0 \<noteq> []" "suffix h0 h1" "suffix h1 h2" "suffix h2 h" "row_locked (hd h1) (Some s) (hd h)"
    and seen: "at_subject_lookup conc (hd h0) = hd h1" "at_email_lookup conc (hd h1) = hd h2"
      "at_user_insert conc (hd h2) = hd h" "at_locked_user conc (hd h1) = hd h"
    using assms(1) unfolding observes_def by blast
  have "h1 \<noteq> []" "h2 \<noteq> []" "suffix h1 h" using h by (auto intro: suffix_order.trans)
  with h show ?thesis
    using coherent_schema [OF assms(2)] coherent_now [OF assms(2)]
    by (simp add: interference_ok_def seen_ok_def seen)
qed

text \<open>What a call commits grows out of the database it writes on, and binds its subject.\<close>

lemma observed_commit:
  assumes "coherent h" and obs: "observes h0 h conc (subject_text subject)"
    and "with_transaction (provision_personal_tenant (provision_0004 conc) g stamp email subject name) (hd h0)
      = (Inr p, d)"
  shows "growth (hd h) d" and "keeps (hd h) d" and "bindings d (subject_text subject) = Some (pi_user_id p)"
    and "app_signup_allowed (Some email) (hd h0)"
proof -
  obtain r where ne: "subject_text subject \<noteq> []" and r: "pi_user_id p = out_user_id r"
    and run: "provision_0004 conc g stamp (Some email) (Some (subject_text subject)) name (hd h0) = Inr (r, d)"
    using committed_provision [OF assms(3)] by auto
  note sub = nullif_blank_subject [OF ne]
  show grown: "growth (hd h) d"
    using provision_0004_builds_on [OF run] obs by (auto simp: observes_def)
  have ok: "schema_ok d" and "bindings d (subject_text subject) = Some (out_user_id r)"
    and "app_signup_allowed (Some email) (hd h0)"
    by (rule provision_0004_Inr [OF run, unfolded sub, OF observes_ok [OF obs assms(1)]];
        auto simp: bound_row_def dest: bindings_of_user)+
  with r show "bindings d (subject_text subject) = Some (pi_user_id p)"
    and "app_signup_allowed (Some email) (hd h0)" by simp_all
  from grown ok show "keeps (hd h) d" by (rule growth_keeps)
qed

lemma evolves_coherent: "evolves allowed h0 h \<Longrightarrow> coherent h0 \<Longrightarrow> coherent h"
proof (induction rule: evolves.induct)
  case (commit h0 h e d)
  then show ?case by (blast intro: coherent_Cons step_keeps)
next
  case (provision h0 h started conc subject g stamp email name p d)
  then show ?case by (blast intro: coherent_Cons observed_commit(2))
qed simp

lemma evolves_keeps: "evolves allowed h0 h \<Longrightarrow> coherent h0 \<Longrightarrow> keeps (hd h0) (hd h)"
  using evolves_coherent evolves_suffix coherentD [of h h0 h] by (auto simp: coherent_def)

section \<open>Revocations\<close>

datatype revocation =
    RevokedUser uuid
  | RevokedTenant uuid
  | RevokedMembership uuid uuid uuid
  | RevokedAddress string

fun revoked :: "revocation \<Rightarrow> database \<Rightarrow> bool" where
  "revoked (RevokedUser i) d = (\<exists>u\<in>set (users d). usr_id u = i \<and> usr_status u \<noteq> ACTIVE)"
| "revoked (RevokedTenant i) d = (\<exists>t\<in>set (tenants d). tnt_id t = i \<and> tnt_status t \<noteq> ACTIVE)"
| "revoked (RevokedMembership i user tenant) d = (\<exists>m\<in>set (memberships d). mbr_id m = i \<and> mbr_user_id m = user
     \<and> mbr_tenant_id m = tenant \<and> mbr_status m \<noteq> ACTIVE)"
| "revoked (RevokedAddress a) d = (\<forall>w\<in>set (signup_allowlist d). alw_email_normalized w \<noteq> a)"

fun reinstates :: "revocation \<Rightarrow> event \<Rightarrow> bool" where
  "reinstates (RevokedUser i) (UserStatus j st) = (j = i \<and> st = ACTIVE)"
| "reinstates (RevokedTenant i) (TenantStatus j st) = (j = i \<and> st = ACTIVE)"
| "reinstates (RevokedMembership i _ _) (MembershipStatus j st) = (j = i \<and> st = ACTIVE)"
| "reinstates (RevokedAddress a) (Allow _ _ email _) = (EMAIL_NORMALIZATION_SQL email = a)"
| "reinstates _ _ = False"

lemma growth_revoked:
  assumes "growth d d'" and "revoked x d"
  shows "revoked x d'"
proof (cases x)
  case (RevokedUser i)
  with assms(2) obtain u where u: "u \<in> set (users d)" "usr_id u = i" "usr_status u \<noteq> ACTIVE" by auto
  with assms(1) obtain v where "v \<in> set (users d')" "usr_id v = usr_id u" "usr_status v = usr_status u"
    unfolding growth_def by blast
  with u RevokedUser show ?thesis by auto
qed (use assms in \<open>auto simp: growth_def\<close>)

lemma map_users_revoked:
  assumes "revoked x d" and "\<And>u. usr_id (f u) = usr_id u"
    and "\<And>u. x = RevokedUser (usr_id u) \<Longrightarrow> usr_status u \<noteq> ACTIVE \<Longrightarrow> usr_status (f u) \<noteq> ACTIVE"
  shows "revoked x (d\<lparr>users := map f (users d)\<rparr>)"
  using assms by (cases x) force+

lemma map_tenants_revoked:
  assumes "revoked x d" and "\<And>t. tnt_id (f t) = tnt_id t"
    and "\<And>t. x = RevokedTenant (tnt_id t) \<Longrightarrow> tnt_status t \<noteq> ACTIVE \<Longrightarrow> tnt_status (f t) \<noteq> ACTIVE"
  shows "revoked x (d\<lparr>tenants := map f (tenants d)\<rparr>)"
  using assms by (cases x) force+

lemma map_memberships_revoked:
  assumes "revoked x d"
    and "\<And>m. mbr_id (f m) = mbr_id m \<and> mbr_user_id (f m) = mbr_user_id m \<and> mbr_tenant_id (f m) = mbr_tenant_id m"
    and "\<And>m user tenant. x = RevokedMembership (mbr_id m) user tenant \<Longrightarrow> mbr_status m \<noteq> ACTIVE
      \<Longrightarrow> mbr_status (f m) \<noteq> ACTIVE"
  shows "revoked x (d\<lparr>memberships := map f (memberships d)\<rparr>)"
  using assms by (cases x) force+

lemma allow_revoked:
  assumes "allowlist_add i stamp email note d = Inr d'" and "revoked x d"
    and "\<not> reinstates x (Allow i stamp email note)"
  shows "revoked x d'"
proof (cases x)
  case (RevokedAddress a)
  with assms show ?thesis
    by (auto simp: allowlist_add_def alw_email_normalized_def split: if_splits)
qed (use assms in \<open>auto simp: allowlist_add_def split: if_splits\<close>)

lemma bind_subject_growth:
  assumes "bind_subject stamp email subject d = Inr d'"
    and "schema_ok d"
  shows "growth d d'"
proof -
  obtain u v where "u \<in> set (users d)" "usr_external_id u = None"
    and "update_user_external_id (usr_id u) (Some v) stamp d = Inr d'"
    using assms(1) by (auto simp: bind_subject_def Let_def split: if_splits option.splits dest!: find_Some_D)
  with assms(2) show ?thesis by (intro update_external_id_growth) auto
qed

lemma step_revoked:
  assumes "db_step e d d'" and "schema_ok d" and "revoked x d" and "\<not> reinstates x e"
  shows "revoked x d'"
proof (cases e)
  case (Provision g stamp email subject name)
  with assms(1) show ?thesis by (auto elim: db_step.cases)
next
  case (Rename t stamp name)
  with assms(1) obtain res where
    "tenant_transaction (PyUUID t) (TenantRepository (rename_tenant stamp name)) d = (res, d')"
    by (auto simp: db_step_simps)
  from committed_rename [OF this] show ?thesis
    using assms(3) by (auto intro!: map_tenants_revoked split: if_splits)
next
  case (Allow i stamp email memo)
  with assms show ?thesis using allow_revoked by (simp add: db_step_simps)
next
  case (Bind stamp email subject)
  with assms(1) have "growth d d'" using bind_subject_growth [OF _ assms(2)] by (simp add: db_step_simps)
  with assms(3) show ?thesis by (blast intro: growth_revoked)
next
  case (Disallow email)
  with assms show ?thesis by (cases x) (auto simp: db_step_simps allowlist_remove_def)
next
  case (UserStatus i st)
  with assms show ?thesis
    by (auto simp: db_step_simps set_user_status_def intro!: map_users_revoked split: if_splits)
next
  case (TenantStatus i st)
  with assms show ?thesis
    by (auto simp: db_step_simps set_tenant_status_def intro!: map_tenants_revoked split: if_splits)
next
  case (MembershipStatus i st)
  with assms show ?thesis
    by (auto simp: db_step_simps set_membership_status_def intro!: map_memberships_revoked split: if_splits)
qed

lemma evolves_revoked:
  assumes "evolves (\<lambda>e. \<not> reinstates x e) h0 h" and "coherent h0" and "revoked x (hd h0)"
  shows "revoked x (hd h)"
  using assms
proof (induction rule: evolves.induct)
  case (commit h0 h e d)
  then show ?case using step_revoked evolves_coherent [OF commit(1)] by auto
next
  case (provision h0 h started conc subject g stamp email name p d)
  have "coherent h" by (rule evolves_coherent [OF provision.hyps(1) provision.prems(1)])
  from growth_revoked [OF observed_commit(1) [OF this provision.hyps(2,3)]] provision show ?case by simp
qed

end
