(* ===== verification/SystemProps.thy ===== *)
theory SystemProps
  imports System AccountProps
begin

text \<open>
  Requests on histories: a request that is answered, while other transactions commit before,
  between and after its own, is answered for the account bound to its subject, and never
  past a revocation.
\<close>

section \<open>Answered requests\<close>

text \<open>A request answered with an account: the history when it starts, the verified subject, the
  response, and the history when it ends.  Transactions with allowed events commit between its own,
  between the statements of its authorization and between those of its provisioning.\<close>

definition passes :: "(event \<Rightarrow> bool) \<Rightarrow> (database \<Rightarrow> database) \<Rightarrow> history \<Rightarrow> history \<Rightarrow> bool" where
  "passes allowed f h h' = (evolves allowed h h' \<and> f (hd h) = hd h')"

inductive served ::
    "(event \<Rightarrow> bool) \<Rightarrow> (string \<Rightarrow> 'k::linorder) \<Rightarrow> 'key pyjwt \<Rightarrow> Settings \<Rightarrow> http_client
      \<Rightarrow> history \<Rightarrow> string \<Rightarrow> AccountResponse \<Rightarrow> history \<Rightarrow> bool"
  for allowed collate lib settings client where
  Read: "token_validator st = Some (verify lib settings)
    \<Longrightarrow> require_subject st now authorization = (Inr subject, st1)
    \<Longrightarrow> h \<noteq> [] \<Longrightarrow> passes allowed (before_allowlist w) h h1 \<Longrightarrow> passes allowed (before_memberships w) h1 h2
    \<Longrightarrow> passes allowed (between_transactions w) h2 h'
    \<Longrightarrow> read_account collate w now authorization tenant_id (st, hd h) = (Inr r, st', d')
    \<Longrightarrow> served allowed collate lib settings client h subject r h'"
| SignIn: "token_validator st = Some (verify lib settings)
    \<Longrightarrow> workos_directory st = Some (fetch_profile settings client)
    \<Longrightarrow> require_subject st now authorization = (Inr subject, st1)
    \<Longrightarrow> verified_profile st1 subject = Inr profile
    \<Longrightarrow> evolves allowed h h1 \<Longrightarrow> observes h h1 conc subject
    \<Longrightarrow> with_transaction (provision_personal_tenant (provision_0004 conc) g stamp
          (vp_email profile) (Some subject) None) (hd h) = (Inr p, d)
    \<Longrightarrow> allowed (Provision g stamp (vp_email profile) (Some subject) None)
    \<Longrightarrow> passes allowed (between_transactions w) (d # h1) h2 \<Longrightarrow> passes allowed (before_allowlist w) h2 h3
    \<Longrightarrow> passes allowed (before_memberships w) h3 h'
    \<Longrightarrow> provision_account collate (provision_0004 conc) g stamp w now authorization (st, hd h)
          = (Inr r, st', d')
    \<Longrightarrow> served allowed collate lib settings client h subject r h'"

text \<open>What an answer rests on: at some moment the account was bound to the subject and active, later its
  stored address was allowlisted, and later still it was an active member of the tenant in the
  answer; and at some moment the address in the answer was allowlisted.\<close>

definition entitled :: "database \<Rightarrow> database \<Rightarrow> database \<Rightarrow> string \<Rightarrow> AccountResponse \<Rightarrow> bool" where
  "entitled d1 d2 d3 subject r = (\<exists>u m x t. u \<in> set (users d1) \<and> usr_id u = ar_user_id r
     \<and> usr_external_id u = Some subject \<and> usr_status u = ACTIVE
     \<and> (\<exists>a\<in>set (signup_allowlist d2). alw_email_normalized a = normalize_email (usr_email u))
     \<and> active_member d3 (usr_id u) (m, x, t) \<and> tnt_id t = ar_tenant_id r)"

definition address_allowed :: "database \<Rightarrow> AccountResponse \<Rightarrow> bool" where
  "address_allowed d r = (\<exists>a\<in>set (signup_allowlist d). alw_email_normalized a = normalize_email (ar_email r))"

lemma entitledI:
  assumes "decided w d1 subject = (Inr u, d3)" and "usr_id u = ar_user_id r"
    and "active_member (seen w d1) (usr_id u) (m, x, t)" and "tnt_id t = ar_tenant_id r"
  shows "entitled d1 (before_allowlist w d1) (seen w d1) subject r"
  unfolding entitled_def
  by (intro exI [of _ u] exI [of _ m] exI [of _ x] exI [of _ t]) (use decided_Inr [OF assms(1)] assms(2-4) in simp)

lemma read_account_entitled:
  assumes s: "require_subject st now authorization = (Inr subject, st1)" "subject \<noteq> []"
    and run: "read_account collate w now authorization tenant_id (st, d) = (Inr r, st', d')"
  shows "entitled d (before_allowlist w d) (seen w d) subject r \<and> address_allowed (before_allowlist w d) r"
proof -
  obtain u m t where u: "decided w d subject = (Inr u, seen w d)"
    and m: "select_membership tenant_id (membership_rows collate (usr_id u) (seen w d)) = Inr m"
    and t: "t \<in> set (tenants d')" "tnt_id t = tm_tenant_id m"
    and r: "r = \<lparr>ar_user_id = usr_id u, ar_email = usr_email u, ar_tenant_id = tnt_id t, ar_tenant_name = tnt_name t,
      ar_tenant_kind = tnt_kind t, ar_role = tm_role m, ar_created = False\<rparr>"
    using read_account_Inr [OF s run] by blast
  obtain mm x tt where mem: "active_member (seen w d) (usr_id u) (mm, x, tt)" "tnt_id tt = tm_tenant_id m"
    using select_membership_Inr [OF m decided_rows [OF u]] unfolding set_membership_rows by auto
  have "entitled d (before_allowlist w d) (seen w d) subject r"
    by (rule entitledI [OF u _ mem(1)]) (use r t(2) mem(2) in simp_all)
  with decided_Inr [OF u] r show ?thesis by (simp add: address_allowed_def)
qed

lemma provision_account_entitled:
  assumes s: "require_subject st now authorization = (Inr subject, st1)" "subject \<noteq> []" "strip subject = subject"
    and fetch: "workos_directory st1 = Some (fetch_profile settings client)"
    and p: "verified_profile st1 subject = Inr profile"
    and tx: "with_transaction (provision_personal_tenant (provision_0004 conc) g stamp
      (vp_email profile) (Some subject) None) d0 = (Inr prov, d)"
    and d2: "between_transactions w d = d2"
    and bound: "schema_ok d2" "bindings d2 subject = Some (pi_user_id prov)"
    and allowed: "app_signup_allowed (Some (vp_email profile)) d0"
    and run: "provision_account collate (provision_0004 conc) g stamp w now authorization (st, d0) = (Inr r, st', d')"
  shows "address_allowed d0 r \<and> entitled d2 (before_allowlist w d2) (seen w d2) subject r"
proof -
  have clean: "vp_subject profile = subject" "strip (vp_email profile) = vp_email profile"
    using workos.verified_profile_Inr [OF fetch p] by simp_all
  let ?rows = "\<lambda>u. membership_rows collate (usr_id u) (seen w d2)"
  obtain user rows d3 where auth: "with_transaction (authorize_local_access collate w subject) d2 = (Inr (user, rows), d3)"
    and r: "ar_user_id r = pi_user_id prov" "ar_email r = vp_email profile"
      "ar_tenant_id r = tm_tenant_id (case find (\<lambda>m. tm_tenant_id m = pi_tenant_id prov) rows of
         Some m \<Rightarrow> m | None \<Rightarrow> hd rows)"
    using run unfolding provision_account_def prod.case s(1) sum.case p clean(1) tx d2 Let_def
    by (cases "with_transaction (authorize_local_access collate w subject) d2"; cases "fst (with_transaction
      (authorize_local_access collate w subject) d2)") auto
  obtain u where u: "decided w d2 subject = (Inr u, seen w d2)" and rows: "rows = ?rows u"
    using authorized_Inr [OF s(2) auth] by blast
  note act = decided_Inr [OF u]
  have same: "usr_id u = pi_user_id prov"
    using act bindings_of_user [OF bound(1), of u subject] bound(2) by simp
  have "(case find (\<lambda>m. tm_tenant_id m = pi_tenant_id prov) (?rows u) of
      Some m \<Rightarrow> m | None \<Rightarrow> hd (?rows u)) \<in> set (?rows u)"
    using decided_rows [OF u, of collate] by (auto dest: find_Some_D split: option.split)
  then obtain m x t where mem: "active_member (seen w d2) (usr_id u) (m, x, t)" "tnt_id t = ar_tenant_id r"
    using r(3) unfolding rows set_membership_rows by auto
  have "entitled d2 (before_allowlist w d2) (seen w d2) subject r"
    by (rule entitledI [OF u _ mem]) (simp add: same r(1))
  moreover have "address_allowed d0 r"
    using allowed r(2) btrim_id_if_stripped [OF clean(2)] clean(2)
    by (simp add: address_allowed_def signup_allowed_iff normalize_email_def EMAIL_NORMALIZATION_SQL_def)
  ultimately show ?thesis by (rule conjI [rotated])
qed

lemma passes_seen:
  "passes allowed (before_allowlist w) h1 h2 \<Longrightarrow> passes allowed (before_memberships w) h2 h3
    \<Longrightarrow> before_allowlist w (hd h1) = hd h2 \<and> seen w (hd h1) = hd h3"
  by (simp add: passes_def seen_def)

lemma served_entitled:
  assumes "served allowed collate lib settings client h subject r h'" and "coherent h"
  shows "(\<exists>h1. evolves allowed h h1 \<and> evolves allowed h1 h' \<and> address_allowed (hd h1) r)
    \<and> (\<exists>h1 h2 h3. evolves allowed h h1 \<and> evolves allowed h1 h2 \<and> evolves allowed h2 h3 \<and> evolves allowed h3 h'
        \<and> entitled (hd h1) (hd h2) (hd h3) subject r)"
  using assms
proof (induction rule: served.induct)
  case (Read st now authorization subject st1 h w h1 h2 h' tenant_id r st' d')
  have "subject \<noteq> []" using access_token.require_subject_verified [OF Read(1,2)] by blast
  from read_account_entitled [OF Read(2) this Read(7)] passes_seen [OF Read(4,5)]
  have "entitled (hd h) (hd h1) (hd h2) subject r" "address_allowed (hd h1) r" by simp_all
  moreover have h: "evolves allowed h h1" "evolves allowed h1 h2" "evolves allowed h2 h'"
    using Read(4-6) by (simp_all add: passes_def)
  moreover note evolves_trans [OF h(3,2)]
  ultimately show ?case by blast
next
  case (SignIn st now authorization subject st1 profile h h1 conc g stamp p d w h2 h3 h' r st' d')
  obtain limiter where v: "subject \<noteq> []" "strip subject = subject" "st1 = st\<lparr>auth_limiter := limiter\<rparr>"
    using access_token.require_subject_verified [OF SignIn(1,3)] by blast
  have dir: "workos_directory st1 = Some (fetch_profile settings client)" using SignIn(2) v(3) by simp
  have sub: "subject_text (Some subject) = subject" using v(2) by (simp add: subject_text_def)
  have h1: "coherent h1" by (rule evolves_coherent [OF SignIn.hyps(5) SignIn.prems])
  note commit = observed_commit [OF h1, of h conc "Some subject", unfolded sub, OF SignIn.hyps(6,7)]
  have own: "evolves allowed h (d # h1)"
    by (rule evolves.provision [OF SignIn.hyps(5)]) (use SignIn.hyps(6-8) sub in simp_all)
  have h: "evolves allowed (d # h1) h2" "evolves allowed h2 h3" "evolves allowed h3 h'" "between_transactions w d = hd h2"
    using SignIn.hyps(9-11) by (simp_all add: passes_def)
  have later: "keeps d (hd h2)" using evolves_keeps [OF h(1) coherent_Cons [OF h1 commit(2)]] by simp
  have "address_allowed (hd h) r \<and> entitled (hd h2) (before_allowlist w (hd h2)) (seen w (hd h2)) subject r"
    by (rule provision_account_entitled [OF SignIn.hyps(3) v(1,2) dir SignIn.hyps(4,7) h(4) _ _ commit(4) SignIn.hyps(12)])
      (use later commit(3) in \<open>simp_all add: keeps_def\<close>)
  then have ent: "address_allowed (hd h) r" "entitled (hd h2) (hd h3) (hd h') subject r"
    using passes_seen [OF SignIn.hyps(10,11)] by simp_all
  note two = evolves_trans [OF h(1) own]
  from ent(1) evolves_trans [OF h(3) evolves_trans [OF h(2) two]]
  have "\<exists>h1. evolves allowed h h1 \<and> evolves allowed h1 h' \<and> address_allowed (hd h1) r" by blast
  with ent(2) two h(2,3) show ?case by blast
qed

lemma served_binds:
  assumes "served allowed collate lib settings client h subject r h'" and "coherent h"
  shows "coherent h' \<and> bindings (hd h') subject = Some (ar_user_id r)"
proof -
  obtain h1 h2 h3 where h: "evolves allowed h h1" "evolves allowed h1 h2" "evolves allowed h2 h3" "evolves allowed h3 h'"
    "entitled (hd h1) (hd h2) (hd h3) subject r"
    using served_entitled [OF assms] by blast
  have c: "coherent h1" by (rule evolves_coherent [OF h(1) assms(2)])
  have "bindings (hd h1) subject = Some (ar_user_id r)"
    using h(5) bindings_of_user [OF coherent_now [OF c]] unfolding entitled_def by metis
  moreover note late = evolves_trans [OF h(4) evolves_trans [OF h(3,2)]]
  ultimately show ?thesis using evolves_keeps [OF late c] evolves_coherent [OF late c] by (simp add: keeps_def)
qed

lemma bindings_inj:
  "schema_ok d \<Longrightarrow> bindings d s1 = Some i \<Longrightarrow> bindings d s2 = Some i \<Longrightarrow> s1 = s2"
  using user_key by (metis bindings_Some option.inject)

lemma served_suffix: "served allowed collate lib settings client h subject r h' \<Longrightarrow> suffix h h'"
proof (induction rule: served.induct)
  case (Read st now authorization subject st1 h w h1 h2 h' tenant_id r st' d')
  then show ?case unfolding passes_def by (meson evolves_suffix suffix_order.trans)
next
  case (SignIn st now authorization subject st1 profile h h1 conc g stamp p d w h2 h3 h' r st' d')
  then have "suffix h (d # h1)" by (blast intro: suffix_ConsI evolves_suffix)
  with SignIn(9-11) show ?case unfolding passes_def by (meson evolves_suffix suffix_order.trans)
qed

lemma answered_binds:
  assumes "served allowed collate lib settings client h1 s r h1'" and "h1 \<noteq> []" and "suffix h1' h" and "coherent h"
  shows "bindings (hd h) s = Some (ar_user_id r)"
proof -
  have "suffix h1 h1'" by (rule served_suffix [OF assms(1)])
  then have "suffix h1 h" using assms(3) by (rule suffix_order.trans)
  then have "coherent h1" by (rule coherent_suffix [OF assms(4,2)])
  from served_binds [OF assms(1) this] coherentD [OF assms(4) _ assms(3)] show ?thesis
    by (auto simp: keeps_def coherent_def)
qed

section \<open>Accounts never change hands\<close>

text \<open>C1: Accounts never change hands: over any history - sign-ins whose statements overlap in any way,
  renames, an administrator's scripts and revocations - two requests answered at any moments, one
  after the other or at the same time, name the same account exactly when they were made by the
  same verified subject.\<close>

theorem accounts_never_change_hands:
  fixes collate :: "string \<Rightarrow> 'k::linorder"
  assumes "schema_ok d0" and "evolves (\<lambda>_. True) [d0] h"
    and "served (\<lambda>_. True) collate lib settings client h1 s1 r1 h1'" and "h1 \<noteq> []" and "suffix h1' h"
    and "served (\<lambda>_. True) collate lib settings client h2 s2 r2 h2'" and "h2 \<noteq> []" and "suffix h2' h"
  shows "ar_user_id r1 = ar_user_id r2 \<longleftrightarrow> s1 = s2"
proof -
  have c: "coherent h" by (rule evolves_coherent [OF assms(2) coherent_start [OF assms(1)]])
  have "bindings (hd h) s1 = Some (ar_user_id r1)" by (rule answered_binds [OF assms(3-5) c])
  moreover have "bindings (hd h) s2 = Some (ar_user_id r2)" by (rule answered_binds [OF assms(6-8) c])
  ultimately show ?thesis using bindings_inj [OF coherent_now [OF c]] by fastforce
qed

lemma sample_served:
  assumes "map_sum (\<lambda>e. e) ar_user_id (fst (read_account length steady 0 bearer None (sample_app, hd h))) = Inr i"
    and "h \<noteq> []"
  shows "\<exists>r. served allowed length sample_pyjwt production_started sample_client h ''sub_a'' r h \<and> ar_user_id r = i"
proof -
  obtain st1 where s: "require_subject sample_app 0 bearer = (Inr ''sub_a'', st1)"
    using sample_subject by blast
  obtain res st' d' where run: "read_account length steady 0 bearer None (sample_app, hd h) = (res, st', d')"
    by (metis prod_cases3)
  with assms(1) obtain r where r: "res = Inr r" "ar_user_id r = i" by (cases res) auto
  have pass: "passes allowed (before_allowlist steady) h h" "passes allowed (before_memberships steady) h h"
    "passes allowed (between_transactions steady) h h" by (simp_all add: passes_def)
  from served.Read [OF sample_validator s assms(2) pass run [unfolded r(1)]] r(2) show ?thesis by blast
qed

text \<open>Two calls that overlap: the second starts before the first commits and inserts its user after.\<close>

definition overlapping :: interference where
  "overlapping = \<lparr>at_subject_lookup = (\<lambda>_. db_empty), at_email_lookup = (\<lambda>_. db_empty),
     at_user_insert = (\<lambda>_. db_one), at_locked_user = (\<lambda>_. db_one)\<rparr>"

lemma committed_by: "map_prod (map_sum f g) (\<lambda>d. d) r = (Inr y, d) \<Longrightarrow> \<exists>p. r = (Inr p, d)"
  by (cases r; cases "fst r") auto

lemma overlap: "evolves (\<lambda>_. True) [db_empty] [db_two, db_one, db_empty]"
proof -
  have one: "observes [db_empty] [db_empty] quiet (subject_text (Some ''sub_a''))"
    unfolding observes_def by (intro exI [of _ "[db_empty]"]) (simp add: row_locked_def)
  have "map_prod (map_sum (\<lambda>e. e) pi_created) (\<lambda>d. d) (with_transaction (provision_personal_tenant
      (provision_0004 quiet) ids_a 5 ''ann@x.io'' (Some ''sub_a'') None) db_empty) = (Inr True, db_one)"
    by code_simp
  from committed_by [OF this] obtain p where "with_transaction (provision_personal_tenant (provision_0004 quiet) ids_a 5 ''ann@x.io''
      (Some ''sub_a'') None) (hd [db_empty]) = (Inr p, db_one)" by auto
  from evolves.provision [OF evolves.stay one this] have a: "evolves (\<lambda>_. True) [db_empty] [db_one, db_empty]" by simp
  have two: "observes [db_empty] [db_one, db_empty] overlapping (subject_text (Some ''sub_b''))"
    unfolding observes_def
    by (intro exI [of _ "[db_empty]"]) (simp add: row_locked_def overlapping_def suffix_Cons db_empty_def)
  have "map_prod (map_sum (\<lambda>e. e) pi_created) (\<lambda>d. d) (with_transaction (provision_personal_tenant
      (provision_0004 overlapping) ids_b 6 ''bob@x.io'' (Some ''sub_b'') (Some ''Bob'')) db_empty) = (Inr True, db_two)"
    by code_simp
  from committed_by [OF this] obtain p where "with_transaction (provision_personal_tenant (provision_0004 overlapping) ids_b 6 ''bob@x.io''
      (Some ''sub_b'') (Some ''Bob'')) (hd [db_empty]) = (Inr p, db_two)" by auto
  from evolves.provision [OF a two this] show ?thesis by simp
qed

theorem accounts_never_change_hands_witness:
  "\<exists>r1 r2. served (\<lambda>_. True) length sample_pyjwt production_started sample_client
       [db_one, db_empty] ''sub_a'' r1 [db_one, db_empty]
     \<and> served (\<lambda>_. True) length sample_pyjwt production_started sample_client
         [db_two, db_one, db_empty] ''sub_a'' r2 [db_two, db_one, db_empty]
     \<and> ar_user_id r1 = 11 \<and> ar_user_id r1 = ar_user_id r2"
proof -
  have "map_sum (\<lambda>e. e) ar_user_id
      (fst (read_account length steady 0 bearer None (sample_app, hd [db_one, db_empty]))) = Inr 11"
    by code_simp
  from sample_served [OF this] obtain r1 where r1: "served (\<lambda>_. True) length sample_pyjwt production_started
      sample_client [db_one, db_empty] ''sub_a'' r1 [db_one, db_empty]" "ar_user_id r1 = 11" by blast
  have "map_sum (\<lambda>e. e) ar_user_id
      (fst (read_account length steady 0 bearer None (sample_app, hd [db_two, db_one, db_empty]))) = Inr 11"
    by code_simp
  from sample_served [OF this] obtain r2 where r2: "served (\<lambda>_. True) length sample_pyjwt production_started
      sample_client [db_two, db_one, db_empty] ''sub_a'' r2 [db_two, db_one, db_empty]" by blast
  have "ar_user_id r1 = ar_user_id r2"
    using accounts_never_change_hands [OF samples_ok(1) overlap r1(1) _ _ r2] by (simp add: suffix_Cons)
  with r1 r2 show ?thesis by blast
qed

section \<open>Revocations last\<close>

definition names :: "revocation \<Rightarrow> AccountResponse \<Rightarrow> bool" where
  "names x r = (case x of
     RevokedUser i \<Rightarrow> ar_user_id r = i
   | RevokedTenant i \<Rightarrow> ar_tenant_id r = i
   | RevokedMembership i user tenant \<Rightarrow> ar_user_id r = user \<and> ar_tenant_id r = tenant
   | RevokedAddress a \<Rightarrow> normalize_email (ar_email r) = a)"

lemma revoked_not_entitled:
  assumes "schema_ok d" and "revoked x d" and "entitled d1 d2 d subject r" and "\<forall>a. x \<noteq> RevokedAddress a"
  shows "\<not> names x r"
proof -
  obtain i m w t where i: "i = ar_user_id r" and mem: "active_member d i (m, w, t)" "tnt_id t = ar_tenant_id r"
    using assms(3) unfolding entitled_def by blast
  have row: "m \<in> set (memberships d)" "t \<in> set (tenants d)" "w \<in> set (users d)" "mbr_tenant_id m = tnt_id t"
    "mbr_user_id m = i" "usr_id w = i" "mbr_status m = ACTIVE" "tnt_status t = ACTIVE" "usr_status w = ACTIVE"
    using mem by (auto simp: active_member_def set_joined all_active_def)
  have w': "v = w" if "v \<in> set (users d)" "usr_id v = i" for v
    using user_key [OF assms(1) that(1) row(3)] that(2) row(6) by simp
  have t': "v = t" if "v \<in> set (tenants d)" "tnt_id v = tnt_id t" for v
    using assms(1) row(2) that by (auto simp: schema_ok_def tenants_ok_def dest: distinct_map_eq)
  have pairs: "distinct (map (\<lambda>m. (mbr_user_id m, mbr_tenant_id m)) (memberships d))"
    using assms(1) by (simp add: schema_ok_def memberships_ok_def)
  have m': "n = m" if "n \<in> set (memberships d)" "mbr_user_id n = mbr_user_id m" "mbr_tenant_id n = mbr_tenant_id m" for n
    by (rule distinct_map_eq [OF pairs that(1) row(1)]) (simp add: that)
  show ?thesis
  proof (cases x)
    case (RevokedUser j)
    with assms(2) obtain v where v: "v \<in> set (users d)" "usr_id v = j" "usr_status v \<noteq> ACTIVE" by auto
    have "j \<noteq> i" using w' [OF v(1)] v(2,3) row(9) by blast
    with i show ?thesis by (simp add: RevokedUser names_def)
  next
    case (RevokedTenant j)
    with assms(2) obtain v where v: "v \<in> set (tenants d)" "tnt_id v = j" "tnt_status v \<noteq> ACTIVE" by auto
    have "j \<noteq> tnt_id t" using t' [OF v(1)] v(2,3) row(8) by blast
    with mem(2) show ?thesis by (simp add: RevokedTenant names_def)
  next
    case (RevokedMembership j user tenant)
    with assms(2) obtain n where n: "n \<in> set (memberships d)" "mbr_user_id n = user" "mbr_tenant_id n = tenant"
      "mbr_status n \<noteq> ACTIVE" by auto
    have "\<not> (user = i \<and> tenant = tnt_id t)" using m' [OF n(1)] n(2-4) row(4,5,7) by auto
    with i mem(2) show ?thesis unfolding RevokedMembership names_def by auto
  qed (use assms(4) in blast)
qed

text \<open>C2: Revocations last: once a user, a tenant or a membership is disabled, or an address is off the
  allowlist, no request that starts later is answered with it, whatever happens before and during the
  request - sign-ins, also those whose statements overlap the revocation, renames, the scripts, other
  revocations - short of the event that reinstates it.\<close>

theorem revocations_last:
  fixes collate :: "string \<Rightarrow> 'k::linorder"
  assumes "schema_ok d0" and "evolves any [d0] h0" and "revoked x (hd h0)"
    and "evolves (\<lambda>e. \<not> reinstates x e) h0 h"
    and "served (\<lambda>e. \<not> reinstates x e) collate lib settings client h subject r h'"
  shows "\<not> names x r"
proof -
  let ?evolves = "evolves (\<lambda>e. \<not> reinstates x e)"
  have c0: "coherent h0" by (rule evolves_coherent [OF assms(2) coherent_start [OF assms(1)]])
  have c: "coherent h" by (rule evolves_coherent [OF assms(4) c0])
  obtain ha where a: "?evolves h ha" "address_allowed (hd ha) r" using served_entitled [OF assms(5) c] by blast
  obtain h1 h2 h3 where b: "?evolves h h1" "?evolves h1 h2" "?evolves h2 h3" "entitled (hd h1) (hd h2) (hd h3) subject r"
    using served_entitled [OF assms(5) c] by blast
  note address = evolves_trans [OF a(1) assms(4)]
    and member = evolves_trans [OF b(3) evolves_trans [OF b(2) evolves_trans [OF b(1) assms(4)]]]
  note rev = evolves_revoked [OF address c0 assms(3)] evolves_revoked [OF member c0 assms(3)]
  show ?thesis
  proof (cases "\<exists>a. x = RevokedAddress a")
    case True
    with rev(1) a(2) show ?thesis by (auto simp: names_def address_allowed_def)
  next
    case False
    with rev(2) b(4) coherent_now [OF evolves_coherent [OF member c0]] show ?thesis
      using revoked_not_entitled by blast
  qed
qed

theorem revocations_last_witness:
  "\<exists>r. served (\<lambda>e. \<not> reinstates (RevokedUser 21) e) length sample_pyjwt production_started sample_client
       [allowlist_remove ''bob@x.io'' (set_user_status 21 DISABLED db_two), set_user_status 21 DISABLED db_two, db_two]
       ''sub_a'' r
       [allowlist_remove ''bob@x.io'' (set_user_status 21 DISABLED db_two), set_user_status 21 DISABLED db_two, db_two]
     \<and> ar_user_id r = 11 \<and> \<not> names (RevokedUser 21) r"
proof -
  let ?d0 = "set_user_status 21 DISABLED db_two" and ?x = "RevokedUser 21"
  let ?h = "[allowlist_remove ''bob@x.io'' ?d0, ?d0, db_two]"
  have "db_step (UserStatus 21 DISABLED) (hd [db_two]) ?d0" by (simp add: db_step_simps) code_simp
  from evolves.commit [OF evolves.stay this] have first: "evolves (\<lambda>_. True) [db_two] [?d0, db_two]" by simp
  have "db_step (Disallow ''bob@x.io'') (hd [?d0, db_two]) (hd ?h)" by (simp add: db_step_simps)
  from evolves.commit [OF evolves.stay this] have step: "evolves (\<lambda>e. \<not> reinstates ?x e) [?d0, db_two] ?h" by simp
  have rev: "revoked ?x (hd [?d0, db_two])" by code_simp
  have "map_sum (\<lambda>e. e) ar_user_id (fst (read_account length steady 0 bearer None (sample_app, hd ?h))) = Inr 11"
    by code_simp
  from sample_served [OF this] obtain r
    where r: "served (\<lambda>e. \<not> reinstates ?x e) length sample_pyjwt production_started sample_client ?h ''sub_a'' r ?h"
      "ar_user_id r = 11" by blast
  have ok: "schema_ok db_two" by simp
  from revocations_last [OF ok first rev step r(1)] r show ?thesis by blast
qed

section \<open>From the token to the account\<close>

lemma served_subject:
  assumes "served allowed collate lib settings client h subject r h'"
  shows "\<exists>token v. verify lib settings token = Inr v \<and> vs_subject v = subject"
  using assms
proof (induction rule: served.induct)
  case (Read st now authorization subject st1 h w h1 h2 h' tenant_id r st' d')
  from access_token.require_subject_verified [OF Read(1,2)] show ?case by blast
next
  case (SignIn st now authorization subject st1 profile h h1 conc g stamp p d w h2 h3 h' r st' d')
  from access_token.require_subject_verified [OF SignIn(1,3)] show ?case by blast
qed

text \<open>C3: From the token to the account: under settings that start, every answer at a moment of a history goes
  back to a token with a valid signature under a configured key by an asymmetric algorithm, of
  an accepted issuer, not expired beyond the leeway; the token's own subject is the one bound to
  the account in the answer; and during the request the account was active, then its address
  allowlisted, then it was an active member of the tenant in the answer.\<close>

theorem answers_are_authenticated:
  fixes collate :: "string \<Rightarrow> 'k::linorder"
  assumes "SafeSettings_init raw = Inr settings" and "pyjwt_contract sig_ok payload keys now lib"
    and "schema_ok d0" and "evolves any [d0] h" and "served allowed collate lib settings client h subject r h'"
  shows "(\<exists>token s x e. (\<exists>key\<in>keys. \<exists>alg\<in>set (workos_algorithms settings). sig_ok token key alg
          \<and> \<not> prefix ''HS'' (upper alg) \<and> \<not> prefix ''NONE'' (upper alg))
        \<and> (\<exists>i\<in>set (workos_accepted_issuers settings). get_claim (payload token) ''iss'' = Some (JStr i))
        \<and> get_claim (payload token) ''exp'' = Some x \<and> int_of_json x = Some e
        \<and> now - workos_leeway_seconds settings < e
        \<and> get_claim (payload token) ''sub'' = Some (JStr s) \<and> subject = strip s \<and> subject \<noteq> [])
    \<and> bindings (hd h') subject = Some (ar_user_id r)
    \<and> (\<exists>h1 h2 h3. evolves allowed h h1 \<and> evolves allowed h1 h2 \<and> evolves allowed h2 h3 \<and> evolves allowed h3 h'
        \<and> entitled (hd h1) (hd h2) (hd h3) subject r)"
proof -
  have c: "coherent h" by (rule evolves_coherent [OF assms(4) coherent_start [OF assms(3)]])
  obtain token v where v: "verify lib settings token = Inr v" "vs_subject v = subject"
    using served_subject [OF assms(5)] by blast
  note evidence = verify_evidence [OF assms(1,2) v(1)]
  obtain s x where "get_claim (payload token) ''sub'' = Some (JStr s)" "subject = strip s" "subject \<noteq> []"
    "get_claim (payload token) ''exp'' = Some x" "int_of_json x = Some (vs_expires_at v)"
    using evidence v(2) by blast
  with evidence have token: "(\<exists>key\<in>keys. \<exists>alg\<in>set (workos_algorithms settings). sig_ok token key alg
        \<and> \<not> prefix ''HS'' (upper alg) \<and> \<not> prefix ''NONE'' (upper alg))
      \<and> (\<exists>i\<in>set (workos_accepted_issuers settings). get_claim (payload token) ''iss'' = Some (JStr i))
      \<and> get_claim (payload token) ''exp'' = Some x \<and> int_of_json x = Some (vs_expires_at v)
      \<and> now - workos_leeway_seconds settings < vs_expires_at v
      \<and> get_claim (payload token) ''sub'' = Some (JStr s) \<and> subject = strip s \<and> subject \<noteq> []"
    by simp
  show ?thesis
    by (intro conjI exI [of _ token] exI [of _ s] exI [of _ x] exI [of _ "vs_expires_at v"] token)
      (use served_binds [OF assms(5) c] served_entitled [OF assms(5) c] in blast)+
qed

theorem answers_are_authenticated_witness:
  "\<exists>r. served (\<lambda>_. True) length sample_pyjwt production_started sample_client
       [db_two, db_one, db_empty] ''sub_a'' r [db_two, db_one, db_empty]
     \<and> ar_user_id r = 11 \<and> bindings db_two ''sub_a'' = Some 11"
proof -
  have "map_sum (\<lambda>e. e) ar_user_id
      (fst (read_account length steady 0 bearer None (sample_app, hd [db_two, db_one, db_empty]))) = Inr 11"
    by code_simp
  from sample_served [OF this] obtain r where r: "served (\<lambda>_. True) length sample_pyjwt production_started
      sample_client [db_two, db_one, db_empty] ''sub_a'' r [db_two, db_one, db_empty]" "ar_user_id r = 11" by blast
  from answers_are_authenticated [OF production_starts sample_pyjwt_contract samples_ok(1) overlap r(1)] r
  show ?thesis by auto
qed

end
