(* ===== verification/Spec2Isabelle.thy ===== *)
theory Spec2Isabelle
  imports ProvisionProps TenantProps IdentityProps RateLimitProps ConfigProps AuthProps AccountProps
    AccessCheck LiveSpikeProps WorkflowProps ApplicationProps MigrationProps MigrationEnv Metadata SystemProps
begin

text \<open>
  A verification development of the Vespers backend: the Python code under \<^verbatim>\<open>src/backend/\<close> and
  the migrations under \<^verbatim>\<open>src/migrations/\<close>, whose SQL functions and policies carry the decisions
  on identity and tenants.

  \<^bold>\<open>The program.\<close>  A request to \<^verbatim>\<open>/api/account\<close> carries a bearer token.  \<^verbatim>\<open>auth/tokens.py\<close> verifies
  it and yields a subject, \<^verbatim>\<open>auth/ratelimit.py\<close> limits the subject, \<^verbatim>\<open>auth/workos.py\<close> looks its
  address up, \<^verbatim>\<open>identity/service.py\<close> calls the \<^verbatim>\<open>SECURITY DEFINER\<close> functions of the migrations to
  provision or authorize an account, and \<^verbatim>\<open>storage/tenant_context.py\<close> with
  \<^verbatim>\<open>identity/repository.py\<close> reads the tenant under row-level security.  Beside it there are the
  settings (\<^verbatim>\<open>config.py\<close>), an access report (\<^verbatim>\<open>identity/access_check.py\<close>), a bounded runner
  against live providers (\<^verbatim>\<open>agent/live_spike.py\<close>), and a worker with its probes
  (\<^verbatim>\<open>workflows/\<close>).

  \<^bold>\<open>Theories and code.\<close>
  \<^item> \<open>Prelude\<close>, \<open>PyText\<close>: fallible and stateful operations, lists, dicts, and the text operations
    of Python and SQL.  Text has the first 256 code points; Python's \<^verbatim>\<open>strip\<close> and SQL's
    \<^verbatim>\<open>btrim\<close> are different functions.
  \<^item> \<open>Schema\<close> (\<^verbatim>\<open>storage/models.py\<close>, tables of 0002): rows, constraints and defaults; \<open>schema_ok\<close>
    is the invariant the constraints keep.  \<open>Bootstrap\<close>: the read-only SQL functions.
  \<^item> \<open>Provision\<close>: \<^verbatim>\<open>app.provision_personal_identity\<close> in the versions of 0002, 0003 and 0004, one
    definition per statement group.  \<open>interference\<close> is what other transactions commit between
    its statements; \<open>quiet\<close> is none.  \<open>ProvisionFacts\<close> splits a call into its outcomes,
    \<open>ProvisionContract\<close> states the contract of a version as the locale its clients use,
    \<open>ProvisionRules\<close> the binding rules as a decision table, \<open>ProvisionProps\<close> the properties.
  \<^item> \<open>Uuid\<close>, \<open>Exceptions\<close>, \<open>TenantScope\<close>: the session, the tenant setting, the policies and the
    repository.  \<open>TenantFacts\<close> has the locale \<open>scoped_op\<close> of operations confined to the tenant in
    scope, with each repository method an interpretation; \<open>TenantProps\<close> the isolation properties.
  \<^item> \<open>Identity\<close>, \<open>IdentityProps\<close>: \<^verbatim>\<open>IdentityService\<close> and the translation of its errors.
  \<^item> \<open>RateLimit\<close>, \<open>RateLimitProps\<close>: the limiter with exact rational time, the locale of attempt
    limiters, and the sliding-window specification it refines.
  \<^item> \<open>Config\<close>, \<open>Tokens\<close>, \<open>Workos\<close>, with \<open>ConfigProps\<close> and \<open>AuthProps\<close>: settings, token validation
    and the directory.  PyJWT is a parameter with the predicate \<open>pyjwt_contract\<close>, shown
    satisfiable by \<open>sample_pyjwt\<close>; the HTTP client is a function.
  \<^item> \<open>Account\<close>, \<open>AccountFacts\<close>, \<open>AccountProps\<close>: both routes over application state and database;
    \<open>pauses\<close> are what other transactions commit between the statements of authorization and between
    the transactions of one request.
  \<^item> \<open>AccessCheck\<close>: the report, and its agreement with what a request meets.
  \<^item> \<open>LiveSpike\<close>, \<open>LiveSpikeFacts\<close>, \<open>LiveSpikeProps\<close>: the transport, the provider runs and the
    report.  A client library is a \<open>program\<close> that sends requests and reacts to the answers; the
    network answers depending on all it was sent.  The locale \<open>provider_checks\<close> is the contract
    of the checks of a provider, interpreted for both.
  \<^item> \<open>Workflows\<close>, \<open>WorkflowProps\<close>: probes, readiness and worker.
  \<^item> \<open>Engine\<close>, \<open>Application\<close>, \<open>ApplicationProps\<close>: the options of the engine and the sessions, the formatter and the loggers, the client of the directory, the
    lifespan, the request log and the health routes.  HTTP clients are handles, open or closed.
  \<^item> \<open>Migrations\<close>, \<open>MigrationProps\<close>: the revisions as statements on the catalog.  \<open>Restored\<close> reads the
    texts the downgrades write out again as PL/pgSQL runs them, frame of variables included.
    \<open>MigrationEnv\<close>: the runner of \<^verbatim>\<open>migrations/env.py\<close>.  \<open>Metadata\<close>: the tables as
    \<^verbatim>\<open>storage/models.py\<close> and \<^verbatim>\<open>storage/base.py\<close> declare them and as 0002 creates them.
  \<^item> \<open>Administration\<close>: the scripts of \<^verbatim>\<open>infra/\<close> and revocations.  \<open>System\<close>: every transaction that
    changes the database as a step of a history of committed databases, provisioning calls overlapping
    statement by statement; \<open>SystemProps\<close>: answered requests on histories, the properties that span
    all components.
  \<^item> \<open>Samples\<close>: small databases for the witnesses.

  \<^bold>\<open>What is shown.\<close>  Over every history of the system an account answers to one subject, each answer goes
  back to a valid token of that subject, and what is revoked is in no answer until it is
  reinstated.  An account is handed only to the subject it is bound to, over any sequence of
  calls, and the earlier versions of the function did not keep this; concurrent first sign-ins
  converge, but for one interleaving that refuses its own subject.  A tenant scope confines reads
  and writes.  A read is answered exactly for an active, allowlisted account with an active
  membership, so revocation takes effect on the next request; a provisioning request that
  succeeds is confirmed by the next read.  A token verifies only on a valid signature, issuer,
  expiry and audience.  Production settings are safe when they start.  The limiter is a sliding
  window of bounded memory, and several workers together pass at most the sum of their limits.  The
  live runner cannot exceed its caps, nor by resuming.  Polling ends by its deadline, and the worker
  cleans up.  The migrations leave the runtime role exactly
  the intended privileges, and downgrade to where they started, functions included, but for default
  privileges and a comment; a run of several revisions is all or nothing.  The declared tables are
  the created ones but for one index.  A record is logged once, with allowlisted fields; the directory opens
  at most one client and gives it back.

  \<^bold>\<open>Bounds.\<close>  No fuel is used: recursion is structural, and the polling loop is a partial function
  (\<open>None\<close> is a loop that never returns) shown to return within 901 connections when time does
  not run backwards, as each round waits a tenth of a second against a deadline of ninety.

  \<^bold>\<open>Not modelled.\<close>  The package files re-export names.  Parsing of environment variables
  (pydantic), rendering of JSON, HTTP routing (FastAPI) and durable execution (DBOS) are libraries.
  Concurrency is modelled where the code relies on it - between the statements of provisioning and
  of authorization, between the transactions of a request, around the polls of a probe - and not
  inside a single SQL statement.  \<^verbatim>\<open>infra/init-db.sql\<close> and \<^verbatim>\<open>infra/transition-dev-owner.sql\<close> set
  a server up before the first migration: any roles and default privileges stand for what they
  leave.  The dashboard and the tests are other programs.
\<close>

end
